(* ===== verification/Prelude.thy ===== *)
theory Prelude
  imports Main "HOL-Library.Char_ord" "HOL-Library.List_Lexorder" "HOL-Library.Sublist"
    "HOL-Library.Multiset"
begin

text \<open>
  The vocabulary shared by the component theories: results with an error branch
  (\<open>bindE\<close>), the relational-table operations the SQL statements of
  \<^verbatim>\<open>src/internal/store/postgres\<close> use (\<open>update_where\<close>, \<open>count_where\<close>,
  \<open>least_by\<close>), the functions of Go's \<^verbatim>\<open>strings\<close>, \<^verbatim>\<open>strconv\<close> and
  \<^verbatim>\<open>sort\<close> packages that the sources call, and the list lemmas about them.
  Go strings are byte strings; \<^typ>\<open>char\<close> is a byte, and the order on
  \<^typ>\<open>string\<close> (theories Char\_ord and List\_Lexorder) is Go's bytewise order.
\<close>

named_theorems table_simps \<open>effects of table operations on columns and row counts\<close>
named_theorems bindE_simps \<open>splitting a chain of fallible statements\<close>

section \<open>Results with an error branch\<close>

definition bindE :: "'e + 'a \<Rightarrow> ('a \<Rightarrow> 'e + 'b) \<Rightarrow> 'e + 'b" where
  "bindE m f = (case m of Inl e \<Rightarrow> Inl e | Inr x \<Rightarrow> f x)"

definition checkE :: "bool \<Rightarrow> 'e \<Rightarrow> 'a \<Rightarrow> 'e + 'a" where
  "checkE b e x = (if b then Inr x else Inl e)"

fun foldE :: "('a \<Rightarrow> 's \<Rightarrow> 'e + 's) \<Rightarrow> 'a list \<Rightarrow> 's \<Rightarrow> 'e + 's" where
  "foldE f [] s = Inr s"
| "foldE f (x # xs) s = bindE (f x s) (foldE f xs)"

lemma bindE_Inl [simp]: "bindE (Inl e) f = Inl e"
  by (simp add: bindE_def)

lemma bindE_Inr [simp]: "bindE (Inr x) f = f x"
  by (simp add: bindE_def)

lemma bindE_eq_Inr [bindE_simps]: "bindE m f = Inr y \<longleftrightarrow> (\<exists>x. m = Inr x \<and> f x = Inr y)"
  by (cases m) auto

lemma bindE_eq_Inl [bindE_simps]:
  "bindE m f = Inl e \<longleftrightarrow> m = Inl e \<or> (\<exists>x. m = Inr x \<and> f x = Inl e)"
  by (cases m) auto

lemma checkE_eq_Inr [bindE_simps]: "checkE b e x = Inr y \<longleftrightarrow> b \<and> y = x"
  by (auto simp: checkE_def)

lemma checkE_eq_Inl [bindE_simps]: "checkE b e x = Inl e' \<longleftrightarrow> \<not> b \<and> e' = e"
  by (auto simp: checkE_def)

lemma foldE_invariant:
  assumes "foldE f xs s = Inr s'" and "I s"
    and "\<And>x s s'. x \<in> set xs \<Longrightarrow> f x s = Inr s' \<Longrightarrow> I s \<Longrightarrow> I s'"
  shows "I s'"
  using assms
proof (induction xs arbitrary: s)
  case Nil
  then show ?case by simp
next
  case (Cons x xs)
  from Cons.prems(1) obtain t where t: "f x s = Inr t" "foldE f xs t = Inr s'"
    by (auto simp: bindE_simps)
  have "I t" using Cons.prems(3) [OF _ t(1) Cons.prems(2)] by simp
  with t(2) show ?case
    by (rule Cons.IH) (use Cons.prems(3) in \<open>meson list.set_intros(2)\<close>)
qed

section \<open>Tables as lists of rows\<close>

definition update_where :: "('r \<Rightarrow> bool) \<Rightarrow> ('r \<Rightarrow> 'r) \<Rightarrow> 'r list \<Rightarrow> 'r list" where
  "update_where p f xs = map (\<lambda>r. if p r then f r else r) xs"

definition count_where :: "('r \<Rightarrow> bool) \<Rightarrow> 'r list \<Rightarrow> nat" where
  "count_where p xs = length (filter p xs)"

text \<open>\<open>SELECT ... ORDER BY ... LIMIT 1\<close>: the first row no other row precedes.\<close>

fun least_by :: "('r \<Rightarrow> 'r \<Rightarrow> bool) \<Rightarrow> 'r list \<Rightarrow> 'r option" where
  "least_by lt [] = None"
| "least_by lt (x # xs) =
     (case least_by lt xs of None \<Rightarrow> Some x | Some y \<Rightarrow> Some (if lt y x then y else x))"

lemma set_update_where:
  "set (update_where p f xs) = {r \<in> set xs. \<not> p r} \<union> f ` {r \<in> set xs. p r}"
  by (auto simp: update_where_def)

lemma update_where_Nil [simp]: "update_where p f [] = []"
  by (simp add: update_where_def)

lemma update_where_append [simp]:
  "update_where p f (xs @ ys) = update_where p f xs @ update_where p f ys"
  by (simp add: update_where_def)

lemma length_update_where [simp]: "length (update_where p f xs) = length xs"
  by (simp add: update_where_def)

lemma map_update_where [table_simps]:
  "(\<And>r. r \<in> set xs \<Longrightarrow> p r \<Longrightarrow> k (f r) = k r) \<Longrightarrow> map k (update_where p f xs) = map k xs"
  by (auto simp: update_where_def)

lemma update_where_none [table_simps]:
  "(\<And>r. r \<in> set xs \<Longrightarrow> \<not> p r) \<Longrightarrow> update_where p f xs = xs"
  by (auto simp: update_where_def intro: map_idI)

lemma count_where_Nil [simp]: "count_where p [] = 0"
  by (simp add: count_where_def)

lemma count_where_Cons [simp]:
  "count_where p (x # xs) = (if p x then Suc (count_where p xs) else count_where p xs)"
  by (simp add: count_where_def)

lemma count_where_append [simp]:
  "count_where p (xs @ ys) = count_where p xs + count_where p ys"
  by (simp add: count_where_def)

lemma count_where_0_iff: "count_where p xs = 0 \<longleftrightarrow> (\<forall>x\<in>set xs. \<not> p x)"
  by (simp add: count_where_def filter_empty_conv)

lemma count_where_pos_iff: "0 < count_where p xs \<longleftrightarrow> (\<exists>x\<in>set xs. p x)"
  using count_where_0_iff [of p xs] by auto

lemma count_where_cong:
  "(\<And>x. x \<in> set xs \<Longrightarrow> p x = q x) \<Longrightarrow> count_where p xs = count_where q xs"
  unfolding count_where_def by (metis filter_cong)

lemma count_where_distinct_key:
  assumes "distinct (map k xs)" and "\<And>x. p x \<Longrightarrow> k x = a"
  shows "count_where p xs \<le> 1"
  using assms(1)
proof (induction xs)
  case (Cons x xs)
  have "count_where p xs = 0" if "p x"
    using Cons.prems assms(2) that by (fastforce simp: count_where_0_iff)
  with Cons show ?case by auto
qed simp

lemma distinct_map_key_eq:
  "distinct (map k xs) \<Longrightarrow> x \<in> set xs \<Longrightarrow> y \<in> set xs \<Longrightarrow> k x = k y \<Longrightarrow> x = y"
  by (metis distinct_map inj_onD)

lemma find_Some_in: "find p xs = Some x \<Longrightarrow> x \<in> set xs \<and> p x"
  by (auto simp: find_Some_iff)

lemma find_None_all: "find p xs = None \<longleftrightarrow> (\<forall>x\<in>set xs. \<not> p x)"
  by (auto simp: find_None_iff)

lemma find_key:
  assumes "distinct (map k xs)" and "x \<in> set xs" and "k x = a"
  shows "find (\<lambda>y. k y = a) xs = Some x"
proof (cases "find (\<lambda>y. k y = a) xs")
  case None
  with assms show ?thesis by (auto simp: find_None_all)
next
  case (Some y)
  then have "y \<in> set xs" "k y = k x" using assms(3) by (auto dest: find_Some_in)
  with assms Some show ?thesis by (metis distinct_map_key_eq)
qed

lemma least_by_None [simp]: "least_by lt xs = None \<longleftrightarrow> xs = []"
  by (cases xs) (auto split: option.splits)

lemma least_by_in: "least_by lt xs = Some x \<Longrightarrow> x \<in> set xs"
  by (induction xs arbitrary: x) (auto split: option.splits if_splits)

lemma least_by_least:
  assumes "least_by lt xs = Some x" and "y \<in> set xs"
    and asym: "\<And>a b. lt a b \<Longrightarrow> \<not> lt b a"
    and neg_trans: "\<And>a b c. lt a c \<Longrightarrow> lt a b \<or> lt b c"
  shows "\<not> lt y x"
  using assms(1,2)
proof (induction xs arbitrary: x)
  case (Cons z zs)
  show ?case
  proof (cases "least_by lt zs")
    case None
    with Cons.prems asym show ?thesis by auto
  next
    case (Some w)
    with Cons.prems(1) have x: "x = (if lt w z then w else z)" by simp
    have "y = z \<or> \<not> lt y w"
      using Cons.prems(2) Cons.IH [OF Some] by auto
    then show ?thesis
      using x asym neg_trans [of y z w] by (auto split: if_splits)
  qed
qed simp

end
