(* ===== verification/Job.thy ===== *)
theory Job
  imports Prelude
begin

text \<open>
  The job model of \<^verbatim>\<open>src/internal/job\<close>: lifecycle states, error kinds, the job and
  submission structs, and the classification of handler errors. A Go \<^verbatim>\<open>*time.Time\<close>
  is an option; times and durations are integers (nanoseconds); a Go string that the
  sources compare with the empty string stays a string.
\<close>

type_synonym gotime = int
type_synonym duration = int

section \<open>States and error kinds\<close>

datatype status =
    StatusPending | StatusRunning | StatusWaiting | StatusRetryScheduled
  | StatusCompleted | StatusFailed | StatusDeadLettered | StatusCancelled

fun status_text :: "status \<Rightarrow> string" where
  "status_text StatusPending = ''pending''"
| "status_text StatusRunning = ''running''"
| "status_text StatusWaiting = ''waiting''"
| "status_text StatusRetryScheduled = ''retry_scheduled''"
| "status_text StatusCompleted = ''completed''"
| "status_text StatusFailed = ''failed''"
| "status_text StatusDeadLettered = ''dead_lettered''"
| "status_text StatusCancelled = ''cancelled''"

definition all_statuses :: "status list" where
  "all_statuses = [StatusPending, StatusRunning, StatusWaiting, StatusRetryScheduled,
     StatusCompleted, StatusFailed, StatusDeadLettered, StatusCancelled]"

datatype error_kind = ErrorTransient | ErrorPermanent | ErrorCancelled

definition DefaultMaxAttempts :: int where
  "DefaultMaxAttempts = 5"

text \<open>The terminal states of the lifecycle, and the transitions between states that the
  service contract (\<^verbatim>\<open>docs/adr/0001-job-service-contracts.md\<close>) lists.\<close>

fun terminal :: "status \<Rightarrow> bool" where
  "terminal StatusCompleted = True"
| "terminal StatusFailed = True"
| "terminal StatusDeadLettered = True"
| "terminal StatusCancelled = True"
| "terminal _ = False"

fun valid_transition :: "status \<Rightarrow> status \<Rightarrow> bool" where
  "valid_transition StatusPending t = (t \<in> {StatusRunning, StatusCancelled})"
| "valid_transition StatusRetryScheduled t = (t \<in> {StatusRunning, StatusCancelled})"
| "valid_transition StatusRunning t =
     (t \<in> {StatusCompleted, StatusWaiting, StatusRetryScheduled, StatusFailed,
        StatusDeadLettered, StatusCancelled, StatusPending})"
| "valid_transition StatusWaiting t =
     (t \<in> {StatusCompleted, StatusFailed, StatusDeadLettered, StatusCancelled})"
| "valid_transition _ t = False"

section \<open>Jobs, submissions and handler results\<close>

record job =
  ID :: string
  Type :: string
  Payload :: string
  Status :: status
  Attempts :: int
  MaxAttempts :: int
  ScheduledAt :: gotime
  RootJobID :: string
  ParentJobID :: string
  Internal :: bool
  IdempotencyKey :: string
  RequestHash :: string
  LockedBy :: string
  LeaseToken :: string
  LockedUntil :: "gotime option"
  HeartbeatAt :: "gotime option"
  CancelRequestedAt :: "gotime option"
  LastErrorKind :: "error_kind option"
  LastError :: string
  CreatedAt :: gotime
  StartedAt :: "gotime option"
  CompletedAt :: "gotime option"
  RetriedFromJobID :: string
  ReplayedFromJobID :: string

record submission =
  SubType :: string
  SubPayload :: string
  SubMaxAttempts :: int
  SubIdempotencyKey :: string
  SubRequestHash :: string
  SubRootJobID :: string
  SubParentJobID :: string
  SubInternal :: bool
  SubRetriedFromJobID :: string
  SubReplayedFromJobID :: string

record handler_result =
  Result :: string
  Children :: "submission list"

datatype store_error = ErrNotFound | ErrConflict | ErrIdempotencyConflict | ErrLeaseLost | ErrSQL

section \<open>Errors of handlers\<close>

text \<open>
  An error chain: a plain message, \<^verbatim>\<open>context.Canceled\<close>, an error wrapped by
  \<^verbatim>\<open>fmt.Errorf("...: %w", err)\<close>, or a \<^verbatim>\<open>ClassifiedError\<close>. \<open>errors.As\<close> finds the
  outermost \<open>ClassifiedError\<close> of the chain, \<open>errors.Is\<close> looks through the whole chain.
\<close>

datatype go_error =
    PlainError string
  | ContextCanceled
  | Wrapped string go_error
  | ClassifiedError error_kind go_error

fun as_classified :: "go_error \<Rightarrow> error_kind option" where
  "as_classified (PlainError s) = None"
| "as_classified ContextCanceled = None"
| "as_classified (Wrapped s e) = as_classified e"
| "as_classified (ClassifiedError k e) = Some k"

fun is_canceled :: "go_error \<Rightarrow> bool" where
  "is_canceled (PlainError s) = False"
| "is_canceled ContextCanceled = True"
| "is_canceled (Wrapped s e) = is_canceled e"
| "is_canceled (ClassifiedError k e) = is_canceled e"

fun error_text :: "go_error \<Rightarrow> string" where
  "error_text (PlainError s) = s"
| "error_text ContextCanceled = ''context canceled''"
| "error_text (Wrapped s e) = s @ '': '' @ error_text e"
| "error_text (ClassifiedError k e) = error_text e"

definition Failure :: "error_kind \<Rightarrow> go_error option \<Rightarrow> go_error option" where
  "Failure k e = (case e of None \<Rightarrow> None | Some e' \<Rightarrow> Some (ClassifiedError k e'))"

definition KindOf :: "go_error \<Rightarrow> error_kind" where
  "KindOf e = (case as_classified e of
     Some k \<Rightarrow> k
   | None \<Rightarrow> if is_canceled e then ErrorCancelled else ErrorPermanent)"

definition NewJob :: "string \<Rightarrow> string \<Rightarrow> string \<Rightarrow> job" where
  "NewJob newID jobType payload =
     \<lparr>ID = newID, Type = jobType, Payload = payload, Status = StatusPending, Attempts = 0,
      MaxAttempts = DefaultMaxAttempts, ScheduledAt = 0, RootJobID = [], ParentJobID = [],
      Internal = False, IdempotencyKey = [], RequestHash = [], LockedBy = [],
      LeaseToken = [], LockedUntil = None, HeartbeatAt = None, CancelRequestedAt = None,
      LastErrorKind = None, LastError = [], CreatedAt = 0, StartedAt = None,
      CompletedAt = None, RetriedFromJobID = [], ReplayedFromJobID = []\<rparr>"

section \<open>Lemmas\<close>

lemma status_text_inj [simp]: "status_text s = status_text t \<longleftrightarrow> s = t"
  by (cases s; cases t) simp_all

lemma terminal_iff:
  "terminal s \<longleftrightarrow> s \<in> {StatusCompleted, StatusFailed, StatusDeadLettered, StatusCancelled}"
  by (cases s) simp_all

lemma valid_transition_from_terminal: "terminal s \<Longrightarrow> \<not> valid_transition s t"
  by (cases s) simp_all

lemma valid_transition_irrefl [simp]: "\<not> valid_transition s s"
  by (cases s) simp_all

lemma KindOf_unclassified:
  "as_classified e = None \<Longrightarrow> \<not> is_canceled e \<Longrightarrow> KindOf e = ErrorPermanent"
  by (simp add: KindOf_def)

lemma KindOf_Failure [simp]: "KindOf (ClassifiedError k e) = k"
  by (simp add: KindOf_def)

lemma KindOf_Wrapped [simp]: "KindOf (Wrapped s e) = KindOf e"
  by (simp add: KindOf_def)

end
