(* ===== verification/Job_Store.thy ===== *)
theory Job_Store
  imports Job Go_Strings
begin

text \<open>
  The durable job store of \<^verbatim>\<open>src/internal/store/postgres/service.go\<close> over the tables
  of \<^verbatim>\<open>src/db/migrations\<close>. A table is the list of its rows, a nullable column an
  option; every exported method of \<^verbatim>\<open>Store\<close> that writes is one definition, in the
  order of the source. A method is one transaction: \<open>Inl e\<close> is a returned error, after
  which the deferred rollback has left the tables as they were; \<open>Inr\<close> carries the
  committed tables. \<open>ErrSQL\<close> is a statement the database refuses: a primary key or
  unique index that already holds the key (where the statement has no matching
  \<open>ON CONFLICT\<close>), a foreign key without its row, or text that is not JSON.
  \<open>NOW()\<close> is the argument \<open>now\<close>; random identifiers (\<^verbatim>\<open>job.NewJobID\<close>) are
  arguments; rows that other transactions hold locked are the argument \<open>locked\<close> of
  the statements with \<open>SKIP LOCKED\<close>.
\<close>

section \<open>Code outside the repository\<close>

text \<open>
  \<open>sha256_hex\<close> is \<^verbatim>\<open>hex.EncodeToString(sha256.Sum256(...))\<close>, \<open>jsonb_in\<close> PostgreSQL's
  cast to \<^verbatim>\<open>jsonb\<close> (None when it is refused), and the decoders are
  \<^verbatim>\<open>json.Unmarshal\<close> into the two anonymous structs of \<^verbatim>\<open>Complete\<close> and
  \<^verbatim>\<open>insertAuditRelationship\<close> (None when it returns an error).
\<close>

record audit_row_json =
  aj_Ecosystem :: string
  aj_Name :: string
  aj_Version :: string
  aj_License :: string
  aj_Verdict :: string
  aj_ParentName :: string
  aj_ParentVersion :: string

record child_payload_json =
  cj_Name :: string
  cj_Version :: string
  cj_ParentNameSnake :: string
  cj_ParentVersionSnake :: string
  cj_ParentNameCamel :: string
  cj_ParentVersionCamel :: string

record externals =
  sha256_hex :: "string \<Rightarrow> string"
  jsonb_in :: "string \<Rightarrow> string option"
  decode_audit_row :: "string \<Rightarrow> audit_row_json option"
  decode_child_payload :: "string \<Rightarrow> child_payload_json option"

section \<open>Tables\<close>

record job_row =
  r_id :: string
  r_type :: string
  r_payload :: "string option"
  r_status :: status
  r_attempts :: int
  r_max_attempts :: int
  r_scheduled_at :: gotime
  r_created_at :: gotime
  r_root_job_id :: string
  r_parent_job_id :: "string option"
  r_internal :: bool
  r_idempotency_key :: "string option"
  r_request_hash :: "string option"
  r_locked_by :: "string option"
  r_lease_token :: "string option"
  r_locked_until :: "gotime option"
  r_heartbeat_at :: "gotime option"
  r_cancel_requested_at :: "gotime option"
  r_last_error_kind :: "error_kind option"
  r_last_error :: "string option"
  r_started_at :: "gotime option"
  r_completed_at :: "gotime option"
  r_retried_from :: "string option"
  r_replayed_from :: "string option"

record attempt_row =
  at_job_id :: string
  at_attempt :: int
  at_worker_id :: string
  at_lease_token :: string
  at_status :: string
  at_started_at :: gotime
  at_finished_at :: "gotime option"
  at_error_kind :: "error_kind option"
  at_error :: "string option"

datatype event_details = NoDetails | ErrorDetails error_kind string | SourceJob string

record event_row =
  ev_id :: int
  ev_job_id :: string
  ev_type :: string
  ev_attempt :: "int option"
  ev_worker_id :: "string option"
  ev_details :: event_details
  ev_occurred_at :: gotime

record result_row =
  rs_job_id :: string
  rs_result :: string

record worker_row =
  w_id :: string
  w_started_at :: gotime
  w_heartbeat_at :: gotime

record audit_row =
  ar_root :: string
  ar_ecosystem :: string
  ar_name :: string
  ar_version :: string
  ar_license :: string
  ar_verdict :: string
  ar_parent_name :: "string option"
  ar_parent_version :: "string option"

record relationship_row =
  rl_root :: string
  rl_ecosystem :: string
  rl_parent_name :: string
  rl_parent_version :: string
  rl_child_name :: string
  rl_child_version :: string

record dlq_row =
  dl_id :: int
  dl_job_id :: string
  dl_job_type :: string
  dl_payload :: "string option"
  dl_attempts :: int
  dl_error :: string
  dl_dead_at :: gotime
  dl_error_kind :: "error_kind option"
  dl_root_job_id :: "string option"
  dl_parent_job_id :: "string option"
  dl_replayed_at :: "gotime option"
  dl_replayed_as :: "string option"

record db =
  t_jobs :: "job_row list"
  t_attempts :: "attempt_row list"
  t_events :: "event_row list"
  t_results :: "result_row list"
  t_workers :: "worker_row list"
  t_audit :: "audit_row list"
  t_relationships :: "relationship_row list"
  t_dlq :: "dlq_row list"
  seq_event :: int
  seq_dlq :: int

definition empty_db :: db where
  "empty_db = \<lparr>t_jobs = [], t_attempts = [], t_events = [], t_results = [], t_workers = [],
     t_audit = [], t_relationships = [], t_dlq = [], seq_event = 1, seq_dlq = 1\<rparr>"

section \<open>SQL expressions\<close>

definition nullif_empty :: "string \<Rightarrow> string option" where
  "nullif_empty s = (if s = [] then None else Some s)"

definition coalesce :: "'a option \<Rightarrow> 'a \<Rightarrow> 'a" where
  "coalesce x d = (case x of None \<Rightarrow> d | Some y \<Rightarrow> y)"

definition has_job :: "db \<Rightarrow> string \<Rightarrow> bool" where
  "has_job d i \<longleftrightarrow> list_ex (\<lambda>r. r_id r = i) (t_jobs d)"

definition has_key :: "db \<Rightarrow> string \<Rightarrow> bool" where
  "has_key d k \<longleftrightarrow> list_ex (\<lambda>r. r_idempotency_key r = Some k) (t_jobs d)"

definition job_by_id :: "db \<Rightarrow> string \<Rightarrow> job_row option" where
  "job_by_id d i = find (\<lambda>r. r_id r = i) (t_jobs d)"

text \<open>\<^verbatim>\<open>jsonValue\<close> and the cast of its result: SQL NULL for an empty payload.\<close>

definition jsonValue :: "externals \<Rightarrow> string \<Rightarrow> store_error + string option" where
  "jsonValue ext payload =
     (if payload = [] then Inr None
      else case jsonb_in ext payload of None \<Rightarrow> Inl ErrSQL | Some j \<Rightarrow> Inr (Some j))"

fun firstNonEmpty :: "string list \<Rightarrow> string" where
  "firstNonEmpty [] = []"
| "firstNonEmpty (v # vs) = (if v \<noteq> [] then v else firstNonEmpty vs)"

definition scanServiceJob :: "job_row \<Rightarrow> job" where
  "scanServiceJob r =
     \<lparr>ID = r_id r, Type = r_type r, Payload = coalesce (r_payload r) [], Status = r_status r,
      Attempts = r_attempts r, MaxAttempts = r_max_attempts r,
      ScheduledAt = r_scheduled_at r, RootJobID = r_root_job_id r,
      ParentJobID = coalesce (r_parent_job_id r) [], Internal = r_internal r,
      IdempotencyKey = coalesce (r_idempotency_key r) [],
      RequestHash = coalesce (r_request_hash r) [], LockedBy = coalesce (r_locked_by r) [],
      LeaseToken = coalesce (r_lease_token r) [], LockedUntil = r_locked_until r,
      HeartbeatAt = r_heartbeat_at r, CancelRequestedAt = r_cancel_requested_at r,
      LastErrorKind = r_last_error_kind r, LastError = coalesce (r_last_error r) [],
      CreatedAt = r_created_at r, StartedAt = r_started_at r,
      CompletedAt = r_completed_at r,
      RetriedFromJobID = coalesce (r_retried_from r) [],
      ReplayedFromJobID = coalesce (r_replayed_from r) []\<rparr>"

section \<open>Inserts\<close>

definition insert_event ::
    "gotime \<Rightarrow> string \<Rightarrow> string \<Rightarrow> int option \<Rightarrow> string option \<Rightarrow> event_details \<Rightarrow> db \<Rightarrow> store_error + db" where
  "insert_event now i ty att wk det d =
     checkE (has_job d i) ErrSQL
       (d\<lparr>t_events := t_events d @
            [\<lparr>ev_id = seq_event d, ev_job_id = i, ev_type = ty, ev_attempt = att,
              ev_worker_id = wk, ev_details = det, ev_occurred_at = now\<rparr>],
          seq_event := seq_event d + 1\<rparr>)"

definition insert_attempt :: "gotime \<Rightarrow> string \<Rightarrow> int \<Rightarrow> string \<Rightarrow> string \<Rightarrow> db \<Rightarrow> store_error + db" where
  "insert_attempt now i n wk tok d =
     checkE (has_job d i \<and> \<not> list_ex (\<lambda>a. at_job_id a = i \<and> at_attempt a = n) (t_attempts d)) ErrSQL
       (d\<lparr>t_attempts := t_attempts d @
            [\<lparr>at_job_id = i, at_attempt = n, at_worker_id = wk, at_lease_token = tok,
              at_status = ''running'', at_started_at = now, at_finished_at = None,
              at_error_kind = None, at_error = None\<rparr>]\<rparr>)"

definition insert_result :: "externals \<Rightarrow> string \<Rightarrow> string \<Rightarrow> db \<Rightarrow> store_error + db" where
  "insert_result ext i res d =
     (case jsonb_in ext res of
        None \<Rightarrow> Inl ErrSQL
      | Some j \<Rightarrow>
          if list_ex (\<lambda>x. rs_job_id x = i) (t_results d) then Inr d
          else checkE (has_job d i) ErrSQL
                 (d\<lparr>t_results := t_results d @ [\<lparr>rs_job_id = i, rs_result = j\<rparr>]\<rparr>))"

definition insert_dlq ::
    "gotime \<Rightarrow> string \<Rightarrow> string \<Rightarrow> string option \<Rightarrow> int \<Rightarrow> string \<Rightarrow> error_kind \<Rightarrow> string \<Rightarrow> string option \<Rightarrow> db \<Rightarrow> db" where
  "insert_dlq now i ty payload att err kind root parent d =
     d\<lparr>t_dlq := t_dlq d @
         [\<lparr>dl_id = seq_dlq d, dl_job_id = i, dl_job_type = ty, dl_payload = payload,
           dl_attempts = att, dl_error = err, dl_dead_at = now, dl_error_kind = Some kind,
           dl_root_job_id = Some root, dl_parent_job_id = parent, dl_replayed_at = None,
           dl_replayed_as = None\<rparr>],
       seq_dlq := seq_dlq d + 1\<rparr>"

text \<open>The row an \<open>INSERT INTO jobs\<close> of a submission writes: the columns it does not name
  take their defaults.\<close>

definition new_row :: "gotime \<Rightarrow> string \<Rightarrow> string \<Rightarrow> string option \<Rightarrow> int \<Rightarrow> string \<Rightarrow> job_row" where
  "new_row now i ty payload maxAttempts root =
     \<lparr>r_id = i, r_type = ty, r_payload = payload, r_status = StatusPending, r_attempts = 0,
      r_max_attempts = maxAttempts, r_scheduled_at = now, r_created_at = now,
      r_root_job_id = root, r_parent_job_id = None, r_internal = False,
      r_idempotency_key = None, r_request_hash = None, r_locked_by = None,
      r_lease_token = None, r_locked_until = None, r_heartbeat_at = None,
      r_cancel_requested_at = None, r_last_error_kind = None, r_last_error = None,
      r_started_at = None, r_completed_at = None, r_retried_from = None,
      r_replayed_from = None\<rparr>"

definition insert_job :: "job_row \<Rightarrow> db \<Rightarrow> store_error + db" where
  "insert_job r d = checkE (\<not> has_job d (r_id r)) ErrSQL (d\<lparr>t_jobs := t_jobs d @ [r]\<rparr>)"

section \<open>Submission\<close>

definition submissionHash :: "externals \<Rightarrow> submission \<Rightarrow> string" where
  "submissionHash ext s =
     (if SubRequestHash s \<noteq> [] then SubRequestHash s
      else sha256_hex ext (SubType s @ [CHR 0x00] @ int_text (SubMaxAttempts s) @ [CHR 0x00]
             @ SubPayload s))"

definition default_attempts :: "submission \<Rightarrow> submission" where
  "default_attempts s =
     (if SubMaxAttempts s = 0 then s\<lparr>SubMaxAttempts := DefaultMaxAttempts\<rparr> else s)"

definition submission_row ::
    "externals \<Rightarrow> gotime \<Rightarrow> string \<Rightarrow> string option \<Rightarrow> submission \<Rightarrow> job_row" where
  "submission_row ext now newID payload input =
     (new_row now newID (SubType input) payload (SubMaxAttempts input)
        (if SubRootJobID input = [] then newID else SubRootJobID input))
       \<lparr>r_parent_job_id := nullif_empty (SubParentJobID input),
        r_internal := SubInternal input,
        r_idempotency_key := nullif_empty (SubIdempotencyKey input),
        r_request_hash := Some (submissionHash ext input),
        r_retried_from := nullif_empty (SubRetriedFromJobID input),
        r_replayed_from := nullif_empty (SubReplayedFromJobID input)\<rparr>"

definition Submit ::
    "externals \<Rightarrow> gotime \<Rightarrow> string \<Rightarrow> submission \<Rightarrow> db \<Rightarrow> store_error + job \<times> bool \<times> db" where
  "Submit ext now newID sub d =
     (let input = default_attempts sub;
          requestHash = submissionHash ext input
      in bindE (jsonValue ext (SubPayload input)) (\<lambda>payload.
         case find (\<lambda>r. SubIdempotencyKey input \<noteq> []
                      \<and> r_idempotency_key r = Some (SubIdempotencyKey input)) (t_jobs d) of
           Some row \<Rightarrow>
             (let existing = scanServiceJob row
              in if RequestHash existing \<noteq> requestHash then Inl ErrIdempotencyConflict
                 else Inr (existing, False, d))
         | None \<Rightarrow>
             (let row = submission_row ext now newID payload input
              in bindE (insert_job row d) (\<lambda>d1.
                 bindE (insert_event now newID ''submitted'' None None NoDetails d1) (\<lambda>d2.
                 Inr (scanServiceJob row, True, d2))))))"

section \<open>Workers, claims and heartbeats\<close>

definition RegisterWorker :: "gotime \<Rightarrow> string \<Rightarrow> db \<Rightarrow> db" where
  "RegisterWorker now w d =
     (if list_ex (\<lambda>x. w_id x = w) (t_workers d)
      then d\<lparr>t_workers := update_where (\<lambda>x. w_id x = w)
               (\<lambda>x. x\<lparr>w_started_at := now, w_heartbeat_at := now\<rparr>) (t_workers d)\<rparr>
      else d\<lparr>t_workers := t_workers d @
               [\<lparr>w_id = w, w_started_at = now, w_heartbeat_at = now\<rparr>]\<rparr>)"

definition WorkerHeartbeat :: "gotime \<Rightarrow> string \<Rightarrow> db \<Rightarrow> db" where
  "WorkerHeartbeat now w d =
     d\<lparr>t_workers := update_where (\<lambda>x. w_id x = w) (\<lambda>x. x\<lparr>w_heartbeat_at := now\<rparr>) (t_workers d)\<rparr>"

definition claimable :: "gotime \<Rightarrow> job_row \<Rightarrow> bool" where
  "claimable now r \<longleftrightarrow>
     r_status r \<in> {StatusPending, StatusRetryScheduled} \<and> r_scheduled_at r \<le> now"

text \<open>\<open>ORDER BY scheduled_at, created_at, id\<close>\<close>

definition claim_before :: "job_row \<Rightarrow> job_row \<Rightarrow> bool" where
  "claim_before a b \<longleftrightarrow>
     r_scheduled_at a < r_scheduled_at b \<or>
     (r_scheduled_at a = r_scheduled_at b \<and>
       (r_created_at a < r_created_at b \<or> (r_created_at a = r_created_at b \<and> r_id a < r_id b)))"

definition next_claim :: "gotime \<Rightarrow> (string \<Rightarrow> bool) \<Rightarrow> db \<Rightarrow> job_row option" where
  "next_claim now locked d =
     least_by claim_before (filter (\<lambda>r. claimable now r \<and> \<not> locked (r_id r)) (t_jobs d))"

definition claim_row :: "gotime \<Rightarrow> duration \<Rightarrow> string \<Rightarrow> string \<Rightarrow> job_row \<Rightarrow> job_row" where
  "claim_row now lease workerID token r =
     r\<lparr>r_status := StatusRunning, r_attempts := r_attempts r + 1,
       r_started_at := Some (coalesce (r_started_at r) now), r_locked_by := Some workerID,
       r_lease_token := Some token, r_locked_until := Some (now + lease),
       r_heartbeat_at := Some now\<rparr>"

definition Claim ::
    "gotime \<Rightarrow> (string \<Rightarrow> bool) \<Rightarrow> string \<Rightarrow> duration \<Rightarrow> string \<Rightarrow> db \<Rightarrow> store_error + job option \<times> db" where
  "Claim now locked workerID lease token d =
     (case next_claim now locked d of
        None \<Rightarrow> Inr (None, d)
      | Some row \<Rightarrow>
          (let value = claim_row now lease workerID token row;
               d1 = d\<lparr>t_jobs := update_where (\<lambda>r. r_id r = r_id row)
                        (claim_row now lease workerID token) (t_jobs d)\<rparr>
           in bindE (insert_attempt now (r_id value) (r_attempts value) workerID token d1) (\<lambda>d2.
              bindE (insert_event now (r_id value) ''started'' (Some (r_attempts value))
                       (Some workerID) NoDetails d2) (\<lambda>d3.
              Inr (Some (scanServiceJob value), d3)))))"

text \<open>The fence of heartbeat, completion and failure: job, running state, worker and token.\<close>

definition lease_held :: "job \<Rightarrow> job_row \<Rightarrow> bool" where
  "lease_held v r \<longleftrightarrow> r_id r = ID v \<and> r_status r = StatusRunning \<and>
     r_locked_by r = Some (LockedBy v) \<and> r_lease_token r = Some (LeaseToken v)"

definition Heartbeat :: "gotime \<Rightarrow> job \<Rightarrow> duration \<Rightarrow> db \<Rightarrow> bool \<times> db" where
  "Heartbeat now v lease d =
     (let p = (\<lambda>r. lease_held v r \<and> r_cancel_requested_at r = None)
      in (count_where p (t_jobs d) = 1,
          d\<lparr>t_jobs := update_where p
              (\<lambda>r. r\<lparr>r_locked_until := Some (now + lease), r_heartbeat_at := Some now\<rparr>)
              (t_jobs d)\<rparr>))"

definition clear_lease :: "job_row \<Rightarrow> job_row" where
  "clear_lease r = r\<lparr>r_locked_by := None, r_lease_token := None, r_locked_until := None,
     r_heartbeat_at := None\<rparr>"

section \<open>Completion\<close>

definition insertSubmission ::
    "externals \<Rightarrow> gotime \<Rightarrow> string \<Rightarrow> submission \<Rightarrow> db \<Rightarrow> store_error + db" where
  "insertSubmission ext now newID sub d =
     (let input = default_attempts sub
      in bindE (jsonValue ext (SubPayload input)) (\<lambda>payload.
         if has_key d (SubIdempotencyKey input) then Inr d
         else insert_job
                ((new_row now newID (SubType input) payload (SubMaxAttempts input)
                    (SubRootJobID input))
                   \<lparr>r_parent_job_id := Some (SubParentJobID input),
                    r_internal := SubInternal input,
                    r_idempotency_key := Some (SubIdempotencyKey input),
                    r_request_hash := Some (submissionHash ext input)\<rparr>) d))"

definition insertAuditRelationship :: "externals \<Rightarrow> submission \<Rightarrow> db \<Rightarrow> store_error + db" where
  "insertAuditRelationship ext child d =
     (let ecosystem = trim_suffix (trim_suffix (trim_prefix (SubType child) ''audit_'')
                        ''_package'') ''_module''
      in if ecosystem \<noteq> ''npm'' \<and> ecosystem \<noteq> ''pypi'' \<and> ecosystem \<noteq> ''go'' then Inr d
         else case decode_child_payload ext (SubPayload child) of
             None \<Rightarrow> Inr d
           | Some p \<Rightarrow>
               (let parentName = firstNonEmpty [cj_ParentNameSnake p, cj_ParentNameCamel p];
                    parentVersion = firstNonEmpty [cj_ParentVersionSnake p, cj_ParentVersionCamel p];
                    row = \<lparr>rl_root = SubRootJobID child, rl_ecosystem = ecosystem,
                           rl_parent_name = parentName, rl_parent_version = parentVersion,
                           rl_child_name = cj_Name p, rl_child_version = cj_Version p\<rparr>
                in if parentName = [] \<or> list_ex (\<lambda>x. x = row) (t_relationships d) then Inr d
                   else checkE (has_job d (SubRootJobID child)) ErrSQL
                          (d\<lparr>t_relationships := t_relationships d @ [row]\<rparr>)))"

text \<open>The loop over \<open>result.Children\<close>; \<open>newID n\<close> is the identifier drawn for child \<open>n\<close>.\<close>

fun insert_children ::
    "externals \<Rightarrow> gotime \<Rightarrow> (nat \<Rightarrow> string) \<Rightarrow> job \<Rightarrow> nat \<Rightarrow> submission list \<Rightarrow> db \<Rightarrow> store_error + db" where
  "insert_children ext now newID v n [] d = Inr d"
| "insert_children ext now newID v n (c # cs) d =
     (let child = c\<lparr>SubRootJobID := RootJobID v, SubParentJobID := ID v, SubInternal := True\<rparr>
      in bindE (insertAuditRelationship ext child d) (\<lambda>d1.
         bindE (insertSubmission ext now (newID n) child d1)
           (insert_children ext now newID v (Suc n) cs)))"

definition insert_audit_result :: "externals \<Rightarrow> job \<Rightarrow> handler_result \<Rightarrow> db \<Rightarrow> store_error + db" where
  "insert_audit_result ext v res d =
     (if has_prefix (Type v) ''audit_'' \<and> Result res \<noteq> [] then
        (case decode_audit_row ext (Result res) of
           None \<Rightarrow> Inr d
         | Some j \<Rightarrow>
             (let row = \<lparr>ar_root = RootJobID v, ar_ecosystem = aj_Ecosystem j,
                         ar_name = aj_Name j, ar_version = aj_Version j,
                         ar_license = aj_License j, ar_verdict = aj_Verdict j,
                         ar_parent_name = nullif_empty (aj_ParentName j),
                         ar_parent_version = nullif_empty (aj_ParentVersion j)\<rparr>
              in if list_ex (\<lambda>x. ar_root x = ar_root row \<and> ar_ecosystem x = ar_ecosystem row
                      \<and> ar_name x = ar_name row \<and> ar_version x = ar_version row
                      \<and> coalesce (ar_parent_name x) [] = coalesce (ar_parent_name row) []
                      \<and> coalesce (ar_parent_version x) [] = coalesce (ar_parent_version row) [])
                      (t_audit d)
                 then Inr d
                 else checkE (has_job d (RootJobID v)) ErrSQL (d\<lparr>t_audit := t_audit d @ [row]\<rparr>)))
      else Inr d)"

section \<open>Finalising a root job\<close>

definition active_status :: "status \<Rightarrow> bool" where
  "active_status s \<longleftrightarrow>
     s \<in> {StatusPending, StatusRunning, StatusRetryScheduled, StatusWaiting}"

definition is_descendant :: "string \<Rightarrow> job_row \<Rightarrow> bool" where
  "is_descendant root r \<longleftrightarrow> r_root_job_id r = root \<and> r_id r \<noteq> root"

definition active_descendants :: "string \<Rightarrow> db \<Rightarrow> nat" where
  "active_descendants root d =
     count_where (\<lambda>r. is_descendant root r \<and> active_status (r_status r)) (t_jobs d)"

definition failed_descendants :: "string \<Rightarrow> db \<Rightarrow> nat" where
  "failed_descendants root d =
     count_where (\<lambda>r. is_descendant root r \<and>
       r_status r \<in> {StatusFailed, StatusDeadLettered, StatusCancelled}) (t_jobs d)"

definition dead_descendants :: "string \<Rightarrow> db \<Rightarrow> nat" where
  "dead_descendants root d =
     count_where (\<lambda>r. is_descendant root r \<and> r_status r = StatusDeadLettered) (t_jobs d)"

definition root_outcome :: "string \<Rightarrow> db \<Rightarrow> status" where
  "root_outcome root d =
     (if 0 < dead_descendants root d then StatusDeadLettered
      else if 0 < failed_descendants root d then StatusFailed
      else StatusCompleted)"

text \<open>\<^verbatim>\<open>fmt.Sprintf\<close> with \<^verbatim>\<open>%q\<close> on a printable ASCII identifier, which escapes quotes and
  backslashes.\<close>

fun quote_chars :: "string \<Rightarrow> string" where
  "quote_chars [] = []"
| "quote_chars (c # cs) =
     (if c = CHR 0x22 \<or> c = CHR 0x5C then CHR 0x5C # c # quote_chars cs
      else c # quote_chars cs)"

definition quote :: "string \<Rightarrow> string" where
  "quote s = [CHR 0x22] @ quote_chars s @ [CHR 0x22]"

definition root_summary :: "string \<Rightarrow> db \<Rightarrow> string" where
  "root_summary root d =
     (let packages = count_where (\<lambda>a. ar_root a = root) (t_audit d);
          violations = count_where (\<lambda>a. ar_root a = root \<and> ar_verdict a = ''policy_violation'')
                         (t_audit d)
      in ''{'' @ quote ''auditId'' @ '':'' @ quote root @ '','' @ quote ''packages'' @ '':''
         @ nat_text packages @ '','' @ quote ''violations'' @ '':'' @ nat_text violations
         @ '','' @ quote ''failedChildren'' @ '':'' @ nat_text (failed_descendants root d) @ ''}'')"

definition finalize_row :: "gotime \<Rightarrow> status \<Rightarrow> job_row \<Rightarrow> job_row" where
  "finalize_row now st r =
     r\<lparr>r_status := st, r_completed_at := Some now,
       r_last_error := (if st \<noteq> StatusCompleted then Some ''one or more audit tasks failed'' else None),
       r_last_error_kind := (if st = StatusDeadLettered then Some ErrorTransient
                             else if st = StatusFailed then Some ErrorPermanent else None)\<rparr>"

definition dlq_from_root :: "gotime \<Rightarrow> string \<Rightarrow> db \<Rightarrow> db" where
  "dlq_from_root now root d =
     (case job_by_id d root of
        None \<Rightarrow> d
      | Some r \<Rightarrow> insert_dlq now (r_id r) (r_type r) (r_payload r) (r_attempts r)
                    ''one or more audit tasks exhausted retries'' ErrorTransient
                    (r_root_job_id r) None d)"

definition finalizeRoot :: "externals \<Rightarrow> gotime \<Rightarrow> string \<Rightarrow> db \<Rightarrow> store_error + db" where
  "finalizeRoot ext now root d =
     (if active_descendants root d \<noteq> 0 then Inr d
      else
        let st = root_outcome root d;
            result = root_summary root d;
            p = (\<lambda>r. r_id r = root \<and> r_status r = StatusWaiting);
            d1 = d\<lparr>t_jobs := update_where p (finalize_row now st) (t_jobs d)\<rparr>
        in if count_where p (t_jobs d) = 0 then Inr d1
           else bindE (if st = StatusCompleted then insert_result ext root result d1 else Inr d1) (\<lambda>d2.
                insert_event now root (status_text st) None None NoDetails
                  (if st = StatusDeadLettered then dlq_from_root now root d2 else d2)))"

definition complete_status :: "job \<Rightarrow> handler_result \<Rightarrow> status" where
  "complete_status v res =
     (if Children res \<noteq> [] \<and> ID v = RootJobID v then StatusWaiting else StatusCompleted)"

definition complete_row :: "gotime \<Rightarrow> status \<Rightarrow> job_row \<Rightarrow> job_row" where
  "complete_row now st r =
     (clear_lease r)\<lparr>r_status := st,
        r_completed_at := (if st = StatusCompleted then Some now else None)\<rparr>"

definition Complete ::
    "externals \<Rightarrow> gotime \<Rightarrow> (nat \<Rightarrow> string) \<Rightarrow> job \<Rightarrow> handler_result \<Rightarrow> db \<Rightarrow> store_error + db" where
  "Complete ext now newID v res d =
     (let st = complete_status v res;
          d1 = d\<lparr>t_jobs := update_where (lease_held v) (complete_row now st) (t_jobs d)\<rparr>
      in if count_where (lease_held v) (t_jobs d) \<noteq> 1 then Inl ErrLeaseLost
         else
           let d2 = d1\<lparr>t_attempts := update_where
                   (\<lambda>a. at_job_id a = ID v \<and> at_attempt a = Attempts v
                        \<and> at_lease_token a = LeaseToken v)
                   (\<lambda>a. a\<lparr>at_status := ''completed'', at_finished_at := Some now\<rparr>) (t_attempts d1)\<rparr>
           in bindE (insert_children ext now newID v 0 (Children res) d2) (\<lambda>d3.
              bindE (if Result res \<noteq> [] \<and> Result res \<noteq> ''null'' \<and> st = StatusCompleted
                     then insert_result ext (ID v) (Result res) d3 else Inr d3) (\<lambda>d4.
              bindE (insert_audit_result ext v res d4) (\<lambda>d5.
              bindE (insert_event now (ID v) (status_text st) (Some (Attempts v))
                       (Some (LockedBy v)) NoDetails d5) (\<lambda>d6.
              if st = StatusCompleted \<and> ID v \<noteq> RootJobID v
              then finalizeRoot ext now (RootJobID v) d6 else Inr d6)))))"

section \<open>Failure\<close>

definition boundedError :: "string \<Rightarrow> string" where
  "boundedError message = (if 2048 < length message then take 2048 message else message)"

definition fail_status :: "job \<Rightarrow> error_kind \<Rightarrow> status" where
  "fail_status v kind =
     (case kind of
        ErrorCancelled \<Rightarrow> StatusCancelled
      | ErrorTransient \<Rightarrow>
          if Attempts v < MaxAttempts v then StatusRetryScheduled else StatusDeadLettered
      | ErrorPermanent \<Rightarrow> StatusFailed)"

definition fail_row :: "gotime \<Rightarrow> status \<Rightarrow> gotime \<Rightarrow> error_kind \<Rightarrow> string \<Rightarrow> job_row \<Rightarrow> job_row" where
  "fail_row now st retryAt kind message r =
     (clear_lease r)\<lparr>r_status := st,
        r_scheduled_at := (if st = StatusRetryScheduled then retryAt else r_scheduled_at r),
        r_last_error_kind := Some kind, r_last_error := Some message,
        r_completed_at := (if st \<noteq> StatusRetryScheduled then Some now else None)\<rparr>"

definition Fail ::
    "externals \<Rightarrow> gotime \<Rightarrow> job \<Rightarrow> error_kind \<Rightarrow> string \<Rightarrow> gotime \<Rightarrow> db \<Rightarrow> store_error + db" where
  "Fail ext now v kind msg retryAt d =
     (let message = boundedError msg;
          st = fail_status v kind;
          completed = (st \<noteq> StatusRetryScheduled);
          d1 = d\<lparr>t_jobs := update_where (lease_held v)
                   (fail_row now st retryAt kind message) (t_jobs d)\<rparr>
      in if count_where (lease_held v) (t_jobs d) \<noteq> 1 then Inl ErrLeaseLost
         else
           let d2 = d1\<lparr>t_attempts := update_where
                   (\<lambda>a. at_job_id a = ID v \<and> at_attempt a = Attempts v
                        \<and> at_lease_token a = LeaseToken v)
                   (\<lambda>a. a\<lparr>at_status := status_text st, at_finished_at := Some now,
                          at_error_kind := Some kind, at_error := Some message\<rparr>) (t_attempts d1)\<rparr>
           in bindE (insert_event now (ID v) (status_text st) (Some (Attempts v))
                       (Some (LockedBy v)) (ErrorDetails kind message) d2) (\<lambda>d3.
              bindE (if st = StatusDeadLettered
                     then bindE (jsonValue ext (Payload v)) (\<lambda>payload.
                            Inr (insert_dlq now (ID v) (Type v) payload (Attempts v) message kind
                                   (RootJobID v) (nullif_empty (ParentJobID v)) d3))
                     else Inr d3) (\<lambda>d4.
              if completed \<and> ID v \<noteq> RootJobID v
              then finalizeRoot ext now (RootJobID v) d4 else Inr d4)))"

section \<open>Cancellation\<close>

definition cancel_row :: "gotime \<Rightarrow> job_row \<Rightarrow> job_row" where
  "cancel_row now r = r\<lparr>r_status := StatusCancelled, r_cancel_requested_at := Some now,
     r_completed_at := Some now\<rparr>"

definition request_cancel :: "gotime \<Rightarrow> job_row \<Rightarrow> job_row" where
  "request_cancel now r = r\<lparr>r_cancel_requested_at := Some (coalesce (r_cancel_requested_at r) now)\<rparr>"

text \<open>The updates of the \<open>switch\<close> in \<^verbatim>\<open>Cancel\<close>; None is the default branch.\<close>

definition cancel_updates :: "gotime \<Rightarrow> job_row \<Rightarrow> job_row list \<Rightarrow> job_row list option" where
  "cancel_updates now v rows =
     (case r_status v of
        StatusPending \<Rightarrow> Some (update_where (\<lambda>r. r_id r = r_id v) (cancel_row now) rows)
      | StatusRetryScheduled \<Rightarrow> Some (update_where (\<lambda>r. r_id r = r_id v) (cancel_row now) rows)
      | StatusRunning \<Rightarrow> Some (update_where (\<lambda>r. r_id r = r_id v) (request_cancel now) rows)
      | StatusWaiting \<Rightarrow>
          Some (update_where (\<lambda>r. r_root_job_id r = r_root_job_id v \<and> r_status r = StatusRunning)
                  (request_cancel now)
                 (update_where (\<lambda>r. r_root_job_id r = r_root_job_id v \<and>
                      r_status r \<in> {StatusPending, StatusRetryScheduled, StatusWaiting})
                    (cancel_row now) rows))
      | _ \<Rightarrow> None)"

definition Cancel :: "gotime \<Rightarrow> string \<Rightarrow> db \<Rightarrow> store_error + job \<times> db" where
  "Cancel now i d =
     (case job_by_id d i of
        None \<Rightarrow> Inl ErrNotFound
      | Some v \<Rightarrow>
          if r_status v = StatusCancelled then Inr (scanServiceJob v, d)
          else (case cancel_updates now v (t_jobs d) of
              None \<Rightarrow> Inl ErrConflict
            | Some rows \<Rightarrow>
                (let d1 = d\<lparr>t_jobs := rows\<rparr>;
                     cancelledNow = (r_status v \<noteq> StatusRunning)
                 in bindE (insert_event now i ''cancellation_requested'' None None NoDetails d1) (\<lambda>d2.
                    bindE (if cancelledNow
                           then insert_event now i ''cancelled'' None None NoDetails d2
                           else Inr d2) (\<lambda>d3.
                    case job_by_id d3 i of
                      None \<Rightarrow> Inl ErrSQL
                    | Some r \<Rightarrow> Inr (scanServiceJob r, d3))))))"

section \<open>Retry and replay\<close>

definition empty_submission :: submission where
  "empty_submission = \<lparr>SubType = [], SubPayload = [], SubMaxAttempts = 0, SubIdempotencyKey = [],
     SubRequestHash = [], SubRootJobID = [], SubParentJobID = [], SubInternal = False,
     SubRetriedFromJobID = [], SubReplayedFromJobID = []\<rparr>"

definition Retry ::
    "externals \<Rightarrow> gotime \<Rightarrow> string \<Rightarrow> string \<Rightarrow> int \<Rightarrow> db \<Rightarrow> store_error + job \<times> db" where
  "Retry ext now newID i maxAttempts d =
     (case job_by_id d i of
        None \<Rightarrow> Inl ErrNotFound
      | Some r \<Rightarrow>
          (let j = scanServiceJob r
           in if Status j \<noteq> StatusFailed \<and> Status j \<noteq> StatusDeadLettered then Inl ErrConflict
              else bindE (Submit ext now newID
                     (empty_submission\<lparr>SubType := Type j, SubPayload := Payload j,
                        SubMaxAttempts := (if maxAttempts = 0 then MaxAttempts j else maxAttempts),
                        SubRetriedFromJobID := ID j\<rparr>) d) (\<lambda>(value, created, d').
                   Inr (value, d'))))"

definition ReplayDLQ ::
    "externals \<Rightarrow> gotime \<Rightarrow> string \<Rightarrow> int \<Rightarrow> int \<Rightarrow> db \<Rightarrow> store_error + job \<times> db" where
  "ReplayDLQ ext now newID entryID maxAttempts d =
     (case find (\<lambda>e. dl_id e = entryID \<and>
              list_ex (\<lambda>j. r_id j = dl_job_id e \<and> \<not> r_internal j) (t_jobs d)) (t_dlq d) of
        None \<Rightarrow> Inl ErrNotFound
      | Some source \<Rightarrow>
          if coalesce (dl_replayed_as source) [] \<noteq> [] then Inl ErrConflict
          else
            let attempts = (if maxAttempts = 0 then DefaultMaxAttempts else maxAttempts)
            in bindE (jsonValue ext (coalesce (dl_payload source) [])) (\<lambda>payload.
               let row = (new_row now newID (dl_job_type source) payload attempts newID)
                           \<lparr>r_replayed_from := Some (dl_job_id source)\<rparr>
               in bindE (insert_job row d) (\<lambda>d1.
                  let d2 = d1\<lparr>t_dlq := update_where (\<lambda>e. dl_id e = entryID)
                             (\<lambda>e. e\<lparr>dl_replayed_at := Some now, dl_replayed_as := Some newID\<rparr>)
                             (t_dlq d1)\<rparr>
                  in bindE (insert_event now newID ''submitted'' None None NoDetails d2) (\<lambda>d3.
                     bindE (insert_event now newID ''replayed'' None None
                              (SourceJob (dl_job_id source)) d3) (\<lambda>d4.
                     Inr (scanServiceJob row, d4))))))"

section \<open>Recovery of expired leases\<close>

definition expired :: "gotime \<Rightarrow> job_row \<Rightarrow> bool" where
  "expired now r \<longleftrightarrow> r_status r = StatusRunning \<and>
     (case r_locked_until r of None \<Rightarrow> False | Some t \<Rightarrow> t < now)"

definition reclaim_status :: "job \<Rightarrow> status" where
  "reclaim_status v =
     (if CancelRequestedAt v \<noteq> None then StatusCancelled
      else if MaxAttempts v \<le> Attempts v then StatusDeadLettered
      else StatusPending)"

definition reclaim_row :: "gotime \<Rightarrow> status \<Rightarrow> job_row \<Rightarrow> job_row" where
  "reclaim_row now st r =
     (clear_lease r)\<lparr>r_status := st, r_last_error_kind := Some ErrorTransient,
        r_last_error := Some ''worker lease expired'',
        r_completed_at := (if terminal st then Some now else None)\<rparr>"

definition reclaim_one :: "externals \<Rightarrow> gotime \<Rightarrow> job \<Rightarrow> db \<Rightarrow> store_error + db" where
  "reclaim_one ext now v d =
     (let st = reclaim_status v;
          d1 = d\<lparr>t_jobs := update_where (\<lambda>r. r_id r = ID v) (reclaim_row now st) (t_jobs d)\<rparr>;
          d2 = d1\<lparr>t_attempts := update_where
                  (\<lambda>a. at_job_id a = ID v \<and> at_attempt a = Attempts v)
                  (\<lambda>a. a\<lparr>at_status := ''abandoned'', at_finished_at := Some now,
                         at_error_kind := Some ErrorTransient,
                         at_error := Some ''worker lease expired''\<rparr>) (t_attempts d1)\<rparr>
      in bindE (insert_event now (ID v) ''lease_expired'' (Some (Attempts v))
                  (Some (LockedBy v)) NoDetails d2) (\<lambda>d3.
         bindE (if st = StatusDeadLettered
                then bindE (jsonValue ext (Payload v)) (\<lambda>payload.
                       Inr (insert_dlq now (ID v) (Type v) payload (Attempts v)
                              ''worker lease expired'' ErrorTransient (RootJobID v)
                              (nullif_empty (ParentJobID v)) d3))
                else Inr d3) (\<lambda>d4.
         if terminal st \<and> ID v \<noteq> RootJobID v
         then finalizeRoot ext now (RootJobID v) d4 else Inr d4)))"

definition ReclaimExpired ::
    "externals \<Rightarrow> gotime \<Rightarrow> (string \<Rightarrow> bool) \<Rightarrow> db \<Rightarrow> store_error + nat \<times> db" where
  "ReclaimExpired ext now locked d =
     (let found = map scanServiceJob
                    (filter (\<lambda>r. expired now r \<and> \<not> locked (r_id r)) (t_jobs d))
      in bindE (foldE (reclaim_one ext now) found d) (\<lambda>d'. Inr (length found, d')))"

end
