(* ===== verification/Store_Rows.thy ===== *)
theory Store_Rows
  imports Job_Store
begin

text \<open>
  What one statement of the store may do to one row of the \<^verbatim>\<open>jobs\<close> table
  (\<open>row_ok\<close>, \<open>job_edge\<close>), how a whole transaction changes the table (\<open>evolves\<close>:
  every old row follows a path of such edges, every added row starts as a fresh
  submission), and the frame lemmas that say which tables a statement leaves alone.
\<close>

section \<open>Well-formed rows\<close>

definition row_ok :: "job_row \<Rightarrow> bool" where
  "row_ok r \<longleftrightarrow>
     (r_locked_by r \<noteq> None \<longleftrightarrow> r_status r = StatusRunning) \<and>
     (r_lease_token r \<noteq> None \<longleftrightarrow> r_status r = StatusRunning) \<and>
     (r_locked_until r \<noteq> None \<longleftrightarrow> r_status r = StatusRunning) \<and>
     (r_heartbeat_at r \<noteq> None \<longleftrightarrow> r_status r = StatusRunning) \<and>
     (r_completed_at r \<noteq> None \<longleftrightarrow> terminal (r_status r)) \<and>
     1 \<le> r_max_attempts r \<and> 0 \<le> r_attempts r \<and> r_attempts r \<le> r_max_attempts r \<and>
     (r_status r \<in> {StatusPending, StatusRetryScheduled} \<longrightarrow> r_attempts r < r_max_attempts r) \<and>
     (r_status r = StatusWaiting \<longrightarrow> r_id r = r_root_job_id r)"

text \<open>A row as a submission inserts it.\<close>

definition fresh_row :: "job_row \<Rightarrow> bool" where
  "fresh_row r \<longleftrightarrow> row_ok r \<and> r_status r = StatusPending \<and> r_attempts r = 0"

text \<open>The columns no statement changes after the insert.\<close>

definition same_job :: "job_row \<Rightarrow> job_row \<Rightarrow> bool" where
  "same_job r r' \<longleftrightarrow>
     r_id r' = r_id r \<and> r_type r' = r_type r \<and> r_payload r' = r_payload r \<and>
     r_max_attempts r' = r_max_attempts r \<and> r_created_at r' = r_created_at r \<and>
     r_root_job_id r' = r_root_job_id r \<and> r_parent_job_id r' = r_parent_job_id r \<and>
     r_internal r' = r_internal r \<and> r_idempotency_key r' = r_idempotency_key r \<and>
     r_request_hash r' = r_request_hash r \<and> r_retried_from r' = r_retried_from r \<and>
     r_replayed_from r' = r_replayed_from r"

text \<open>One update of a row other than a claim: it starts from a non-terminal row, follows
  the transition table of the contract, keeps the row well-formed, keeps the attempt
  count, and keeps the lease or gives it up.\<close>

definition job_edge :: "job_row \<Rightarrow> job_row \<Rightarrow> bool" where
  "job_edge r r' \<longleftrightarrow> same_job r r' \<and> \<not> terminal (r_status r) \<and>
     (r_status r' = r_status r \<or> valid_transition (r_status r) (r_status r')) \<and>
     r_attempts r' = r_attempts r \<and>
     ((r_locked_by r' = r_locked_by r \<and> r_lease_token r' = r_lease_token r)
        \<or> r_lease_token r' = None) \<and>
     (row_ok r \<longrightarrow> row_ok r')"

definition claim_edge :: "string \<Rightarrow> job_row \<Rightarrow> job_row \<Rightarrow> bool" where
  "claim_edge token r r' \<longleftrightarrow> same_job r r' \<and> \<not> terminal (r_status r) \<and>
     valid_transition (r_status r) (r_status r') \<and> r_status r' = StatusRunning \<and>
     r_attempts r' = r_attempts r + 1 \<and> r_lease_token r' = Some token \<and>
     (row_ok r \<longrightarrow> row_ok r')"

lemma same_job_refl [simp]: "same_job r r"
  by (simp add: same_job_def)

lemma same_job_trans: "same_job a b \<Longrightarrow> same_job b c \<Longrightarrow> same_job a c"
  by (simp add: same_job_def)

lemma same_jobD:
  assumes "same_job r r'"
  shows "r_id r' = r_id r" "r_root_job_id r' = r_root_job_id r"
    "r_max_attempts r' = r_max_attempts r" "r_idempotency_key r' = r_idempotency_key r"
    "r_type r' = r_type r" "r_payload r' = r_payload r"
  using assms by (simp_all add: same_job_def)

subsection \<open>The row functions of the store are edges\<close>

lemma claim_row_edge:
  "claimable now r \<Longrightarrow> claim_edge token r (claim_row now lease w token r)"
  by (cases "r_status r")
    (auto simp: claimable_def claim_edge_def claim_row_def same_job_def row_ok_def)

lemma heartbeat_edge:
  "r_status r = StatusRunning \<Longrightarrow>
   job_edge r (r\<lparr>r_locked_until := Some t, r_heartbeat_at := Some u\<rparr>)"
  by (auto simp: job_edge_def same_job_def row_ok_def)

lemma complete_row_edge:
  "r_status r = StatusRunning \<Longrightarrow> st = StatusCompleted \<or> (st = StatusWaiting \<and> r_id r = r_root_job_id r)
   \<Longrightarrow> job_edge r (complete_row now st r)"
  by (auto simp: job_edge_def same_job_def row_ok_def complete_row_def clear_lease_def)

lemma fail_row_edge:
  assumes "r_status r = StatusRunning" and "r_attempts r = Attempts v" and "r_max_attempts r = MaxAttempts v"
  shows "job_edge r (fail_row now (fail_status v kind) retryAt kind msg r)"
  using assms
  by (cases kind)
    (auto simp: job_edge_def same_job_def row_ok_def fail_row_def fail_status_def clear_lease_def)

lemma reclaim_row_edge:
  assumes "r_status r = StatusRunning" and "scanServiceJob r = v"
  shows "job_edge r (reclaim_row now (reclaim_status v) r)"
  using assms
  by (auto simp: job_edge_def same_job_def row_ok_def reclaim_row_def reclaim_status_def
      clear_lease_def scanServiceJob_def)

lemma finalize_row_edge:
  "r_status r = StatusWaiting \<Longrightarrow> st \<in> {StatusCompleted, StatusFailed, StatusDeadLettered} \<Longrightarrow>
   job_edge r (finalize_row now st r)"
  by (auto simp: job_edge_def same_job_def row_ok_def finalize_row_def)

lemma cancel_row_edge:
  "r_status r \<in> {StatusPending, StatusRetryScheduled, StatusWaiting} \<Longrightarrow> job_edge r (cancel_row now r)"
  by (auto simp: job_edge_def same_job_def row_ok_def cancel_row_def)

lemma request_cancel_edge:
  "r_status r = StatusRunning \<Longrightarrow> job_edge r (request_cancel now r)"
  by (auto simp: job_edge_def same_job_def row_ok_def request_cancel_def)

lemma new_row_fresh:
  "1 \<le> m \<Longrightarrow> fresh_row (new_row now i ty payload m root)"
  by (auto simp: fresh_row_def row_ok_def new_row_def)

lemma fresh_row_update [simp]:
  "fresh_row (r\<lparr>r_parent_job_id := a\<rparr>) = fresh_row r"
  "fresh_row (r\<lparr>r_internal := b\<rparr>) = fresh_row r"
  "fresh_row (r\<lparr>r_idempotency_key := c\<rparr>) = fresh_row r"
  "fresh_row (r\<lparr>r_request_hash := e\<rparr>) = fresh_row r"
  "fresh_row (r\<lparr>r_retried_from := f\<rparr>) = fresh_row r"
  "fresh_row (r\<lparr>r_replayed_from := h\<rparr>) = fresh_row r"
  by (auto simp: fresh_row_def row_ok_def)

lemma root_outcome_cases:
  "root_outcome root d \<in> {StatusCompleted, StatusFailed, StatusDeadLettered}"
  by (simp add: root_outcome_def)

lemmas row_edges = heartbeat_edge complete_row_edge fail_row_edge reclaim_row_edge
  finalize_row_edge cancel_row_edge request_cancel_edge

subsection \<open>Paths of edges\<close>

lemma job_path_same_job: "job_edge\<^sup>*\<^sup>* r r' \<Longrightarrow> same_job r r'"
  by (induction rule: rtranclp_induct) (auto simp: job_edge_def intro: same_job_trans)

lemma job_path_row_ok: "job_edge\<^sup>*\<^sup>* r r' \<Longrightarrow> row_ok r \<Longrightarrow> row_ok r'"
  by (induction rule: rtranclp_induct) (auto simp: job_edge_def)

lemma job_path_attempts: "job_edge\<^sup>*\<^sup>* r r' \<Longrightarrow> r_attempts r' = r_attempts r"
  by (induction rule: rtranclp_induct) (auto simp: job_edge_def)

lemma job_path_terminal: "job_edge\<^sup>*\<^sup>* r r' \<Longrightarrow> terminal (r_status r) \<Longrightarrow> r' = r"
  by (induction rule: converse_rtranclp_induct) (auto simp: job_edge_def)

lemma job_path_lease:
  "job_edge\<^sup>*\<^sup>* r r' \<Longrightarrow>
   (r_locked_by r' = r_locked_by r \<and> r_lease_token r' = r_lease_token r) \<or> r_lease_token r' = None"
  by (induction rule: rtranclp_induct) (auto simp: job_edge_def)

lemma job_path_transitions:
  "job_edge\<^sup>*\<^sup>* r r' \<Longrightarrow> valid_transition\<^sup>*\<^sup>* (r_status r) (r_status r')"
proof (induction rule: rtranclp_induct)
  case (step y z)
  then have "r_status z = r_status y \<or> valid_transition (r_status y) (r_status z)"
    by (simp add: job_edge_def)
  with step.IH show ?case by (auto intro: rtranclp.rtrancl_into_rtrancl)
qed simp

lemmas job_pathD = job_path_same_job job_path_row_ok job_path_attempts job_path_terminal
  job_path_lease job_path_transitions

section \<open>How a transaction changes the jobs table\<close>

definition evolves :: "db \<Rightarrow> db \<Rightarrow> bool" where
  "evolves d d' \<longleftrightarrow>
     (\<exists>g news. t_jobs d' = map g (t_jobs d) @ news \<and>
        (\<forall>r\<in>set (t_jobs d). job_edge\<^sup>*\<^sup>* r (g r)) \<and>
        (\<forall>r\<in>set news. \<exists>r0. fresh_row r0 \<and> job_edge\<^sup>*\<^sup>* r0 r))"

lemma evolves_same: "t_jobs d' = t_jobs d \<Longrightarrow> evolves d d'"
  unfolding evolves_def by (rule exI [of _ id], rule exI [of _ "[]"]) simp

lemma evolves_update:
  assumes "t_jobs d' = update_where p f (t_jobs d)"
    and "\<And>r. r \<in> set (t_jobs d) \<Longrightarrow> p r \<Longrightarrow> job_edge r (f r)"
  shows "evolves d d'"
  unfolding evolves_def
  by (rule exI [of _ "\<lambda>r. if p r then f r else r"], rule exI [of _ "[]"])
    (use assms in \<open>auto simp: update_where_def\<close>)

lemma evolves_insert:
  assumes "t_jobs d' = t_jobs d @ news" and "\<And>r. r \<in> set news \<Longrightarrow> fresh_row r"
  shows "evolves d d'"
  unfolding evolves_def
  by (rule exI [of _ id], rule exI [of _ news]) (use assms in auto)

lemma evolves_trans:
  assumes "evolves a b" and "evolves b c"
  shows "evolves a c"
proof -
  from assms(1) obtain g n where 1: "t_jobs b = map g (t_jobs a) @ n"
      "\<forall>r\<in>set (t_jobs a). job_edge\<^sup>*\<^sup>* r (g r)"
      "\<forall>r\<in>set n. \<exists>r0. fresh_row r0 \<and> job_edge\<^sup>*\<^sup>* r0 r"
    by (auto simp: evolves_def)
  from assms(2) obtain h m where 2: "t_jobs c = map h (t_jobs b) @ m"
      "\<forall>r\<in>set (t_jobs b). job_edge\<^sup>*\<^sup>* r (h r)"
      "\<forall>r\<in>set m. \<exists>r0. fresh_row r0 \<and> job_edge\<^sup>*\<^sup>* r0 r"
    by (auto simp: evolves_def)
  have "t_jobs c = map (h \<circ> g) (t_jobs a) @ (map h n @ m)"
    using 1(1) 2(1) by simp
  moreover have "\<forall>r\<in>set (t_jobs a). job_edge\<^sup>*\<^sup>* r ((h \<circ> g) r)"
    using 1 2(2) by (auto intro: rtranclp_trans)
  moreover have "\<forall>r\<in>set (map h n @ m). \<exists>r0. fresh_row r0 \<and> job_edge\<^sup>*\<^sup>* r0 r"
    using 1 2 by (auto intro: rtranclp_trans) (meson UnI2 rtranclp_trans)
  ultimately show ?thesis
    unfolding evolves_def by blast
qed

lemma evolves_row:
  "evolves d d' \<Longrightarrow> r \<in> set (t_jobs d) \<Longrightarrow> \<exists>r'\<in>set (t_jobs d'). job_edge\<^sup>*\<^sup>* r r'"
  by (auto simp: evolves_def)

lemma evolves_origin:
  "evolves d d' \<Longrightarrow> r' \<in> set (t_jobs d') \<Longrightarrow>
   (\<exists>r\<in>set (t_jobs d). job_edge\<^sup>*\<^sup>* r r') \<or> (\<exists>r0. fresh_row r0 \<and> job_edge\<^sup>*\<^sup>* r0 r')"
  by (fastforce simp: evolves_def)

lemma evolves_rows_ok:
  assumes "evolves d d'" and "\<forall>r\<in>set (t_jobs d). row_ok r"
  shows "\<forall>r\<in>set (t_jobs d'). row_ok r"
proof
  fix r' assume "r' \<in> set (t_jobs d')"
  from evolves_origin [OF assms(1) this] assms(2) show "row_ok r'"
    by (auto simp: fresh_row_def intro: job_path_row_ok)
qed

lemma evolves_terminal:
  "evolves d d' \<Longrightarrow> r \<in> set (t_jobs d) \<Longrightarrow> terminal (r_status r) \<Longrightarrow> r \<in> set (t_jobs d')"
  by (metis evolves_row job_path_terminal)

end
