(* ===== verification/Store_Effects.thy ===== *)
theory Store_Effects
  imports Store_Rows
begin

text \<open>
  The effect of every operation of the store on the \<^verbatim>\<open>jobs\<close> table, as an equation or as
  \<open>evolves\<close>, and that primary keys and idempotency keys stay unique.
\<close>

section \<open>Frame conditions\<close>

lemma insert_event_frame:
  assumes "insert_event now i ty att wk det d = Inr d'"
  shows "t_jobs d' = t_jobs d" "t_attempts d' = t_attempts d" "t_results d' = t_results d"
    "t_dlq d' = t_dlq d" "t_audit d' = t_audit d" "t_relationships d' = t_relationships d"
    "t_workers d' = t_workers d" "seq_dlq d' = seq_dlq d"
  using assms by (auto simp: insert_event_def bindE_simps)

lemma insert_attempt_frame:
  assumes "insert_attempt now i n wk tok d = Inr d'"
  shows "t_jobs d' = t_jobs d" "t_results d' = t_results d" "t_dlq d' = t_dlq d"
    "t_events d' = t_events d"
  using assms by (auto simp: insert_attempt_def bindE_simps)

lemma insert_result_frame:
  assumes "insert_result ext i res d = Inr d'"
  shows "t_jobs d' = t_jobs d" "t_attempts d' = t_attempts d" "t_dlq d' = t_dlq d"
    "t_events d' = t_events d"
  using assms by (auto simp: insert_result_def bindE_simps split: option.splits if_splits)

lemma insert_dlq_frame [simp]:
  "t_jobs (insert_dlq now i ty p att err k root parent d) = t_jobs d"
  "t_attempts (insert_dlq now i ty p att err k root parent d) = t_attempts d"
  "t_results (insert_dlq now i ty p att err k root parent d) = t_results d"
  "t_events (insert_dlq now i ty p att err k root parent d) = t_events d"
  by (simp_all add: insert_dlq_def)

lemma dlq_from_root_frame [simp]:
  "t_jobs (dlq_from_root now root d) = t_jobs d"
  "t_attempts (dlq_from_root now root d) = t_attempts d"
  "t_results (dlq_from_root now root d) = t_results d"
  "t_events (dlq_from_root now root d) = t_events d"
  by (auto simp: dlq_from_root_def split: option.splits)

lemma insertAuditRelationship_frame:
  assumes "insertAuditRelationship ext c d = Inr d'"
  shows "t_jobs d' = t_jobs d" "t_attempts d' = t_attempts d" "t_results d' = t_results d"
    "t_dlq d' = t_dlq d" "t_events d' = t_events d"
  using assms
  by (auto simp: insertAuditRelationship_def bindE_simps Let_def split: option.splits if_splits)

lemma insert_audit_result_frame:
  assumes "insert_audit_result ext v res d = Inr d'"
  shows "t_jobs d' = t_jobs d" "t_attempts d' = t_attempts d" "t_results d' = t_results d"
    "t_dlq d' = t_dlq d" "t_events d' = t_events d"
  using assms
  by (auto simp: insert_audit_result_def bindE_simps Let_def split: option.splits if_splits)

lemma insert_job_frame:
  assumes "insert_job r d = Inr d'"
  shows "t_jobs d' = t_jobs d @ [r]" "\<not> has_job d (r_id r)" "t_attempts d' = t_attempts d"
    "t_results d' = t_results d" "t_dlq d' = t_dlq d" "t_events d' = t_events d"
  using assms by (auto simp: insert_job_def bindE_simps)

lemma has_job_iff: "has_job d i \<longleftrightarrow> i \<in> r_id ` set (t_jobs d)"
  by (auto simp: has_job_def list_ex_iff)

lemma has_key_iff: "has_key d k \<longleftrightarrow> Some k \<in> r_idempotency_key ` set (t_jobs d)"
  by (force simp: has_key_def list_ex_iff)

lemma job_by_id_SomeD: "job_by_id d i = Some r \<Longrightarrow> r \<in> set (t_jobs d) \<and> r_id r = i"
  by (auto simp: job_by_id_def dest: find_Some_in)

section \<open>Unique keys\<close>

definition keys_of :: "job_row list \<Rightarrow> string list" where
  "keys_of rows = List.map_filter r_idempotency_key rows"

definition unique_keys :: "db \<Rightarrow> bool" where
  "unique_keys d \<longleftrightarrow> distinct (map r_id (t_jobs d)) \<and> distinct (keys_of (t_jobs d))"

lemma keys_of_append [simp]: "keys_of (xs @ ys) = keys_of xs @ keys_of ys"
  by (simp add: keys_of_def map_filter_def)

lemma keys_of_single [simp]:
  "keys_of [r] = (case r_idempotency_key r of None \<Rightarrow> [] | Some k \<Rightarrow> [k])"
  by (simp add: keys_of_def map_filter_def split: option.splits)

lemma set_keys_of: "set (keys_of rows) = {k. Some k \<in> r_idempotency_key ` set rows}"
proof (induction rows)
  case (Cons r rows)
  then show ?case
    by (cases "r_idempotency_key r") (auto simp: keys_of_def map_filter_def)
qed (simp add: keys_of_def map_filter_def)

lemma keys_of_eqI: "map r_idempotency_key xs = map r_idempotency_key ys \<Longrightarrow> keys_of xs = keys_of ys"
proof (induction xs arbitrary: ys)
  case (Cons x xs)
  then obtain y zs where "ys = y # zs" by (cases ys) auto
  with Cons show ?case by (auto simp: keys_of_def map_filter_def)
qed (simp add: keys_of_def map_filter_def)

lemma unique_keys_same: "t_jobs d' = t_jobs d \<Longrightarrow> unique_keys d' = unique_keys d"
  by (simp add: unique_keys_def)

lemma unique_keys_update:
  assumes "t_jobs d' = update_where p f (t_jobs d)"
    and "\<And>r. r \<in> set (t_jobs d) \<Longrightarrow> p r \<Longrightarrow> same_job r (f r)"
  shows "unique_keys d' = unique_keys d"
proof -
  have "map r_id (t_jobs d') = map r_id (t_jobs d)"
    "map r_idempotency_key (t_jobs d') = map r_idempotency_key (t_jobs d)"
    using assms by (auto simp: same_job_def intro!: map_update_where)
  then show ?thesis by (metis unique_keys_def keys_of_eqI)
qed

lemma unique_keys_insert:
  assumes "insert_job r d = Inr d'" and "unique_keys d"
    and "\<And>k. r_idempotency_key r = Some k \<Longrightarrow> \<not> has_key d k"
  shows "unique_keys d'"
proof -
  note rows = insert_job_frame [OF assms(1)]
  have "k \<notin> set (keys_of (t_jobs d))" if "r_idempotency_key r = Some k" for k
    using assms(3) [OF that] by (simp add: set_keys_of has_key_iff)
  then show ?thesis
    using assms(2) rows(2) unfolding unique_keys_def rows(1) keys_of_append
    by (cases "r_idempotency_key r") (simp_all add: has_job_iff)
qed

section \<open>Finalising the root\<close>

definition waiting_row :: "string \<Rightarrow> job_row \<Rightarrow> bool" where
  "waiting_row root r \<longleftrightarrow> r_id r = root \<and> r_status r = StatusWaiting"

definition finalized_rows :: "gotime \<Rightarrow> string \<Rightarrow> db \<Rightarrow> job_row list" where
  "finalized_rows now root d =
     (if active_descendants root d = 0
      then update_where (waiting_row root) (finalize_row now (root_outcome root d)) (t_jobs d)
      else t_jobs d)"

lemma finalizeRoot_jobs:
  "finalizeRoot ext now root d = Inr d' \<Longrightarrow> t_jobs d' = finalized_rows now root d"
  by (auto simp: finalizeRoot_def finalized_rows_def waiting_row_def [abs_def] Let_def bindE_simps
      insert_event_frame insert_result_frame split: if_splits)

lemma finalizeRoot_attempts:
  "finalizeRoot ext now root d = Inr d' \<Longrightarrow> t_attempts d' = t_attempts d"
  by (auto simp: finalizeRoot_def Let_def bindE_simps insert_event_frame insert_result_frame
      split: if_splits)

lemma finalizeRoot_evolves:
  assumes "finalizeRoot ext now root d = Inr d'"
  shows "evolves d d'"
proof (cases "active_descendants root d = 0")
  case True
  then show ?thesis
    using finalizeRoot_jobs [OF assms]
    by (intro evolves_update [where p = "waiting_row root"
          and f = "finalize_row now (root_outcome root d)"])
      (auto simp: finalized_rows_def waiting_row_def
        intro: finalize_row_edge [OF _ root_outcome_cases])
next
  case False
  then show ?thesis
    using finalizeRoot_jobs [OF assms] by (intro evolves_same) (simp add: finalized_rows_def)
qed

lemma finalizeRoot_unique_keys:
  assumes "finalizeRoot ext now root d = Inr d'"
  shows "unique_keys d' = unique_keys d"
proof (cases "active_descendants root d = 0")
  case True
  then show ?thesis
    using finalizeRoot_jobs [OF assms]
    by (intro unique_keys_update [where p = "waiting_row root"
          and f = "finalize_row now (root_outcome root d)"])
      (simp_all add: finalized_rows_def finalize_row_def same_job_def)
next
  case False
  then show ?thesis
    using finalizeRoot_jobs [OF assms] by (intro unique_keys_same) (simp add: finalized_rows_def)
qed

lemma finalizeRoot_keeps:
  assumes "finalizeRoot ext now root d = Inr d'" and "r \<in> set (t_jobs d)"
    and "r_status r \<noteq> StatusWaiting"
  shows "r \<in> set (t_jobs d')"
  using assms(2,3) finalizeRoot_jobs [OF assms(1)]
  by (auto simp: finalized_rows_def set_update_where waiting_row_def)

section \<open>Submission and claims\<close>

lemma default_attempts_pos: "0 \<le> SubMaxAttempts s \<Longrightarrow> 1 \<le> SubMaxAttempts (default_attempts s)"
  by (simp add: default_attempts_def DefaultMaxAttempts_def)

lemma default_attempts_simps [simp]:
  "SubType (default_attempts s) = SubType s"
  "SubPayload (default_attempts s) = SubPayload s"
  "SubIdempotencyKey (default_attempts s) = SubIdempotencyKey s"
  "SubRootJobID (default_attempts s) = SubRootJobID s"
  "SubParentJobID (default_attempts s) = SubParentJobID s"
  "SubInternal (default_attempts s) = SubInternal s"
  by (simp_all add: default_attempts_def)

lemma submission_row_fresh:
  "0 \<le> SubMaxAttempts s \<Longrightarrow> fresh_row (submission_row ext now newID payload (default_attempts s))"
  by (simp add: submission_row_def new_row_fresh default_attempts_pos)

text \<open>A submission either finds its idempotency key, or appends one fresh row.\<close>

lemma Submit_cases:
  assumes "Submit ext now newID sub d = Inr (j, created, d')"
  obtains
    (existing) row where "d' = d" "\<not> created" "row \<in> set (t_jobs d)" "j = scanServiceJob row"
      "SubIdempotencyKey sub \<noteq> []" "r_idempotency_key row = Some (SubIdempotencyKey sub)"
  | (inserted) row d1 where "created" "j = scanServiceJob row" "insert_job row d = Inr d1"
      "insert_event now newID ''submitted'' None None NoDetails d1 = Inr d'"
      "r_id row = newID" "0 \<le> SubMaxAttempts sub \<longrightarrow> fresh_row row"
      "r_root_job_id row = (if SubRootJobID sub = [] then newID else SubRootJobID sub)"
      "\<And>k. r_idempotency_key row = Some k \<Longrightarrow> \<not> has_key d k"
proof (cases "find (\<lambda>r. SubIdempotencyKey sub \<noteq> []
                      \<and> r_idempotency_key r = Some (SubIdempotencyKey sub)) (t_jobs d)")
  case (Some row)
  then show ?thesis
    using assms find_Some_in [OF Some]
    by (auto simp: Submit_def Let_def bindE_simps intro: existing split: if_splits)
next
  case None
  then have nokey: "SubIdempotencyKey sub = [] \<or> \<not> has_key d (SubIdempotencyKey sub)"
    by (force simp: find_None_all has_key_iff)
  let ?row = "\<lambda>payload. submission_row ext now newID payload (default_attempts sub)"
  from assms None obtain payload d1 where "created"
    and d1: "insert_job (?row payload) d = Inr d1"
    and e: "insert_event now newID ''submitted'' None None NoDetails d1 = Inr d'"
    and j: "j = scanServiceJob (?row payload)"
    by (auto simp: Submit_def Let_def bindE_simps)
  show ?thesis
  proof (rule inserted [OF \<open>created\<close> j d1 e])
    show "0 \<le> SubMaxAttempts sub \<longrightarrow> fresh_row (?row payload)"
      by (simp add: submission_row_fresh)
    show "\<not> has_key d k" if "r_idempotency_key (?row payload) = Some k" for k
      using that nokey by (auto simp: nullif_empty_def submission_row_def split: if_splits)
  qed (simp_all add: submission_row_def new_row_def)
qed

lemma Submit_evolves:
  assumes "Submit ext now newID sub d = Inr (j, created, d')" and "0 \<le> SubMaxAttempts sub"
  shows "evolves d d'"
  using assms(1)
proof (cases rule: Submit_cases)
  case (inserted row d1)
  then show ?thesis
    using assms(2) insert_event_frame(1) [OF inserted(4)] insert_job_frame(1) [OF inserted(3)]
    by (intro evolves_insert [where news = "[row]"]) simp_all
qed (simp add: evolves_same)

lemma Submit_unique_keys:
  assumes "Submit ext now newID sub d = Inr (j, created, d')" and "unique_keys d"
  shows "unique_keys d'"
  using assms(1)
proof (cases rule: Submit_cases)
  case (inserted row d1)
  have "unique_keys d1"
    using unique_keys_insert [OF inserted(3) assms(2) inserted(8)] .
  then show ?thesis
    using unique_keys_same [OF insert_event_frame(1) [OF inserted(4)]] by simp
qed (use assms(2) in simp)

lemma Claim_cases:
  assumes "Claim now locked w lease token d = Inr (res, d')"
  obtains
    (nothing) "res = None" "d' = d" "next_claim now locked d = None"
  | (claimed) row where "next_claim now locked d = Some row"
      "res = Some (scanServiceJob (claim_row now lease w token row))"
      "t_jobs d' = update_where (\<lambda>r. r_id r = r_id row) (claim_row now lease w token) (t_jobs d)"
      "t_dlq d' = t_dlq d" "t_results d' = t_results d"
      "t_attempts d' = t_attempts d @ [\<lparr>at_job_id = r_id row, at_attempt = r_attempts row + 1,
          at_worker_id = w, at_lease_token = token, at_status = ''running'',
          at_started_at = now, at_finished_at = None, at_error_kind = None, at_error = None\<rparr>]"
proof (cases "next_claim now locked d")
  case None
  with assms have "res = None" "d' = d" by (auto simp: Claim_def)
  then show ?thesis using None by (rule nothing)
next
  case (Some row)
  with assms obtain d2 where
    a: "insert_attempt now (r_id row) (r_attempts row + 1) w token
          (d\<lparr>t_jobs := update_where (\<lambda>r. r_id r = r_id row) (claim_row now lease w token) (t_jobs d)\<rparr>)
        = Inr d2"
    and e: "insert_event now (r_id row) ''started'' (Some (r_attempts row + 1)) (Some w) NoDetails d2
        = Inr d'"
    and r: "res = Some (scanServiceJob (claim_row now lease w token row))"
    by (auto simp: Claim_def Let_def bindE_simps claim_row_def)
  show ?thesis
    by (rule claimed [OF Some r])
      (use a in \<open>auto simp: insert_event_frame [OF e] insert_attempt_def bindE_simps\<close>)
qed

lemma next_claim_SomeD:
  assumes "next_claim now locked d = Some row"
  shows "row \<in> set (t_jobs d)" "claimable now row" "\<not> locked (r_id row)"
  using least_by_in [OF assms [unfolded next_claim_def]] by auto

section \<open>Completion, failure and recovery\<close>

lemma insertSubmission_cases:
  assumes "insertSubmission ext now newID c d = Inr d'"
  obtains
    (existing) "d' = d" "has_key d (SubIdempotencyKey c)"
  | (inserted) row where "insert_job row d = Inr d'" "r_id row = newID"
      "0 \<le> SubMaxAttempts c \<longrightarrow> fresh_row row" "r_root_job_id row = SubRootJobID c"
      "r_idempotency_key row = Some (SubIdempotencyKey c)" "\<not> has_key d (SubIdempotencyKey c)"
proof (cases "has_key d (SubIdempotencyKey c)")
  case True
  with assms have "d' = d" by (auto simp: insertSubmission_def Let_def bindE_simps)
  then show ?thesis using True by (rule existing)
next
  case False
  let ?row = "\<lambda>payload. (new_row now newID (SubType c) payload
       (SubMaxAttempts (default_attempts c)) (SubRootJobID c))
         \<lparr>r_parent_job_id := Some (SubParentJobID c), r_internal := SubInternal c,
          r_idempotency_key := Some (SubIdempotencyKey c),
          r_request_hash := Some (submissionHash ext (default_attempts c))\<rparr>"
  from assms False obtain payload where "insert_job (?row payload) d = Inr d'"
    by (auto simp: insertSubmission_def Let_def bindE_simps)
  then show ?thesis
  proof (rule inserted)
    show "0 \<le> SubMaxAttempts c \<longrightarrow> fresh_row (?row payload)"
      by (simp add: new_row_fresh default_attempts_pos)
  qed (use False in \<open>simp_all add: new_row_def\<close>)
qed

definition only_inserts :: "string \<Rightarrow> db \<Rightarrow> db \<Rightarrow> bool" where
  "only_inserts root d d' \<longleftrightarrow>
     (\<exists>news. t_jobs d' = t_jobs d @ news \<and>
        (\<forall>r\<in>set news. fresh_row r \<and> r_root_job_id r = root)) \<and>
     t_attempts d' = t_attempts d \<and> t_results d' = t_results d \<and> t_dlq d' = t_dlq d \<and>
     t_events d' = t_events d \<and> (unique_keys d \<longrightarrow> unique_keys d')"

lemma only_inserts_refl: "only_inserts root d d"
  by (simp add: only_inserts_def)

lemma only_inserts_trans: "only_inserts root a b \<Longrightarrow> only_inserts root b c \<Longrightarrow> only_inserts root a c"
  by (fastforce simp: only_inserts_def)

lemma insertSubmission_only_inserts:
  assumes "insertSubmission ext now newID c d = Inr d'" and "0 \<le> SubMaxAttempts c"
  shows "only_inserts (SubRootJobID c) d d'"
  using assms(1)
proof (cases rule: insertSubmission_cases)
  case (inserted row)
  note f = insert_job_frame [OF inserted(1)]
  have "unique_keys d \<Longrightarrow> unique_keys d'"
    using unique_keys_insert [OF inserted(1)] inserted(5,6) by auto
  then show ?thesis
    using assms(2) inserted f by (auto simp: only_inserts_def)
qed (simp add: only_inserts_refl)

lemma insertAuditRelationship_only_inserts:
  "insertAuditRelationship ext c d = Inr d' \<Longrightarrow> only_inserts root d d'"
  using insertAuditRelationship_frame [of ext c d d'] unique_keys_same [of d' d]
  by (simp add: only_inserts_def)

lemma insert_children_only_inserts:
  "insert_children ext now newID v n cs d = Inr d' \<Longrightarrow> \<forall>c\<in>set cs. 0 \<le> SubMaxAttempts c
   \<Longrightarrow> only_inserts (RootJobID v) d d'"
proof (induction cs arbitrary: n d)
  case (Cons c cs)
  let ?child = "c\<lparr>SubRootJobID := RootJobID v, SubParentJobID := ID v, SubInternal := True\<rparr>"
  from Cons.prems(1) obtain d1 d2 where
    1: "insertAuditRelationship ext ?child d = Inr d1"
    and 2: "insertSubmission ext now (newID n) ?child d1 = Inr d2"
    and 3: "insert_children ext now newID v (Suc n) cs d2 = Inr d'"
    by (auto simp: bindE_simps Let_def)
  have "only_inserts (RootJobID v) d1 d2"
    using insertSubmission_only_inserts [OF 2] Cons.prems(2) by simp
  moreover have "only_inserts (RootJobID v) d2 d'"
    using Cons.IH [OF 3] Cons.prems(2) by simp
  ultimately show ?case
    using insertAuditRelationship_only_inserts [OF 1] only_inserts_trans by blast
qed (simp add: only_inserts_refl)

text \<open>A successful completion: the held row is released, children are added, and a completed
  descendant lets its root be finalised.\<close>

lemma Complete_effect:
  assumes "Complete ext now newID v res d = Inr d'" and "\<forall>c\<in>set (Children res). 0 \<le> SubMaxAttempts c"
  obtains d3 d6 where "count_where (lease_held v) (t_jobs d) = 1"
    "only_inserts (RootJobID v)
       (d\<lparr>t_jobs := update_where (lease_held v) (complete_row now (complete_status v res)) (t_jobs d),
          t_attempts := update_where
            (\<lambda>a. at_job_id a = ID v \<and> at_attempt a = Attempts v \<and> at_lease_token a = LeaseToken v)
            (\<lambda>a. a\<lparr>at_status := ''completed'', at_finished_at := Some now\<rparr>) (t_attempts d)\<rparr>) d3"
    "t_jobs d6 = t_jobs d3" "t_attempts d6 = t_attempts d3" "t_dlq d6 = t_dlq d3"
    "t_results d6 = t_results d3 \<or>
       (complete_status v res = StatusCompleted \<and>
        (\<exists>d4. insert_result ext (ID v) (Result res) d3 = Inr d4 \<and> t_results d6 = t_results d4))"
    "if complete_status v res = StatusCompleted \<and> ID v \<noteq> RootJobID v
     then finalizeRoot ext now (RootJobID v) d6 = Inr d' else d' = d6"
proof -
  let ?st = "complete_status v res"
  have 0: "count_where (lease_held v) (t_jobs d) = 1"
    by (rule ccontr) (use assms(1) in \<open>simp add: Complete_def\<close>)
  with assms(1) obtain d3 d4 d5 d6 where
    3: "insert_children ext now newID v 0 (Children res)
      (d\<lparr>t_jobs := update_where (lease_held v) (complete_row now ?st) (t_jobs d),
          t_attempts := update_where
            (\<lambda>a. at_job_id a = ID v \<and> at_attempt a = Attempts v \<and> at_lease_token a = LeaseToken v)
            (\<lambda>a. a\<lparr>at_status := ''completed'', at_finished_at := Some now\<rparr>) (t_attempts d)\<rparr>) = Inr d3"
    and 4: "(if Result res \<noteq> [] \<and> Result res \<noteq> ''null'' \<and> ?st = StatusCompleted
             then insert_result ext (ID v) (Result res) d3 else Inr d3) = Inr d4"
    and 5: "insert_audit_result ext v res d4 = Inr d5"
    and 6: "insert_event now (ID v) (status_text ?st) (Some (Attempts v)) (Some (LockedBy v))
              NoDetails d5 = Inr d6"
    and 7: "(if ?st = StatusCompleted \<and> ID v \<noteq> RootJobID v
             then finalizeRoot ext now (RootJobID v) d6 else Inr d6) = Inr d'"
    by (auto simp: Complete_def Let_def bindE_eq_Inr split del: if_split)
  have f4: "t_jobs d4 = t_jobs d3" "t_attempts d4 = t_attempts d3" "t_dlq d4 = t_dlq d3"
    using 4 insert_result_frame [of ext "ID v" "Result res" d3 d4] by (auto split: if_splits)
  have results: "t_results d6 = t_results d3 \<or>
       (?st = StatusCompleted \<and>
        (\<exists>d4. insert_result ext (ID v) (Result res) d3 = Inr d4 \<and> t_results d6 = t_results d4))"
    using 4 insert_audit_result_frame [OF 5] insert_event_frame [OF 6] by (auto split: if_splits)
  show ?thesis
    by (rule that [OF 0 insert_children_only_inserts [OF 3 assms(2)], of d6])
      (use results f4 7 insert_audit_result_frame [OF 5] insert_event_frame [OF 6]
        in \<open>auto split: if_splits\<close>)
qed

lemma Fail_effect:
  assumes "Fail ext now v kind msg retryAt d = Inr d'"
  obtains d4 where "count_where (lease_held v) (t_jobs d) = 1"
    "t_jobs d4 = update_where (lease_held v)
       (fail_row now (fail_status v kind) retryAt kind (boundedError msg)) (t_jobs d)"
    "map (\<lambda>a. (at_job_id a, at_attempt a)) (t_attempts d4) =
       map (\<lambda>a. (at_job_id a, at_attempt a)) (t_attempts d)"
    "t_results d4 = t_results d"
    "if fail_status v kind = StatusDeadLettered
     then \<exists>e. t_dlq d4 = t_dlq d @ [e] \<and> dl_job_id e = ID v else t_dlq d4 = t_dlq d"
    "if fail_status v kind \<noteq> StatusRetryScheduled \<and> ID v \<noteq> RootJobID v
     then finalizeRoot ext now (RootJobID v) d4 = Inr d' else d' = d4"
proof -
  let ?st = "fail_status v kind" and ?m = "boundedError msg"
  let ?d2 = "d\<lparr>t_jobs := update_where (lease_held v) (fail_row now ?st retryAt kind ?m) (t_jobs d),
     t_attempts := update_where
            (\<lambda>a. at_job_id a = ID v \<and> at_attempt a = Attempts v \<and> at_lease_token a = LeaseToken v)
            (\<lambda>a. a\<lparr>at_status := status_text ?st, at_finished_at := Some now,
                  at_error_kind := Some kind, at_error := Some ?m\<rparr>) (t_attempts d)\<rparr>"
  have 0: "count_where (lease_held v) (t_jobs d) = 1"
    by (rule ccontr) (use assms(1) in \<open>simp add: Fail_def\<close>)
  with assms obtain d3 d4 where
    3: "insert_event now (ID v) (status_text ?st) (Some (Attempts v)) (Some (LockedBy v))
              (ErrorDetails kind ?m) ?d2 = Inr d3"
    and 4: "(if ?st = StatusDeadLettered
             then bindE (jsonValue ext (Payload v)) (\<lambda>payload.
                    Inr (insert_dlq now (ID v) (Type v) payload (Attempts v) ?m kind
                           (RootJobID v) (nullif_empty (ParentJobID v)) d3))
             else Inr d3) = Inr d4"
    and 5: "(if ?st \<noteq> StatusRetryScheduled \<and> ID v \<noteq> RootJobID v
             then finalizeRoot ext now (RootJobID v) d4 else Inr d4) = Inr d'"
    by (auto simp: Fail_def Let_def bindE_eq_Inr split del: if_split)
  have f4: "t_jobs d4 = t_jobs d3" "t_attempts d4 = t_attempts d3" "t_results d4 = t_results d3"
    "if ?st = StatusDeadLettered then \<exists>e. t_dlq d4 = t_dlq d3 @ [e] \<and> dl_job_id e = ID v
     else t_dlq d4 = t_dlq d3"
    using 4 by (auto simp: bindE_simps insert_dlq_def split: if_splits)
  show ?thesis
    by (rule that [OF 0, of d4])
      (use f4 5 insert_event_frame [OF 3] in \<open>auto simp: update_where_def split: if_splits\<close>)
qed

lemma reclaim_one_effect:
  assumes "reclaim_one ext now v d = Inr d'"
  obtains d4 where
    "t_jobs d4 = update_where (\<lambda>r. r_id r = ID v) (reclaim_row now (reclaim_status v)) (t_jobs d)"
    "map (\<lambda>a. (at_job_id a, at_attempt a)) (t_attempts d4) =
       map (\<lambda>a. (at_job_id a, at_attempt a)) (t_attempts d)"
    "t_results d4 = t_results d"
    "if reclaim_status v = StatusDeadLettered
     then \<exists>e. t_dlq d4 = t_dlq d @ [e] \<and> dl_job_id e = ID v else t_dlq d4 = t_dlq d"
    "if terminal (reclaim_status v) \<and> ID v \<noteq> RootJobID v
     then finalizeRoot ext now (RootJobID v) d4 = Inr d' else d' = d4"
proof -
  let ?st = "reclaim_status v"
  let ?d2 = "d\<lparr>t_jobs := update_where (\<lambda>r. r_id r = ID v) (reclaim_row now ?st) (t_jobs d),
     t_attempts := update_where (\<lambda>a. at_job_id a = ID v \<and> at_attempt a = Attempts v)
            (\<lambda>a. a\<lparr>at_status := ''abandoned'', at_finished_at := Some now,
                  at_error_kind := Some ErrorTransient,
                  at_error := Some ''worker lease expired''\<rparr>) (t_attempts d)\<rparr>"
  from assms obtain d3 d4 where
    3: "insert_event now (ID v) ''lease_expired'' (Some (Attempts v)) (Some (LockedBy v))
              NoDetails ?d2 = Inr d3"
    and 4: "(if ?st = StatusDeadLettered
             then bindE (jsonValue ext (Payload v)) (\<lambda>payload.
                    Inr (insert_dlq now (ID v) (Type v) payload (Attempts v)
                           ''worker lease expired'' ErrorTransient (RootJobID v)
                           (nullif_empty (ParentJobID v)) d3))
             else Inr d3) = Inr d4"
    and 5: "(if terminal ?st \<and> ID v \<noteq> RootJobID v
             then finalizeRoot ext now (RootJobID v) d4 else Inr d4) = Inr d'"
    by (auto simp: reclaim_one_def Let_def bindE_eq_Inr split del: if_split)
  have f4: "t_jobs d4 = t_jobs d3" "t_attempts d4 = t_attempts d3" "t_results d4 = t_results d3"
    "if ?st = StatusDeadLettered then \<exists>e. t_dlq d4 = t_dlq d3 @ [e] \<and> dl_job_id e = ID v
     else t_dlq d4 = t_dlq d3"
    using 4 by (auto simp: bindE_simps insert_dlq_def split: if_splits)
  show ?thesis
    by (rule that [of d4])
      (use f4 5 insert_event_frame [OF 3] in \<open>auto simp: update_where_def split: if_splits\<close>)
qed

end
