(* ===== verification/Store_Invariants.thy ===== *)
theory Store_Invariants
  imports Store_Effects
begin

text \<open>
  The invariants of the store's tables, each with the lemma that an evolution of the
  \<^verbatim>\<open>jobs\<close> table keeps it: every dead-lettered job has its one DLQ entry (\<open>dlq_ok\<close>), the
  attempt history of a job has one row per attempt (\<open>attempts_ok\<close>), results belong to
  completed jobs (\<open>results_ok\<close>), every root exists (\<open>roots_ok\<close>), and a worker that holds
  a lease token knows the row it belongs to (\<open>leases_ok\<close>).
\<close>

section \<open>The invariants\<close>

definition dead_count :: "db \<Rightarrow> string \<Rightarrow> nat" where
  "dead_count d i = count_where (\<lambda>r. r_id r = i \<and> r_status r = StatusDeadLettered) (t_jobs d)"

definition dlq_count :: "db \<Rightarrow> string \<Rightarrow> nat" where
  "dlq_count d i = count_where (\<lambda>e. dl_job_id e = i) (t_dlq d)"

definition dlq_ok :: "db \<Rightarrow> bool" where
  "dlq_ok d \<longleftrightarrow> (\<forall>i. dlq_count d i = dead_count d i)"

definition at_key :: "attempt_row \<Rightarrow> string \<times> int" where
  "at_key a = (at_job_id a, at_attempt a)"

definition attempts_ok :: "db \<Rightarrow> bool" where
  "attempts_ok d \<longleftrightarrow>
     distinct (map at_key (t_attempts d)) \<and>
     (\<forall>a\<in>set (t_attempts d). \<exists>r\<in>set (t_jobs d). r_id r = at_job_id a \<and> 1 \<le> at_attempt a \<and> at_attempt a \<le> r_attempts r) \<and>
     (\<forall>r\<in>set (t_jobs d).
        int (count_where (\<lambda>k. fst k = r_id r) (map at_key (t_attempts d))) = r_attempts r)"

definition results_ok :: "db \<Rightarrow> bool" where
  "results_ok d \<longleftrightarrow>
     distinct (map rs_job_id (t_results d)) \<and>
     (\<forall>x\<in>set (t_results d). \<exists>r\<in>set (t_jobs d). r_id r = rs_job_id x \<and> r_status r = StatusCompleted)"

definition roots_ok :: "db \<Rightarrow> bool" where
  "roots_ok d \<longleftrightarrow> (\<forall>r\<in>set (t_jobs d). has_job d (r_root_job_id r))"

text \<open>What a worker's copy \<open>v\<close> of a claimed job says about the row its token is on.\<close>

definition lease_agrees :: "db \<Rightarrow> job \<Rightarrow> bool" where
  "lease_agrees d v \<longleftrightarrow>
     (\<forall>r\<in>set (t_jobs d). r_lease_token r = Some (LeaseToken v) \<longrightarrow>
        r_id r = ID v \<and> r_locked_by r = Some (LockedBy v) \<and> r_attempts r = Attempts v \<and>
        r_max_attempts r = MaxAttempts v \<and> r_root_job_id r = RootJobID v \<and>
        r_type r = Type v \<and> coalesce (r_payload r) [] = Payload v)"

definition leases_ok :: "db \<Rightarrow> job list \<Rightarrow> bool" where
  "leases_ok d leases \<longleftrightarrow>
     distinct (map LeaseToken leases) \<and> (\<forall>v\<in>set leases. lease_agrees d v) \<and>
     (\<forall>r\<in>set (t_jobs d). \<forall>t. r_lease_token r = Some t \<longrightarrow> t \<in> LeaseToken ` set leases)"

definition tables_ok :: "db \<Rightarrow> bool" where
  "tables_ok d \<longleftrightarrow> unique_keys d \<and> (\<forall>r\<in>set (t_jobs d). row_ok r) \<and> dlq_ok d \<and> attempts_ok d \<and>
     results_ok d \<and> roots_ok d"

lemmas tables_okD = tables_ok_def [THEN iffD1]

lemma tables_ok_empty: "tables_ok empty_db" and leases_ok_empty: "leases_ok empty_db []"
  by (simp_all add: tables_ok_def empty_db_def unique_keys_def keys_of_def map_filter_def
      dlq_ok_def dlq_count_def dead_count_def attempts_ok_def results_ok_def roots_ok_def leases_ok_def)

section \<open>Evolution keeps attempts, results, roots and leases\<close>

lemma lease_held_token:
  "lease_held v r \<Longrightarrow> r_lease_token r = Some (LeaseToken v) \<and> r_status r = StatusRunning \<and> r_id r = ID v"
  by (simp add: lease_held_def)

lemma unique_row:
  "unique_keys d \<Longrightarrow> r \<in> set (t_jobs d) \<Longrightarrow> r' \<in> set (t_jobs d) \<Longrightarrow> r_id r = r_id r' \<Longrightarrow> r = r'"
  unfolding unique_keys_def using distinct_map_key_eq by metis

lemma evolves_attempts_ok:
  assumes ev: "evolves d d'" and uk: "unique_keys d'" and ok: "attempts_ok d"
    and same: "map at_key (t_attempts d') = map at_key (t_attempts d)"
  shows "attempts_ok d'"
proof -
  from ev obtain g news where jobs: "t_jobs d' = map g (t_jobs d) @ news"
    and path: "\<And>r. r \<in> set (t_jobs d) \<Longrightarrow> job_edge\<^sup>*\<^sup>* r (g r)"
    and fresh: "\<And>r. r \<in> set news \<Longrightarrow> \<exists>r0. fresh_row r0 \<and> job_edge\<^sup>*\<^sup>* r0 r"
    unfolding evolves_def by blast
  have g: "r_id (g r) = r_id r" "r_attempts (g r) = r_attempts r" if "r \<in> set (t_jobs d)" for r
    using job_path_same_job [OF path [OF that]] job_path_attempts [OF path [OF that]]
    by (auto simp: same_job_def)
  have keys: "at_key ` set (t_attempts d') = at_key ` set (t_attempts d)"
    using same by (metis set_map)
  have known: "\<exists>r\<in>set (t_jobs d). r_id r = fst k \<and> 1 \<le> snd k \<and> snd k \<le> r_attempts r"
    if "k \<in> at_key ` set (t_attempts d)" for k
    using ok that by (auto simp: attempts_ok_def at_key_def)
  have "int (count_where (\<lambda>k. fst k = r_id r) (map at_key (t_attempts d))) = r_attempts r"
    if "r \<in> set (t_jobs d')" for r
  proof (cases "r \<in> set news")
    case True
    from fresh [OF this] have "r_attempts r = 0"
      by (auto simp: fresh_row_def dest: job_path_attempts)
    moreover have "r_id r \<noteq> r_id r'" if "r' \<in> set (t_jobs d)" for r'
    proof -
      have "r_id ` set news \<inter> r_id ` g ` set (t_jobs d) = {}"
        using uk by (auto simp: unique_keys_def jobs)
      with True that g(1) show ?thesis by (metis IntI empty_iff image_eqI)
    qed
    ultimately have "count_where (\<lambda>k. fst k = r_id r) (map at_key (t_attempts d)) = 0"
      unfolding count_where_0_iff set_map using known by metis
    with \<open>r_attempts r = 0\<close> show ?thesis by simp
  next
    case False
    with that jobs obtain r0 where "r0 \<in> set (t_jobs d)" "r = g r0" by auto
    then show ?thesis using ok g by (simp add: attempts_ok_def)
  qed
  moreover have "\<exists>r\<in>set (t_jobs d'). r_id r = at_job_id a \<and> 1 \<le> at_attempt a \<and> at_attempt a \<le> r_attempts r"
    if "a \<in> set (t_attempts d')" for a
  proof -
    have "at_key a \<in> at_key ` set (t_attempts d)" using that keys by blast
    from known [OF this] obtain r where "r \<in> set (t_jobs d)" "r_id r = at_job_id a"
      "1 \<le> at_attempt a" "at_attempt a \<le> r_attempts r" by (auto simp: at_key_def)
    then show ?thesis using g jobs by (intro bexI [of _ "g r"]) auto
  qed
  ultimately show ?thesis
    using ok same by (simp add: attempts_ok_def)
qed

lemma evolves_results_ok:
  assumes "evolves d d'" and "results_ok d" and "t_results d' = t_results d"
  shows "results_ok d'"
proof -
  have "r \<in> set (t_jobs d')" if "r \<in> set (t_jobs d)" "r_status r = StatusCompleted" for r
    using evolves_terminal [OF assms(1) that(1)] that(2) by simp
  then show ?thesis using assms(2,3) unfolding results_ok_def by metis
qed

lemma insert_result_ok:
  assumes ins: "insert_result ext i res d = Inr d'" and ok: "results_ok d"
    and "r \<in> set (t_jobs d)" "r_id r = i" "r_status r = StatusCompleted"
  shows "results_ok d'"
proof -
  from ins consider "d' = d"
    | x where "t_results d' = t_results d @ [x]" "rs_job_id x = i" "i \<notin> rs_job_id ` set (t_results d)"
    by (auto simp: insert_result_def bindE_simps list_ex_iff split: option.splits if_splits)
  then show ?thesis
  proof cases
    case 2
    have "\<exists>r\<in>set (t_jobs d'). r_id r = rs_job_id y \<and> r_status r = StatusCompleted"
      if "y \<in> set (t_results d')" for y
      using that 2 assms(3-5) ok insert_result_frame(1) [OF ins] by (auto simp: results_ok_def)
    then show ?thesis using 2 ok by (simp add: results_ok_def)
  qed (use ok in simp)
qed

lemma evolves_has_job: "evolves d d' \<Longrightarrow> has_job d i \<Longrightarrow> has_job d' i"
  unfolding has_job_iff by (metis evolves_row image_iff job_path_same_job same_jobD(1))

lemma evolves_roots_ok:
  assumes "evolves d d'" and "roots_ok d"
    and "\<And>r. r \<in> set (t_jobs d') \<Longrightarrow> \<not> (\<exists>r0\<in>set (t_jobs d). job_edge\<^sup>*\<^sup>* r0 r)
          \<Longrightarrow> has_job d' (r_root_job_id r)"
  shows "roots_ok d'"
  unfolding roots_ok_def
proof
  fix r assume r: "r \<in> set (t_jobs d')"
  show "has_job d' (r_root_job_id r)"
  proof (cases "\<exists>r0\<in>set (t_jobs d). job_edge\<^sup>*\<^sup>* r0 r")
    case True
    then obtain r0 where "r0 \<in> set (t_jobs d)" "r_root_job_id r = r_root_job_id r0"
      by (metis job_path_same_job same_jobD(2))
    with assms(1,2) show ?thesis by (metis evolves_has_job roots_ok_def)
  qed (rule assms(3) [OF r])
qed

lemma roots_ok_ids:
  assumes "map (\<lambda>r. (r_id r, r_root_job_id r)) (t_jobs d') = map (\<lambda>r. (r_id r, r_root_job_id r)) (t_jobs d)"
  shows "roots_ok d' = roots_ok d"
proof -
  have "(\<lambda>r. (r_id r, r_root_job_id r)) ` set (t_jobs d') = (\<lambda>r. (r_id r, r_root_job_id r)) ` set (t_jobs d)"
    using assms by (metis set_map)
  then have "(\<forall>p\<in>(\<lambda>r. (r_id r, r_root_job_id r)) ` set (t_jobs d'). snd p \<in> fst ` (\<lambda>r. (r_id r, r_root_job_id r)) ` set (t_jobs d'))
    = (\<forall>p\<in>(\<lambda>r. (r_id r, r_root_job_id r)) ` set (t_jobs d). snd p \<in> fst ` (\<lambda>r. (r_id r, r_root_job_id r)) ` set (t_jobs d))"
    by simp
  then show ?thesis by (simp add: roots_ok_def has_job_iff image_image)
qed

lemma fresh_path_no_lease: "fresh_row r0 \<Longrightarrow> job_edge\<^sup>*\<^sup>* r0 r \<Longrightarrow> r_lease_token r = None"
  using job_path_lease [of r0 r] by (auto simp: fresh_row_def row_ok_def)

lemma evolves_token:
  assumes "evolves d d'" and "r' \<in> set (t_jobs d')" and "r_lease_token r' = Some t"
  obtains r where "r \<in> set (t_jobs d)" "r_lease_token r = Some t" "r_locked_by r' = r_locked_by r"
    "r_attempts r' = r_attempts r" "same_job r r'"
proof -
  from evolves_origin [OF assms(1,2)] fresh_path_no_lease assms(3)
  obtain r where r: "r \<in> set (t_jobs d)" "job_edge\<^sup>*\<^sup>* r r'" by force
  then show ?thesis
    using that [OF r(1)] job_path_lease [OF r(2)] assms(3) job_path_attempts [OF r(2)]
      job_path_same_job [OF r(2)] by auto
qed

lemma evolves_leases_ok:
  assumes ev: "evolves d d'" and ok: "leases_ok d leases"
  shows "leases_ok d' leases"
proof -
  have "lease_agrees d' v" if "v \<in> set leases" for v
    unfolding lease_agrees_def
  proof (intro ballI impI)
    fix r' assume "r' \<in> set (t_jobs d')" "r_lease_token r' = Some (LeaseToken v)"
    with ev obtain r where "r \<in> set (t_jobs d)" "r_lease_token r = Some (LeaseToken v)"
      "r_locked_by r' = r_locked_by r" "r_attempts r' = r_attempts r" "same_job r r'"
      by (rule evolves_token)
    then show "r_id r' = ID v \<and> r_locked_by r' = Some (LockedBy v) \<and> r_attempts r' = Attempts v \<and>
        r_max_attempts r' = MaxAttempts v \<and> r_root_job_id r' = RootJobID v \<and>
        r_type r' = Type v \<and> coalesce (r_payload r') [] = Payload v"
      using ok that by (auto simp: leases_ok_def lease_agrees_def same_job_def)
  qed
  moreover have "t \<in> LeaseToken ` set leases"
    if "r' \<in> set (t_jobs d')" "r_lease_token r' = Some t" for r' t
    using evolves_token [OF ev that] ok by (metis leases_ok_def)
  ultimately show ?thesis using ok by (auto simp: leases_ok_def)
qed

section \<open>Counting dead letters\<close>

lemma count_where_update_where:
  "count_where q (update_where p f xs) =
   count_where (\<lambda>x. \<not> p x \<and> q x) xs + count_where (\<lambda>x. p x \<and> q (f x)) xs"
  by (induction xs) (auto simp: update_where_def)

lemma dead_count_same: "t_jobs d' = t_jobs d \<Longrightarrow> dead_count d' = dead_count d"
  by (simp add: dead_count_def fun_eq_iff)

lemma dlq_count_same: "t_dlq d' = t_dlq d \<Longrightarrow> dlq_count d' = dlq_count d"
  by (simp add: dlq_count_def fun_eq_iff)

lemma dlq_count_insert:
  "t_dlq d' = t_dlq d @ [e] \<Longrightarrow> dlq_count d' i = dlq_count d i + (if dl_job_id e = i then 1 else 0)"
  by (simp add: dlq_count_def)

text \<open>Updating the one row that satisfies \<open>p\<close>, which is not dead-lettered yet.\<close>

lemma dead_count_update_one:
  assumes jobs: "t_jobs d' = update_where p f (t_jobs d)" and one: "count_where p (t_jobs d) = 1"
    and p: "\<And>r. r \<in> set (t_jobs d) \<Longrightarrow> p r \<Longrightarrow>
      r_id r = i0 \<and> r_status r \<noteq> StatusDeadLettered \<and> r_id (f r) = r_id r \<and> r_status (f r) = st"
  shows "dead_count d' i = dead_count d i + (if i = i0 \<and> st = StatusDeadLettered then 1 else 0)"
proof -
  let ?q = "\<lambda>r. r_id r = i \<and> r_status r = StatusDeadLettered"
  have "count_where (\<lambda>x. \<not> p x \<and> ?q x) (t_jobs d) = count_where ?q (t_jobs d)"
    using p by (intro count_where_cong) auto
  moreover have "count_where (\<lambda>x. p x \<and> ?q (f x)) (t_jobs d) =
      count_where (\<lambda>x. p x \<and> (i = i0 \<and> st = StatusDeadLettered)) (t_jobs d)"
    using p by (intro count_where_cong) auto
  moreover have "count_where (\<lambda>x. p x \<and> (i = i0 \<and> st = StatusDeadLettered)) (t_jobs d) =
      (if i = i0 \<and> st = StatusDeadLettered then 1 else 0)"
    using one by (auto simp: count_where_def)
  ultimately show ?thesis
    unfolding dead_count_def jobs count_where_update_where by simp
qed

lemma dead_count_update_alive:
  assumes "t_jobs d' = update_where p f (t_jobs d)"
    and "\<And>r. r \<in> set (t_jobs d) \<Longrightarrow> p r \<Longrightarrow> r_status r \<noteq> StatusDeadLettered \<and> r_status (f r) \<noteq> StatusDeadLettered"
  shows "dead_count d' = dead_count d"
proof
  fix i
  let ?q = "\<lambda>r. r_id r = i \<and> r_status r = StatusDeadLettered"
  have "count_where (\<lambda>x. \<not> p x \<and> ?q x) (t_jobs d) = count_where ?q (t_jobs d)"
    using assms(2) by (intro count_where_cong) auto
  moreover have "count_where (\<lambda>x. p x \<and> ?q (f x)) (t_jobs d) = 0"
    using assms(2) by (auto simp: count_where_0_iff)
  ultimately show "dead_count d' i = dead_count d i"
    unfolding dead_count_def assms(1) count_where_update_where by simp
qed

lemma dead_count_insert:
  "t_jobs d' = t_jobs d @ news \<Longrightarrow> (\<And>r. r \<in> set news \<Longrightarrow> r_status r \<noteq> StatusDeadLettered) \<Longrightarrow>
   dead_count d' = dead_count d"
  by (auto simp: dead_count_def fun_eq_iff count_where_0_iff)

end
