(* ===== verification/Store_Tables.thy ===== *)
theory Store_Tables
  imports Store_Invariants
begin

text \<open>
  Every operation of the store keeps the table invariants (\<open>tables_ok\<close>): unique keys,
  well-formed rows, one DLQ entry per dead-lettered job, one attempt row per attempt,
  results of completed jobs only, and an existing root for every job.
\<close>

section \<open>Operations that evolve the table\<close>

lemma tables_ok_evolves:
  assumes ok: "tables_ok d" and ev: "evolves d d'" and uk: "unique_keys d'"
    and atts: "map at_key (t_attempts d') = map at_key (t_attempts d)"
    and res: "results_ok d'" and roots: "roots_ok d'"
    and dlq: "\<And>i. dlq_count d' i + dead_count d i = dlq_count d i + dead_count d' i"
  shows "tables_ok d'"
proof -
  have "dlq_count d' i = dead_count d' i" for i
  proof -
    have "dlq_count d i = dead_count d i" using ok by (simp add: tables_ok_def dlq_ok_def)
    with dlq [of i] show ?thesis by linarith
  qed
  then have "dlq_ok d'" by (simp add: dlq_ok_def)
  moreover have "attempts_ok d'"
    using ok by (intro evolves_attempts_ok [OF ev uk _ atts]) (simp add: tables_ok_def)
  moreover have "\<forall>r\<in>set (t_jobs d'). row_ok r"
    using ok by (intro evolves_rows_ok [OF ev]) (simp add: tables_ok_def)
  ultimately show ?thesis using uk res roots by (simp add: tables_ok_def)
qed

lemma tables_ok_frame:
  assumes "tables_ok d" "t_jobs d' = t_jobs d" "t_attempts d' = t_attempts d"
    "t_results d' = t_results d" "t_dlq d' = t_dlq d"
  shows "tables_ok d'"
  using assms
  by (simp add: tables_ok_def unique_keys_def dlq_ok_def dlq_count_def dead_count_def
      attempts_ok_def results_ok_def roots_ok_def has_job_iff)

lemma roots_ok_update:
  assumes "t_jobs d' = update_where p f (t_jobs d)"
    and "\<And>r. r \<in> set (t_jobs d) \<Longrightarrow> p r \<Longrightarrow> same_job r (f r)"
  shows "roots_ok d' = roots_ok d"
  by (rule roots_ok_ids) (use assms in \<open>auto simp: same_job_def intro!: map_update_where\<close>)

text \<open>An update of rows along edges, with the DLQ growing as rows become dead-lettered.\<close>

lemma tables_ok_update:
  assumes ok: "tables_ok d" and jobs: "t_jobs d' = update_where p f (t_jobs d)"
    and edge: "\<And>r. r \<in> set (t_jobs d) \<Longrightarrow> p r \<Longrightarrow> job_edge r (f r)"
    and atts: "map at_key (t_attempts d') = map at_key (t_attempts d)"
    and res: "t_results d' = t_results d"
    and dlq: "\<And>i. dlq_count d' i + dead_count d i = dlq_count d i + dead_count d' i"
  shows "tables_ok d'"
proof -
  have same: "same_job r (f r)" if "r \<in> set (t_jobs d)" "p r" for r
    using edge [OF that] by (simp add: job_edge_def)
  have ev: "evolves d d'" using jobs edge by (rule evolves_update)
  show ?thesis
  proof (rule tables_ok_evolves [OF ok ev])
    show "unique_keys d'" using ok unique_keys_update [OF jobs same] by (simp add: tables_ok_def)
    show "results_ok d'" using ok evolves_results_ok [OF ev _ res] by (simp add: tables_ok_def)
    show "roots_ok d'" using ok roots_ok_update [OF jobs same] by (simp add: tables_ok_def)
  qed (use atts dlq in auto)
qed

subsection \<open>Finalising a root\<close>

lemma waiting_one:
  assumes "unique_keys d" and "count_where (waiting_row root) (t_jobs d) \<noteq> 0"
  shows "count_where (waiting_row root) (t_jobs d) = 1"
proof -
  have "count_where (waiting_row root) (t_jobs d) \<le> 1"
    using assms(1) by (intro count_where_distinct_key [where k = r_id and a = root])
      (auto simp: unique_keys_def waiting_row_def)
  with assms(2) show ?thesis by simp
qed

lemma dlq_from_root_entry:
  assumes "has_job d root"
  shows "\<exists>e. t_dlq (dlq_from_root now root d) = t_dlq d @ [e] \<and> dl_job_id e = root"
proof -
  from assms obtain r where "job_by_id d root = Some r" "r_id r = root"
    by (cases "job_by_id d root")
      (auto simp: has_job_def list_ex_iff job_by_id_def find_None_all dest: find_Some_in)
  then show ?thesis by (simp add: dlq_from_root_def insert_dlq_def)
qed

lemma finalizeRoot_idle:
  assumes "finalizeRoot ext now root d = Inr d'"
    and "\<not> (active_descendants root d = 0 \<and> count_where (waiting_row root) (t_jobs d) \<noteq> 0)"
  shows "t_dlq d' = t_dlq d"
  using assms by (auto simp: finalizeRoot_def Let_def waiting_row_def [abs_def] split: if_splits)

lemma finalizeRoot_dlq:
  assumes fin: "finalizeRoot ext now root d = Inr d'"
    and run: "active_descendants root d = 0" "count_where (waiting_row root) (t_jobs d) \<noteq> 0"
  shows "if root_outcome root d = StatusDeadLettered
         then \<exists>e. t_dlq d' = t_dlq d @ [e] \<and> dl_job_id e = root else t_dlq d' = t_dlq d"
proof -
  let ?st = "root_outcome root d"
  let ?d1 = "d\<lparr>t_jobs := update_where (waiting_row root) (finalize_row now ?st) (t_jobs d)\<rparr>"
  from fin run obtain d2 where
    d2: "(if ?st = StatusCompleted then insert_result ext root (root_summary root d) ?d1 else Inr ?d1) = Inr d2"
    and ev: "insert_event now root (status_text ?st) None None NoDetails
       (if ?st = StatusDeadLettered then dlq_from_root now root d2 else d2) = Inr d'"
    unfolding finalizeRoot_def Let_def waiting_row_def [abs_def]
    by (auto simp: bindE_eq_Inr split del: if_split)
  show ?thesis
  proof (cases "?st = StatusDeadLettered")
    case True
    with d2 have "d2 = ?d1" by simp
    have "has_job d2 root"
      using ev True by (simp add: insert_event_def bindE_simps has_job_iff)
    from dlq_from_root_entry [OF this, of now] show ?thesis
      using True insert_event_frame(4) [OF ev] \<open>d2 = ?d1\<close> by simp
  next
    case False
    have "t_dlq d2 = t_dlq d"
      using d2 insert_result_frame(3) [of ext root "root_summary root d" ?d1 d2]
      by (cases "?st = StatusCompleted") auto
    then show ?thesis using False insert_event_frame(4) [OF ev] by simp
  qed
qed

lemma finalizeRoot_results:
  assumes fin: "finalizeRoot ext now root d = Inr d'" and ok: "results_ok d" and ev: "evolves d d'"
  shows "results_ok d'"
proof -
  let ?st = "root_outcome root d"
  let ?d1 = "d\<lparr>t_jobs := update_where (waiting_row root) (finalize_row now ?st) (t_jobs d)\<rparr>"
  consider "t_results d' = t_results d"
    | d2 where "active_descendants root d = 0" "count_where (waiting_row root) (t_jobs d) \<noteq> 0"
        "?st = StatusCompleted" "insert_result ext root (root_summary root d) ?d1 = Inr d2"
        "t_results d' = t_results d2" "t_jobs d' = t_jobs d2"
    using fin
    by (auto simp: finalizeRoot_def Let_def bindE_simps waiting_row_def [abs_def] insert_event_frame
        split: if_splits)
  then show ?thesis
  proof cases
    case 1
    then show ?thesis using evolves_results_ok [OF ev ok] by simp
  next
    case 2
    from 2(2) obtain r where r: "r \<in> set (t_jobs d)" "waiting_row root r"
      by (auto simp: count_where_0_iff)
    let ?r = "finalize_row now ?st r"
    have r': "?r \<in> set (t_jobs ?d1)" "r_id ?r = root" "r_status ?r = StatusCompleted"
      using r 2(3) by (auto simp: set_update_where waiting_row_def finalize_row_def)
    have "evolves d ?d1"
      by (rule evolves_update [where p = "waiting_row root" and f = "finalize_row now ?st"])
        (use 2(3) in \<open>auto simp: waiting_row_def intro: finalize_row_edge\<close>)
    then have "results_ok ?d1" using ok by (rule evolves_results_ok) simp
    from insert_result_ok [OF 2(4) this r'] show ?thesis
      using 2(5,6) by (simp add: results_ok_def)
  qed
qed

lemma finalizeRoot_tables_ok:
  assumes ok: "tables_ok d" and fin: "finalizeRoot ext now root d = Inr d'"
  shows "tables_ok d'"
proof (rule tables_ok_evolves [OF ok finalizeRoot_evolves [OF fin]])
  show "unique_keys d'" using ok finalizeRoot_unique_keys [OF fin] by (simp add: tables_ok_def)
  show "map at_key (t_attempts d') = map at_key (t_attempts d)"
    using finalizeRoot_attempts [OF fin] by simp
  show "results_ok d'"
    using finalizeRoot_results [OF fin _ finalizeRoot_evolves [OF fin]] ok by (simp add: tables_ok_def)
  show "roots_ok d'"
  proof (cases "active_descendants root d = 0")
    case True
    then show ?thesis
      using ok finalizeRoot_jobs [OF fin]
        roots_ok_update [of d' "waiting_row root" "finalize_row now (root_outcome root d)" d]
      by (simp add: tables_ok_def finalized_rows_def finalize_row_def same_job_def)
  next
    case False
    then show ?thesis
      using ok finalizeRoot_jobs [OF fin] roots_ok_ids [of d' d]
      by (simp add: tables_ok_def finalized_rows_def)
  qed
  show "dlq_count d' i + dead_count d i = dlq_count d i + dead_count d' i" for i
  proof (cases "active_descendants root d = 0 \<and> count_where (waiting_row root) (t_jobs d) \<noteq> 0")
    case True
    have jobs: "t_jobs d' = update_where (waiting_row root) (finalize_row now (root_outcome root d)) (t_jobs d)"
      using True finalizeRoot_jobs [OF fin] by (simp add: finalized_rows_def)
    have one: "count_where (waiting_row root) (t_jobs d) = 1"
      using True ok by (intro waiting_one) (auto simp: tables_ok_def)
    have dead: "dead_count d' i = dead_count d i +
        (if i = root \<and> root_outcome root d = StatusDeadLettered then 1 else 0)"
      by (rule dead_count_update_one [OF jobs one]) (simp add: waiting_row_def finalize_row_def)
    show ?thesis
    proof (cases "root_outcome root d = StatusDeadLettered")
      case st: True
      with finalizeRoot_dlq [OF fin] True obtain e where e: "t_dlq d' = t_dlq d @ [e]" "dl_job_id e = root"
        by auto
      show ?thesis using dlq_count_insert [OF e(1), of i] dead st e(2) by auto
    next
      case st: False
      with finalizeRoot_dlq [OF fin] True have "t_dlq d' = t_dlq d" by simp
      then show ?thesis using dead st dlq_count_same [of d' d] by simp
    qed
  next
    case False
    have "t_jobs d' = t_jobs d"
      using finalizeRoot_jobs [OF fin] False
      by (auto simp: finalized_rows_def count_where_0_iff intro!: update_where_none)
    then show ?thesis
      using finalizeRoot_idle [OF fin False] dead_count_same [of d' d] dlq_count_same [of d' d] by simp
  qed
qed

section \<open>Submission, retry and replay\<close>

lemma dlq_count_ids:
  assumes "map dl_job_id (t_dlq d') = map dl_job_id (t_dlq d)"
  shows "dlq_count d' = dlq_count d"
proof -
  have "count_where (\<lambda>e. dl_job_id e = i) xs = count_where (\<lambda>k. k = i) (map dl_job_id xs)"
    for i and xs :: "dlq_row list"
    by (induction xs) auto
  then show ?thesis unfolding dlq_count_def fun_eq_iff using assms by metis
qed

lemma tables_ok_insert:
  assumes ok: "tables_ok d" and jobs: "t_jobs d' = t_jobs d @ news" and uk: "unique_keys d'"
    and fresh: "\<And>r. r \<in> set news \<Longrightarrow> fresh_row r \<and> has_job d' (r_root_job_id r)"
    and atts: "t_attempts d' = t_attempts d" and res: "t_results d' = t_results d"
    and dlq: "map dl_job_id (t_dlq d') = map dl_job_id (t_dlq d)"
  shows "tables_ok d'"
proof -
  have ev: "evolves d d'" using jobs fresh by (intro evolves_insert) auto
  have dead: "dead_count d' = dead_count d"
    using fresh by (intro dead_count_insert [OF jobs]) (auto simp: fresh_row_def)
  show ?thesis
  proof (rule tables_ok_evolves [OF ok ev uk])
    show "results_ok d'" using ok evolves_results_ok [OF ev _ res] by (simp add: tables_ok_def)
    show "roots_ok d'"
    proof (rule evolves_roots_ok [OF ev])
      fix r assume "r \<in> set (t_jobs d')" "\<not> (\<exists>r0\<in>set (t_jobs d). job_edge\<^sup>*\<^sup>* r0 r)"
      then have "r \<in> set news" using jobs by auto
      then show "has_job d' (r_root_job_id r)" using fresh by blast
    qed (use ok in \<open>simp add: tables_ok_def\<close>)
  qed (simp_all add: atts dead dlq_count_ids [OF dlq])
qed

lemma Submit_tables_ok:
  assumes ok: "tables_ok d" and sub: "Submit ext now newID sub d = Inr (j, created, d')"
    and max: "0 \<le> SubMaxAttempts sub" and root: "SubRootJobID sub = []"
  shows "tables_ok d'"
  using sub
proof (cases rule: Submit_cases)
  case (inserted row d1)
  note f = insert_event_frame [OF inserted(4)] and g = insert_job_frame [OF inserted(3)]
  have "has_job d' (r_root_job_id row)"
    using inserted(5,7) root f(1) g(1) by (simp add: has_job_iff)
  then show ?thesis
    using inserted(6) max f g Submit_unique_keys [OF sub] ok
    by (intro tables_ok_insert [OF ok, where news = "[row]"]) (simp_all add: tables_ok_def)
qed (use ok in simp)

lemma Retry_Submit:
  assumes "Retry ext now newID i maxAttempts d = Inr (j, d')" and "0 \<le> maxAttempts" and "tables_ok d"
  obtains sub created r where "Submit ext now newID sub d = Inr (j, created, d')"
    "0 \<le> SubMaxAttempts sub" "SubRootJobID sub = []" "SubIdempotencyKey sub = []"
    "r \<in> set (t_jobs d)" "r_id r = i" "SubRetriedFromJobID sub = i"
    "SubType sub = r_type r" "SubPayload sub = coalesce (r_payload r) []"
    "r_status r \<in> {StatusFailed, StatusDeadLettered}"
proof (cases "job_by_id d i")
  case None
  with assms(1) show ?thesis by (simp add: Retry_def)
next
  case (Some r)
  then have r: "r \<in> set (t_jobs d)" "r_id r = i" by (auto dest: job_by_id_SomeD)
  then have "1 \<le> r_max_attempts r" using assms(3) by (simp add: tables_ok_def row_ok_def)
  with that r assms(1,2) Some show ?thesis
    by (force simp: Retry_def Let_def bindE_simps empty_submission_def scanServiceJob_def split: if_splits)
qed

lemma Retry_tables_ok:
  assumes "tables_ok d" "Retry ext now newID i maxAttempts d = Inr (j, d')" "0 \<le> maxAttempts"
  shows "tables_ok d'"
  using Retry_Submit [OF assms(2,3,1)] Submit_tables_ok [OF assms(1)] by metis

lemma ReplayDLQ_effect:
  assumes "ReplayDLQ ext now newID entryID maxAttempts d = Inr (j, d')"
  obtains row d1 e where "insert_job row d = Inr d1" "j = scanServiceJob row" "r_id row = newID"
    "r_root_job_id row = newID" "0 \<le> maxAttempts \<longrightarrow> fresh_row row" "r_idempotency_key row = None"
    "t_jobs d' = t_jobs d1" "t_attempts d' = t_attempts d1" "t_results d' = t_results d1"
    "t_dlq d' = update_where (\<lambda>e. dl_id e = entryID)
        (\<lambda>e. e\<lparr>dl_replayed_at := Some now, dl_replayed_as := Some newID\<rparr>) (t_dlq d)"
    "e \<in> set (t_dlq d)" "dl_id e = entryID" "coalesce (dl_replayed_as e) [] = []"
    "r_replayed_from row = Some (dl_job_id e)" "r_type row = dl_job_type e"
    "list_ex (\<lambda>j. r_id j = dl_job_id e \<and> \<not> r_internal j) (t_jobs d)"
proof -
  let ?find = "find (\<lambda>e. dl_id e = entryID \<and>
              list_ex (\<lambda>j. r_id j = dl_job_id e \<and> \<not> r_internal j) (t_jobs d)) (t_dlq d)"
  from assms obtain e where e: "?find = Some e" by (cases ?find) (auto simp: ReplayDLQ_def)
  let ?m = "if maxAttempts = 0 then DefaultMaxAttempts else maxAttempts"
  have nr: "coalesce (dl_replayed_as e) [] = []"
    by (rule ccontr) (use assms e in \<open>simp add: ReplayDLQ_def\<close>)
  let ?row = "\<lambda>payload. (new_row now newID (dl_job_type e) payload ?m newID)
                           \<lparr>r_replayed_from := Some (dl_job_id e)\<rparr>"
  from assms e nr obtain payload d1 d3 where 1: "insert_job (?row payload) d = Inr d1"
    and 3: "insert_event now newID ''submitted'' None None NoDetails
        (d1\<lparr>t_dlq := update_where (\<lambda>e. dl_id e = entryID)
             (\<lambda>e. e\<lparr>dl_replayed_at := Some now, dl_replayed_as := Some newID\<rparr>) (t_dlq d1)\<rparr>) = Inr d3"
    and 4: "insert_event now newID ''replayed'' None None (SourceJob (dl_job_id e)) d3 = Inr d'"
    and j: "j = scanServiceJob (?row payload)"
    by (auto simp: ReplayDLQ_def Let_def bindE_eq_Inr split del: if_split)
  have fresh: "0 \<le> maxAttempts \<longrightarrow> fresh_row (?row payload)"
    by (simp add: new_row_fresh DefaultMaxAttempts_def)
  show ?thesis
    by (rule that [OF 1 j _ _ fresh, of e])
      (use find_Some_in [OF e] nr insert_event_frame [OF 3] insert_event_frame [OF 4]
        insert_job_frame [OF 1] in \<open>simp_all add: new_row_def\<close>)
qed

lemma ReplayDLQ_tables_ok:
  assumes ok: "tables_ok d" and rep: "ReplayDLQ ext now newID entryID maxAttempts d = Inr (j, d')"
    and max: "0 \<le> maxAttempts"
  shows "tables_ok d'"
proof -
  from rep obtain row d1 where 1: "insert_job row d = Inr d1"
    "r_root_job_id row = newID" "r_id row = newID" "0 \<le> maxAttempts \<longrightarrow> fresh_row row" "r_idempotency_key row = None"
    and f: "t_jobs d' = t_jobs d1" "t_attempts d' = t_attempts d1" "t_results d' = t_results d1"
    "t_dlq d' = update_where (\<lambda>e. dl_id e = entryID)
        (\<lambda>e. e\<lparr>dl_replayed_at := Some now, dl_replayed_as := Some newID\<rparr>) (t_dlq d)"
    by (rule ReplayDLQ_effect)
  note g = insert_job_frame [OF 1(1)]
  have "unique_keys d1" using unique_keys_insert [OF 1(1)] 1(5) ok by (simp add: tables_ok_def)
  then have "unique_keys d'" using unique_keys_same [OF f(1)] by simp
  then show ?thesis
    by (rule tables_ok_insert [OF ok, where news = "[row]", rotated])
      (use 1 f g max in \<open>simp_all add: has_job_iff map_update_where\<close>)
qed

section \<open>Claims and heartbeats\<close>

lemma unique_match:
  assumes "unique_keys d" and "row \<in> set (t_jobs d)"
  shows "update_where (\<lambda>r. r_id r = r_id row) f (t_jobs d) = update_where (\<lambda>r. r = row) f (t_jobs d)"
  using assms unfolding update_where_def by (auto intro!: map_cong dest: unique_row)

lemma one_match:
  assumes uk: "unique_keys d" and "row \<in> set (t_jobs d)"
  shows "count_where (\<lambda>r. r_id r = r_id row) (t_jobs d) = 1"
proof -
  have "count_where (\<lambda>r. r_id r = r_id row) (t_jobs d) \<le> 1"
    using uk by (intro count_where_distinct_key [where k = r_id]) (auto simp: unique_keys_def)
  moreover have "0 < count_where (\<lambda>r. r_id r = r_id row) (t_jobs d)"
    using assms(2) by (auto simp: count_where_pos_iff)
  ultimately show ?thesis by simp
qed

lemma Claim_attempts_ok:
  assumes ok: "attempts_ok d" and uk: "unique_keys d" and row: "row \<in> set (t_jobs d)"
    and jobs: "t_jobs d' = update_where (\<lambda>r. r_id r = r_id row) f (t_jobs d)"
    and f: "\<And>r. r_id (f r) = r_id r \<and> r_attempts (f r) = r_attempts r + 1"
    and atts: "t_attempts d' = t_attempts d @ [a]" "at_key a = (r_id row, r_attempts row + 1)"
  shows "attempts_ok d'"
  unfolding attempts_ok_def
proof (intro conjI ballI)
  have "{r \<in> set (t_jobs d). r_id r = r_id row} = {row}"
    using row unique_row [OF uk] by blast
  then have rows: "set (t_jobs d') = {r \<in> set (t_jobs d). r_id r \<noteq> r_id row} \<union> {f row}"
    unfolding jobs set_update_where by simp
  have known: "at_job_id b = r_id row \<Longrightarrow> at_attempt b \<le> r_attempts row" if "b \<in> set (t_attempts d)" for b
    using ok that row unique_row [OF uk] unfolding attempts_ok_def by metis
  have "at_key b \<noteq> at_key a" if "b \<in> set (t_attempts d)" for b
    using known [OF that] atts(2) by (auto simp: at_key_def)
  then have "at_key a \<notin> at_key ` set (t_attempts d)" by (metis imageE)
  then show "distinct (map at_key (t_attempts d'))"
    using ok atts(1) by (simp add: attempts_ok_def)
  have nonneg: "0 \<le> r_attempts row" using ok row unfolding attempts_ok_def by (metis of_nat_0_le_iff)
  have pos: "1 \<le> at_attempt b" if "b \<in> set (t_attempts d')" for b
    using that ok atts nonneg by (auto simp: at_key_def attempts_ok_def)
  show "\<exists>r\<in>set (t_jobs d'). r_id r = at_job_id b \<and> 1 \<le> at_attempt b \<and> at_attempt b \<le> r_attempts r"
    if "b \<in> set (t_attempts d')" for b
  proof (cases "at_job_id b = r_id row")
    case True
    have "at_attempt b \<le> r_attempts row + 1"
      using that known [of b] True atts by (auto simp: at_key_def)
    then show ?thesis using True f [of row] rows pos [OF that] by (intro bexI [of _ "f row"]) auto
  next
    case False
    then have "b \<in> set (t_attempts d)" using that atts by (auto simp: at_key_def)
    with ok obtain r where "r \<in> set (t_jobs d)" "r_id r = at_job_id b" "at_attempt b \<le> r_attempts r"
      by (auto simp: attempts_ok_def)
    then show ?thesis using False rows pos [OF that] by auto
  qed
  show "int (count_where (\<lambda>k. fst k = r_id r) (map at_key (t_attempts d'))) = r_attempts r"
    if "r \<in> set (t_jobs d')" for r
  proof -
    have old: "int (count_where (\<lambda>k. fst k = r_id r) (map at_key (t_attempts d))) = r_attempts r"
      if "r \<in> set (t_jobs d)" for r using ok that by (simp add: attempts_ok_def)
    from that rows consider "r \<in> set (t_jobs d)" "r_id r \<noteq> r_id row" | "r = f row" by blast
    then show ?thesis
    proof cases
      case 1
      then show ?thesis using old [OF 1(1)] atts by simp
    next
      case 2
      then show ?thesis using old [OF row] f [of row] atts by simp
    qed
  qed
qed

lemma Claim_tables_ok:
  assumes ok: "tables_ok d" and cl: "Claim now locked w lease token d = Inr (res, d')"
  shows "tables_ok d'"
  using cl
proof (cases rule: Claim_cases)
  case (claimed row)
  let ?f = "claim_row now lease w token"
  note row = next_claim_SomeD [OF claimed(1)]
  have uk: "unique_keys d" using ok by (simp add: tables_ok_def)
  have jobs: "t_jobs d' = update_where (\<lambda>r. r = row) ?f (t_jobs d)"
    using claimed(3) unique_match [OF uk row(1)] by simp
  have edge: "claim_edge token row (?f row)" using row(2) by (rule claim_row_edge)
  then have same: "same_job row (?f row)" and "row_ok row \<longrightarrow> row_ok (?f row)"
    by (simp_all add: claim_edge_def)
  have same_row: "r \<in> set (t_jobs d) \<Longrightarrow> r = row \<Longrightarrow> same_job r (?f r)" for r
    using same by metis
  have rows: "\<forall>r\<in>set (t_jobs d'). row_ok r"
    using ok \<open>row_ok row \<longrightarrow> row_ok (?f row)\<close> row(1)
    by (auto simp: jobs set_update_where tables_ok_def)
  have "dead_count d' = dead_count d"
  proof (rule dead_count_update_alive [OF jobs])
    show "r_status r \<noteq> StatusDeadLettered \<and> r_status (?f r) \<noteq> StatusDeadLettered" if "r = row" for r
      using that row(2) by (auto simp: claimable_def claim_row_def)
  qed
  then have "dlq_ok d'"
    using ok dlq_count_same [OF claimed(4)] by (simp add: tables_ok_def dlq_ok_def)
  moreover have "attempts_ok d'"
  proof (rule Claim_attempts_ok [OF _ uk row(1) claimed(3) _ claimed(6)])
    show "attempts_ok d" using ok by (simp add: tables_ok_def)
  qed (simp_all add: at_key_def claim_row_def)
  moreover have "results_ok d'"
  proof -
    have "r \<in> set (t_jobs d')" if "r \<in> set (t_jobs d)" "r_status r = StatusCompleted" for r
      using that row(2) by (auto simp: jobs set_update_where claimable_def)
    moreover have "results_ok d" using ok by (simp add: tables_ok_def)
    ultimately show ?thesis unfolding results_ok_def claimed(5) by metis
  qed
  moreover have "unique_keys d'"
    using unique_keys_update [OF jobs same_row] uk by metis
  moreover have "roots_ok d'"
    using roots_ok_update [OF jobs same_row] ok unfolding tables_ok_def by metis
  ultimately show ?thesis using rows by (simp add: tables_ok_def)
qed (use ok in simp)

lemma Heartbeat_effect:
  assumes "Heartbeat now v lease d = (owned, d')"
  shows "t_jobs d' = update_where (\<lambda>r. lease_held v r \<and> r_cancel_requested_at r = None)
      (\<lambda>r. r\<lparr>r_locked_until := Some (now + lease), r_heartbeat_at := Some now\<rparr>) (t_jobs d)"
    "t_attempts d' = t_attempts d" "t_results d' = t_results d" "t_dlq d' = t_dlq d"
  using assms by (auto simp: Heartbeat_def Let_def)

lemma Heartbeat_edge:
  "lease_held v r \<and> r_cancel_requested_at r = None \<Longrightarrow>
   job_edge r (r\<lparr>r_locked_until := Some t, r_heartbeat_at := Some u\<rparr>)"
  by (rule heartbeat_edge) (simp add: lease_held_def)

lemma Heartbeat_tables_ok:
  assumes ok: "tables_ok d" and hb: "Heartbeat now v lease d = (owned, d')"
  shows "tables_ok d'"
proof (rule tables_ok_update [OF ok Heartbeat_effect(1) [OF hb] Heartbeat_edge [of v]])
  have "dead_count d' = dead_count d"
    by (rule dead_count_update_alive [OF Heartbeat_effect(1) [OF hb]]) (simp add: lease_held_def)
  then show "dlq_count d' i + dead_count d i = dlq_count d i + dead_count d' i" for i
    using dlq_count_same [OF Heartbeat_effect(4) [OF hb]] by simp
qed (use Heartbeat_effect [OF hb] in simp_all)

section \<open>Completion and failure\<close>

lemma finalize_step:
  assumes "if b then finalizeRoot ext now root d = Inr d' else d' = d"
  shows "evolves d d'" and "tables_ok d \<Longrightarrow> tables_ok d'"
  using assms finalizeRoot_evolves finalizeRoot_tables_ok by (cases b; auto intro: evolves_same)+

lemma lease_held_row:
  assumes "lease_agrees d v" and "r \<in> set (t_jobs d)" and "lease_held v r"
  shows "r_id r = ID v" "r_status r = StatusRunning" "r_attempts r = Attempts v"
    "r_max_attempts r = MaxAttempts v" "r_root_job_id r = RootJobID v"
  using assms by (auto simp: lease_agrees_def lease_held_def)

lemma complete_edge:
  assumes "lease_agrees d v" and "r \<in> set (t_jobs d)" and "lease_held v r"
  shows "job_edge r (complete_row now (complete_status v res) r)"
  using lease_held_row [OF assms] by (intro complete_row_edge) (auto simp: complete_status_def)

lemma fail_edge:
  assumes "lease_agrees d v" and "r \<in> set (t_jobs d)" and "lease_held v r"
  shows "job_edge r (fail_row now (fail_status v kind) retryAt kind msg r)"
  using lease_held_row [OF assms] by (intro fail_row_edge)

lemma map_at_key_update:
  "(\<And>a. at_job_id (f a) = at_job_id a \<and> at_attempt (f a) = at_attempt a) \<Longrightarrow>
   map at_key (update_where p f xs) = map at_key xs"
  by (intro map_update_where) (simp add: at_key_def)

lemma tables_ok_results:
  assumes "tables_ok d" "t_jobs d' = t_jobs d" "t_attempts d' = t_attempts d"
    "t_dlq d' = t_dlq d" "results_ok d'"
  shows "tables_ok d'"
  using assms
  by (simp add: tables_ok_def unique_keys_def dlq_ok_def dlq_count_def dead_count_def
      attempts_ok_def roots_ok_def has_job_iff)

lemma Complete_evolves:
  assumes com: "Complete ext now newID v res d = Inr d'"
    and max: "\<forall>c\<in>set (Children res). 0 \<le> SubMaxAttempts c" and agrees: "lease_agrees d v"
  shows "evolves d d'"
proof -
  obtain d3 d6 where
    ins: "only_inserts (RootJobID v)
       (d\<lparr>t_jobs := update_where (lease_held v) (complete_row now (complete_status v res)) (t_jobs d),
          t_attempts := update_where
            (\<lambda>a. at_job_id a = ID v \<and> at_attempt a = Attempts v \<and> at_lease_token a = LeaseToken v)
            (\<lambda>a. a\<lparr>at_status := ''completed'', at_finished_at := Some now\<rparr>) (t_attempts d)\<rparr>) d3"
    and d6: "t_jobs d6 = t_jobs d3"
    and fin: "if complete_status v res = StatusCompleted \<and> ID v \<noteq> RootJobID v
     then finalizeRoot ext now (RootJobID v) d6 = Inr d' else d' = d6"
    by (rule Complete_effect [OF com max])
  let ?d1 = "d\<lparr>t_jobs := update_where (lease_held v) (complete_row now (complete_status v res)) (t_jobs d)\<rparr>"
  have "evolves d ?d1"
    using complete_edge [OF agrees]
    by (intro evolves_update [where p = "lease_held v" and f = "complete_row now (complete_status v res)"]) simp_all
  moreover from ins obtain news where "t_jobs d6 = t_jobs ?d1 @ news" "\<forall>r\<in>set news. fresh_row r"
    unfolding only_inserts_def d6 by auto
  then have "evolves ?d1 d6" by (intro evolves_insert) auto
  ultimately show ?thesis using finalize_step(1) [OF fin] evolves_trans by blast
qed

lemma held_root:
  assumes ok: "tables_ok d" and agrees: "lease_agrees d v"
    and "count_where (lease_held v) (t_jobs d) = 1"
  obtains r where "r \<in> set (t_jobs d)" "lease_held v r" "has_job d (RootJobID v)"
proof -
  from assms(3) obtain r where r: "r \<in> set (t_jobs d)" "lease_held v r"
    using count_where_pos_iff [of "lease_held v" "t_jobs d"] by auto
  moreover have "has_job d (r_root_job_id r)"
    using ok r(1) by (simp add: tables_ok_def roots_ok_def)
  ultimately show ?thesis using that lease_held_row(5) [OF agrees r] by simp
qed

lemma has_job_update:
  assumes "t_jobs d' = update_where p f (t_jobs d)"
    and "\<And>r. r \<in> set (t_jobs d) \<Longrightarrow> p r \<Longrightarrow> r_id (f r) = r_id r"
  shows "has_job d' i = has_job d i"
proof -
  have "map r_id (t_jobs d') = map r_id (t_jobs d)"
    unfolding assms(1) using assms(2) by (rule map_update_where)
  then have "r_id ` set (t_jobs d') = r_id ` set (t_jobs d)" by (metis set_map)
  then show ?thesis by (simp add: has_job_iff)
qed

lemma complete_rows_ok:
  assumes ok: "tables_ok d" and agrees: "lease_agrees d v"
  shows "tables_ok (d\<lparr>t_jobs := update_where (lease_held v) (complete_row now (complete_status v res)) (t_jobs d),
          t_attempts := update_where
            (\<lambda>a. at_job_id a = ID v \<and> at_attempt a = Attempts v \<and> at_lease_token a = LeaseToken v)
            (\<lambda>a. a\<lparr>at_status := ''completed'', at_finished_at := Some now\<rparr>) (t_attempts d)\<rparr>)"
    (is "tables_ok ?d1")
proof (rule tables_ok_update [OF ok])
  show jobs: "t_jobs ?d1 = update_where (lease_held v) (complete_row now (complete_status v res)) (t_jobs d)"
    by simp
  have "dead_count ?d1 = dead_count d"
    by (rule dead_count_update_alive [OF jobs])
      (simp add: lease_held_def complete_row_def complete_status_def)
  moreover have "dlq_count ?d1 = dlq_count d" by (rule dlq_count_same) simp
  ultimately show "dlq_count ?d1 i + dead_count d i = dlq_count d i + dead_count ?d1 i" for i
    by simp
  show "map at_key (t_attempts ?d1) = map at_key (t_attempts d)"
    by (simp add: map_at_key_update)
qed (use complete_edge [OF agrees] in simp_all)

lemma Complete_tables_ok:
  assumes com: "Complete ext now newID v res d = Inr d'"
    and max: "\<forall>c\<in>set (Children res). 0 \<le> SubMaxAttempts c"
    and agrees: "lease_agrees d v" and ok: "tables_ok d"
  shows "tables_ok d'"
proof -
  let ?st = "complete_status v res"
  define d1 where "d1 = d\<lparr>t_jobs := update_where (lease_held v) (complete_row now ?st) (t_jobs d),
          t_attempts := update_where
            (\<lambda>a. at_job_id a = ID v \<and> at_attempt a = Attempts v \<and> at_lease_token a = LeaseToken v)
            (\<lambda>a. a\<lparr>at_status := ''completed'', at_finished_at := Some now\<rparr>) (t_attempts d)\<rparr>"
  obtain d3 d6 where one: "count_where (lease_held v) (t_jobs d) = 1"
    and ins: "only_inserts (RootJobID v) d1 d3"
    and d6: "t_jobs d6 = t_jobs d3" "t_attempts d6 = t_attempts d3" "t_dlq d6 = t_dlq d3"
    and res: "t_results d6 = t_results d3 \<or>
       (?st = StatusCompleted \<and>
        (\<exists>d4. insert_result ext (ID v) (Result res) d3 = Inr d4 \<and> t_results d6 = t_results d4))"
    and fin: "if ?st = StatusCompleted \<and> ID v \<noteq> RootJobID v
     then finalizeRoot ext now (RootJobID v) d6 = Inr d' else d' = d6"
    unfolding d1_def by (rule Complete_effect [OF com max])
  from held_root [OF ok agrees one] obtain r where r: "r \<in> set (t_jobs d)" "lease_held v r"
    and root: "has_job d (RootJobID v)" .
  from complete_rows_ok [OF ok agrees] have ok1: "tables_ok d1" unfolding d1_def .
  have jobs1: "t_jobs d1 = update_where (lease_held v) (complete_row now ?st) (t_jobs d)"
    by (simp add: d1_def)
  from ins have "\<exists>news. t_jobs d3 = t_jobs d1 @ news \<and> (\<forall>r\<in>set news. fresh_row r \<and> r_root_job_id r = RootJobID v)"
    and same3: "t_attempts d3 = t_attempts d1" "t_results d3 = t_results d1" "t_dlq d3 = t_dlq d1"
    and uk3: "unique_keys d3"
    using ok1 by (simp_all add: only_inserts_def tables_ok_def)
  then obtain news where news: "t_jobs d3 = t_jobs d1 @ news"
      "\<And>r. r \<in> set news \<Longrightarrow> fresh_row r \<and> r_root_job_id r = RootJobID v" by metis
  have "has_job d1 (RootJobID v)"
    using root has_job_update [OF jobs1] by (simp add: complete_row_def clear_lease_def)
  then have "has_job d3 (RootJobID v)" using news(1) by (simp add: has_job_def)
  then have ok3: "tables_ok d3"
    by (intro tables_ok_insert [OF ok1 news(1) uk3]) (use news(2) same3 in simp_all)
  have "results_ok d6"
  proof (cases "t_results d6 = t_results d3")
    case True
    then show ?thesis using ok3 d6(1) by (simp add: tables_ok_def results_ok_def)
  next
    case False
    with res obtain d4 where st: "?st = StatusCompleted"
      and d4: "insert_result ext (ID v) (Result res) d3 = Inr d4" "t_results d6 = t_results d4" by blast
    have "complete_row now ?st r \<in> set (t_jobs d3)"
      using r by (auto simp: news(1) jobs1 set_update_where)
    then have "results_ok d4"
    proof (rule insert_result_ok [OF d4(1), rotated])
      show "results_ok d3" using ok3 by (simp add: tables_ok_def)
    qed (use st lease_held_row(1) [OF agrees r] in \<open>simp_all add: complete_row_def clear_lease_def\<close>)
    then show ?thesis
      using d4(2) d6(1) insert_result_frame(1) [OF d4(1)] by (simp add: results_ok_def)
  qed
  with ok3 d6 have "tables_ok d6" by (rule tables_ok_results)
  with finalize_step(2) [OF fin] show ?thesis .
qed

text \<open>One running row moves to \<open>st\<close>, with a DLQ entry exactly when that is dead-lettering.\<close>

lemma tables_ok_move_one:
  assumes ok: "tables_ok d" and jobs: "t_jobs d' = update_where p f (t_jobs d)"
    and one: "count_where p (t_jobs d) = 1"
    and p: "\<And>r. r \<in> set (t_jobs d) \<Longrightarrow> p r \<Longrightarrow>
      r_id r = i0 \<and> r_status r = StatusRunning \<and> r_status (f r) = st \<and> job_edge r (f r)"
    and atts: "map at_key (t_attempts d') = map at_key (t_attempts d)"
    and res: "t_results d' = t_results d"
    and dlq: "if st = StatusDeadLettered
      then \<exists>e. t_dlq d' = t_dlq d @ [e] \<and> dl_job_id e = i0 else t_dlq d' = t_dlq d"
  shows "tables_ok d'"
proof (rule tables_ok_update [OF ok jobs _ atts res])
  show "job_edge r (f r)" if "r \<in> set (t_jobs d)" "p r" for r using p [OF that] by simp
  fix i
  have dead: "dead_count d' i = dead_count d i + (if i = i0 \<and> st = StatusDeadLettered then 1 else 0)"
  proof (rule dead_count_update_one [OF jobs one])
    fix r assume "r \<in> set (t_jobs d)" "p r"
    from p [OF this] show
      "r_id r = i0 \<and> r_status r \<noteq> StatusDeadLettered \<and> r_id (f r) = r_id r \<and> r_status (f r) = st"
      by (simp add: job_edge_def same_job_def)
  qed
  show "dlq_count d' i + dead_count d i = dlq_count d i + dead_count d' i"
  proof (cases "st = StatusDeadLettered")
    case True
    with dlq obtain e where "t_dlq d' = t_dlq d @ [e]" "dl_job_id e = i0" by auto
    then show ?thesis using dead True dlq_count_insert [of d' d e i] by auto
  next
    case False
    then show ?thesis using dead dlq dlq_count_same [of d' d] by simp
  qed
qed

lemma Fail_step:
  assumes fail: "Fail ext now v kind msg retryAt d = Inr d'" and agrees: "lease_agrees d v"
  shows "evolves d d'" and "tables_ok d \<Longrightarrow> tables_ok d'"
proof -
  let ?st = "fail_status v kind" and ?f = "fail_row now (fail_status v kind) retryAt kind (boundedError msg)"
  obtain d4 where one: "count_where (lease_held v) (t_jobs d) = 1"
    and jobs: "t_jobs d4 = update_where (lease_held v) ?f (t_jobs d)"
    and atts: "map (\<lambda>a. (at_job_id a, at_attempt a)) (t_attempts d4) =
       map (\<lambda>a. (at_job_id a, at_attempt a)) (t_attempts d)"
    and res: "t_results d4 = t_results d"
    and dlq: "if ?st = StatusDeadLettered
     then \<exists>e. t_dlq d4 = t_dlq d @ [e] \<and> dl_job_id e = ID v else t_dlq d4 = t_dlq d"
    and fin: "if ?st \<noteq> StatusRetryScheduled \<and> ID v \<noteq> RootJobID v
     then finalizeRoot ext now (RootJobID v) d4 = Inr d' else d' = d4"
    by (rule Fail_effect [OF fail])
  have edge: "job_edge r (?f r)" if "r \<in> set (t_jobs d)" "lease_held v r" for r
    by (rule fail_edge [OF agrees that])
  show "evolves d d'"
    using evolves_update [OF jobs edge] finalize_step(1) [OF fin] by (rule evolves_trans)
  assume ok: "tables_ok d"
  have "tables_ok d4"
    by (rule tables_ok_move_one [OF ok jobs one _ _ res dlq])
      (use edge atts in \<open>simp_all add: lease_held_def fail_row_def at_key_def [abs_def]\<close>)
  then show "tables_ok d'" by (rule finalize_step(2) [OF fin])
qed

section \<open>Cancellation\<close>

definition idle_row :: "job_row \<Rightarrow> bool" where
  "idle_row r \<longleftrightarrow> r_status r \<in> {StatusPending, StatusRetryScheduled, StatusWaiting}"

lemma cancel_updates_step:
  assumes "cancel_updates now v (t_jobs d) = Some rows" and "unique_keys d" and "v \<in> set (t_jobs d)"
  obtains p q where
    "rows = update_where q (request_cancel now) (update_where p (cancel_row now) (t_jobs d))"
    "\<forall>r\<in>set (t_jobs d). p r \<longrightarrow> idle_row r"
    "\<forall>r\<in>set (update_where p (cancel_row now) (t_jobs d)). q r \<longrightarrow> r_status r = StatusRunning"
proof -
  let ?same = "\<lambda>r. r_id r = r_id v" and ?none = "\<lambda>r :: job_row. False"
  have v: "r_status r = r_status v" if "r \<in> set (t_jobs d)" "?same r" for r
    using unique_row [OF assms(2) that(1) assms(3) that(2)] by simp
  have none: "update_where ?none f xs = xs" for f and xs :: "job_row list"
    by (simp add: update_where_def)
  consider "r_status v \<in> {StatusPending, StatusRetryScheduled}"
    "rows = update_where ?same (cancel_row now) (t_jobs d)"
    | "r_status v = StatusRunning" "rows = update_where ?same (request_cancel now) (t_jobs d)"
    | "rows = update_where (\<lambda>r. r_root_job_id r = r_root_job_id v \<and> r_status r = StatusRunning)
                  (request_cancel now)
                 (update_where (\<lambda>r. r_root_job_id r = r_root_job_id v \<and>
                      r_status r \<in> {StatusPending, StatusRetryScheduled, StatusWaiting})
                    (cancel_row now) (t_jobs d))"
    using assms(1) by (cases "r_status v") (auto simp: cancel_updates_def)
  then show ?thesis
  proof cases
    case 1
    then show ?thesis using v by (intro that [of ?none ?same]) (auto simp: none idle_row_def)
  next
    case 2
    then show ?thesis using v by (intro that [of ?same ?none]) (auto simp: none)
  next
    case 3
    then show ?thesis by (rule that) (auto simp: idle_row_def)
  qed
qed

lemma Cancel_effect:
  assumes "Cancel now i d = Inr (j, d')"
  obtains (noop) "d' = d"
  | (updated) v where "v \<in> set (t_jobs d)" "r_id v = i" "cancel_updates now v (t_jobs d) = Some (t_jobs d')"
      "t_attempts d' = t_attempts d" "t_results d' = t_results d" "t_dlq d' = t_dlq d"
proof -
  from assms obtain v where v: "job_by_id d i = Some v" by (cases "job_by_id d i") (auto simp: Cancel_def)
  show ?thesis
  proof (cases "r_status v = StatusCancelled")
    case True
    with assms v have "d' = d" by (simp add: Cancel_def)
    then show ?thesis by (rule noop)
  next
    case False
    with assms v obtain rows where rows: "cancel_updates now v (t_jobs d) = Some rows"
      by (cases "cancel_updates now v (t_jobs d)") (auto simp: Cancel_def)
    with assms v False obtain d2 d3 where
      2: "insert_event now i ''cancellation_requested'' None None NoDetails (d\<lparr>t_jobs := rows\<rparr>) = Inr d2"
      and 3: "(if r_status v \<noteq> StatusRunning then insert_event now i ''cancelled'' None None NoDetails d2
              else Inr d2) = Inr d3"
      and 4: "d' = d3"
      by (auto simp: Cancel_def Let_def bindE_eq_Inr split: option.splits split del: if_split)
    have "t_jobs d' = rows \<and> t_attempts d' = t_attempts d \<and> t_results d' = t_results d \<and> t_dlq d' = t_dlq d"
      using 3 4 insert_event_frame [OF 2]
        insert_event_frame [of now i "''cancelled''" None None NoDetails d2 d3]
      by (cases "r_status v \<noteq> StatusRunning") simp_all
    then show ?thesis using job_by_id_SomeD [OF v] rows by (intro updated) auto
  qed
qed

lemma Cancel_step:
  assumes can: "Cancel now i d = Inr (j, d')" and ok: "tables_ok d"
  shows "evolves d d' \<and> tables_ok d'"
  using can
proof (cases rule: Cancel_effect)
  case (updated v)
  from ok have uk: "unique_keys d" by (simp add: tables_ok_def)
  obtain p q where
    rows: "t_jobs d' = update_where q (request_cancel now) (update_where p (cancel_row now) (t_jobs d))"
    and p: "\<forall>r\<in>set (t_jobs d). p r \<longrightarrow> idle_row r"
    and q: "\<forall>r\<in>set (update_where p (cancel_row now) (t_jobs d)). q r \<longrightarrow> r_status r = StatusRunning"
    by (rule cancel_updates_step [OF updated(3) uk updated(1)])
  define d1 where "d1 = d\<lparr>t_jobs := update_where p (cancel_row now) (t_jobs d)\<rparr>"
  have jobs1: "t_jobs d1 = update_where p (cancel_row now) (t_jobs d)"
    and same1: "t_attempts d1 = t_attempts d" "t_results d1 = t_results d" "t_dlq d1 = t_dlq d"
    by (simp_all add: d1_def)
  have jobs2: "t_jobs d' = update_where q (request_cancel now) (t_jobs d1)" using rows jobs1 by simp
  have e1: "job_edge r (cancel_row now r)" if "r \<in> set (t_jobs d)" "p r" for r
    using p that by (intro cancel_row_edge) (simp add: idle_row_def)
  have e2: "job_edge r (request_cancel now r)" if "r \<in> set (t_jobs d1)" "q r" for r
    using q that jobs1 by (intro request_cancel_edge) simp
  have dead1: "dead_count d1 = dead_count d"
    using p by (intro dead_count_update_alive [OF jobs1]) (auto simp: idle_row_def cancel_row_def)
  have dead2: "dead_count d' = dead_count d1"
    using q jobs1 by (intro dead_count_update_alive [OF jobs2]) (simp add: request_cancel_def)
  have ok1: "tables_ok d1"
    by (rule tables_ok_update [OF ok jobs1 e1])
      (use same1 dead1 dlq_count_same [OF same1(3)] in simp_all)
  have "tables_ok d'"
    by (rule tables_ok_update [OF ok1 jobs2 e2])
      (use same1 updated(4-6) dead2 dlq_count_same [of d' d1] in simp_all)
  then show ?thesis
    using evolves_trans [OF evolves_update [OF jobs1 e1] evolves_update [OF jobs2 e2]] by blast
qed (use ok in \<open>simp add: evolves_same\<close>)

section \<open>Recovery\<close>

lemma reclaim_one_step:
  assumes rec: "reclaim_one ext now (scanServiceJob r) d = Inr d'" and ok: "tables_ok d"
    and r: "r \<in> set (t_jobs d)" "r_status r = StatusRunning"
  shows "evolves d d'" and "tables_ok d'"
    and "reclaim_row now (reclaim_status (scanServiceJob r)) r \<in> set (t_jobs d')"
    and "\<And>x. x \<in> set (t_jobs d) \<Longrightarrow> r_id x \<noteq> r_id r \<Longrightarrow> r_status x \<noteq> StatusWaiting \<Longrightarrow> x \<in> set (t_jobs d')"
proof -
  let ?v = "scanServiceJob r" and ?f = "reclaim_row now (reclaim_status (scanServiceJob r))"
  have id: "ID ?v = r_id r" by (simp add: scanServiceJob_def)
  from ok have uk: "unique_keys d" by (simp add: tables_ok_def)
  obtain d4 where jobs0: "t_jobs d4 = update_where (\<lambda>x. r_id x = ID ?v) ?f (t_jobs d)"
    and atts: "map (\<lambda>a. (at_job_id a, at_attempt a)) (t_attempts d4) =
       map (\<lambda>a. (at_job_id a, at_attempt a)) (t_attempts d)"
    and res: "t_results d4 = t_results d"
    and dlq: "if reclaim_status ?v = StatusDeadLettered
     then \<exists>e. t_dlq d4 = t_dlq d @ [e] \<and> dl_job_id e = ID ?v else t_dlq d4 = t_dlq d"
    and fin: "if terminal (reclaim_status ?v) \<and> ID ?v \<noteq> RootJobID ?v
     then finalizeRoot ext now (RootJobID ?v) d4 = Inr d' else d' = d4"
    by (rule reclaim_one_effect [OF rec])
  have jobs: "t_jobs d4 = update_where (\<lambda>x. r_id x = r_id r) ?f (t_jobs d)" using jobs0 id by simp
  have p: "x = r" if "x \<in> set (t_jobs d)" "r_id x = r_id r" for x
    using unique_row [OF uk that(1) r(1) that(2)] .
  have edge: "job_edge x (?f x)" if "x \<in> set (t_jobs d)" "r_id x = r_id r" for x
    using p [OF that] r(2) by (auto intro: reclaim_row_edge)
  show "evolves d d'"
    using evolves_update [OF jobs edge] finalize_step(1) [OF fin] by (rule evolves_trans)
  have "tables_ok d4"
  proof (rule tables_ok_move_one [OF ok jobs one_match [OF uk r(1)] _ _ res dlq])
    fix x assume "x \<in> set (t_jobs d)" "r_id x = r_id r"
    from edge [OF this] p [OF this] r(2) id show
      "r_id x = ID ?v \<and> r_status x = StatusRunning \<and> r_status (?f x) = reclaim_status ?v \<and> job_edge x (?f x)"
      by (simp add: reclaim_row_def)
  qed (use atts in \<open>simp add: at_key_def [abs_def]\<close>)
  then show "tables_ok d'" by (rule finalize_step(2) [OF fin])
  have keep: "x \<in> set (t_jobs d')" if "x \<in> set (t_jobs d4)" "r_status x \<noteq> StatusWaiting" for x
    using fin that finalizeRoot_keeps [of ext now _ d4 d' x] by (auto split: if_splits)
  have "?f r \<in> set (t_jobs d4)" using r(1) by (auto simp: jobs set_update_where)
  then show "?f r \<in> set (t_jobs d')"
    by (rule keep) (simp add: reclaim_row_def reclaim_status_def)
  show "x \<in> set (t_jobs d')"
    if "x \<in> set (t_jobs d)" "r_id x \<noteq> r_id r" "r_status x \<noteq> StatusWaiting" for x
    using that by (intro keep) (auto simp: jobs set_update_where)
qed

lemma reclaim_fold:
  assumes "foldE (reclaim_one ext now) (map scanServiceJob rs) d = Inr d'" and "tables_ok d"
    and "set rs \<subseteq> set (t_jobs d)" and "distinct (map r_id rs)" and "\<forall>r\<in>set rs. r_status r = StatusRunning"
  shows "evolves d d' \<and> tables_ok d' \<and>
    (\<forall>r\<in>set rs. reclaim_row now (reclaim_status (scanServiceJob r)) r \<in> set (t_jobs d')) \<and>
    (\<forall>x\<in>set (t_jobs d). r_id x \<notin> r_id ` set rs \<and> r_status x \<noteq> StatusWaiting \<longrightarrow> x \<in> set (t_jobs d'))"
  using assms
proof (induction rs arbitrary: d)
  case Nil
  then show ?case by (simp add: evolves_same)
next
  case (Cons r rs)
  let ?f = "\<lambda>r. reclaim_row now (reclaim_status (scanServiceJob r)) r"
  from Cons.prems(1) obtain d1 where d1: "reclaim_one ext now (scanServiceJob r) d = Inr d1"
    and rest: "foldE (reclaim_one ext now) (map scanServiceJob rs) d1 = Inr d'"
    by (auto simp: bindE_simps)
  have r: "r \<in> set (t_jobs d)" "r_status r = StatusRunning" using Cons.prems(3,5) by simp_all
  note one = reclaim_one_step [OF d1 Cons.prems(2) r]
  have sub: "set rs \<subseteq> set (t_jobs d1)"
  proof
    fix x assume x: "x \<in> set rs"
    then have "r_id x \<noteq> r_id r" using Cons.prems(4) by (metis image_eqI distinct.simps(2) list.simps(9) set_map)
    with x Cons.prems(3,5) show "x \<in> set (t_jobs d1)" by (intro one(4)) auto
  qed
  have IH: "evolves d1 d' \<and> tables_ok d' \<and> (\<forall>r\<in>set rs. ?f r \<in> set (t_jobs d')) \<and>
    (\<forall>x\<in>set (t_jobs d1). r_id x \<notin> r_id ` set rs \<and> r_status x \<noteq> StatusWaiting \<longrightarrow> x \<in> set (t_jobs d'))"
    using Cons.prems(4,5) by (intro Cons.IH [OF rest one(2) sub]) simp_all
  have "r_id (?f r) = r_id r" "r_status (?f r) \<noteq> StatusWaiting"
    by (simp_all add: reclaim_row_def clear_lease_def reclaim_status_def)
  moreover have "r_id r \<notin> r_id ` set rs" using Cons.prems(4) by simp
  ultimately have "?f r \<in> set (t_jobs d')" using IH one(3) by metis
  moreover have "x \<in> set (t_jobs d')"
    if "x \<in> set (t_jobs d)" "r_id x \<notin> r_id ` set (r # rs)" "r_status x \<noteq> StatusWaiting" for x
    using IH one(4) [OF that(1)] that by simp
  ultimately show ?case using IH evolves_trans [OF one(1)] by simp
qed

lemma ReclaimExpired_step:
  assumes "ReclaimExpired ext now locked d = Inr (n, d')" and ok: "tables_ok d"
  defines "found \<equiv> filter (\<lambda>r. expired now r \<and> \<not> locked (r_id r)) (t_jobs d)"
  shows "evolves d d'" and "tables_ok d'" and "n = length found"
    and "r \<in> set found \<Longrightarrow> reclaim_row now (reclaim_status (scanServiceJob r)) r \<in> set (t_jobs d')"
    and "x \<in> set (t_jobs d) \<Longrightarrow> x \<notin> set found \<Longrightarrow> r_status x \<noteq> StatusWaiting \<Longrightarrow> x \<in> set (t_jobs d')"
proof -
  from assms have fold: "foldE (reclaim_one ext now) (map scanServiceJob found) d = Inr d'"
    and n: "n = length found"
    by (auto simp: ReclaimExpired_def Let_def bindE_simps found_def)
  have uk: "distinct (map r_id (t_jobs d))" using ok by (simp add: tables_ok_def unique_keys_def)
  have found: "set found \<subseteq> set (t_jobs d)" "\<forall>r\<in>set found. r_status r = StatusRunning"
    by (auto simp: found_def expired_def)
  have dist: "distinct (map r_id found)" unfolding found_def using uk by (rule distinct_map_filter)
  note all = reclaim_fold [OF fold ok found(1) dist found(2)]
  show "evolves d d'" "tables_ok d'" "n = length found" using all n by simp_all
  show "r \<in> set found \<Longrightarrow> reclaim_row now (reclaim_status (scanServiceJob r)) r \<in> set (t_jobs d')"
    using all by simp
  show "x \<in> set (t_jobs d) \<Longrightarrow> x \<notin> set found \<Longrightarrow> r_status x \<noteq> StatusWaiting \<Longrightarrow> x \<in> set (t_jobs d')"
  proof -
    assume x: "x \<in> set (t_jobs d)" "x \<notin> set found" "r_status x \<noteq> StatusWaiting"
    then have "r_id x \<notin> r_id ` set found"
      using found(1) distinct_map_key_eq [OF uk] by (metis imageE subsetD)
    with all x show ?thesis by simp
  qed
qed

end
