(* ===== verification/Store_System.thy ===== *)
theory Store_System
  imports Store_Tables
begin

text \<open>
  The store together with the workers' copies of claimed jobs, as a step relation: every
  method of \<^verbatim>\<open>Store\<close> that writes is one rule, guarded the way its callers guard it (the
  HTTP layer refuses a negative \<open>maxAttempts\<close>, workers complete or fail only jobs that a
  claim returned, a fresh lease token has not been issued before). Every rule keeps the
  invariants of theory Store\_Invariants; the locale \<open>lease_protocol\<close> states what fencing by
  lease tokens gives a worker, and is interpreted on the store.
\<close>

section \<open>The system\<close>

record sys =
  s_db :: db
  s_leases :: "job list"

definition init_sys :: sys where
  "init_sys = \<lparr>s_db = empty_db, s_leases = []\<rparr>"

inductive sys_step :: "externals \<Rightarrow> sys \<Rightarrow> sys \<Rightarrow> bool" for ext where
  submit: "0 \<le> SubMaxAttempts sub \<Longrightarrow> SubRootJobID sub = [] \<Longrightarrow>
    Submit ext now newID sub (s_db s) = Inr (j, created, d') \<Longrightarrow> sys_step ext s (s\<lparr>s_db := d'\<rparr>)"
| claim: "token \<notin> LeaseToken ` set (s_leases s) \<Longrightarrow>
    Claim now locked w lease token (s_db s) = Inr (Some j, d') \<Longrightarrow>
    sys_step ext s (s\<lparr>s_db := d', s_leases := j # s_leases s\<rparr>)"
| heartbeat: "v \<in> set (s_leases s) \<Longrightarrow> Heartbeat now v lease (s_db s) = (owned, d') \<Longrightarrow>
    sys_step ext s (s\<lparr>s_db := d'\<rparr>)"
| complete: "v \<in> set (s_leases s) \<Longrightarrow> \<forall>c\<in>set (Children res). 0 \<le> SubMaxAttempts c \<Longrightarrow>
    Complete ext now newIDs v res (s_db s) = Inr d' \<Longrightarrow> sys_step ext s (s\<lparr>s_db := d'\<rparr>)"
| fail: "v \<in> set (s_leases s) \<Longrightarrow> Fail ext now v kind msg retryAt (s_db s) = Inr d' \<Longrightarrow>
    sys_step ext s (s\<lparr>s_db := d'\<rparr>)"
| cancel: "Cancel now i (s_db s) = Inr (j, d') \<Longrightarrow> sys_step ext s (s\<lparr>s_db := d'\<rparr>)"
| retry: "0 \<le> maxAttempts \<Longrightarrow> Retry ext now newID i maxAttempts (s_db s) = Inr (j, d') \<Longrightarrow>
    sys_step ext s (s\<lparr>s_db := d'\<rparr>)"
| replay: "0 \<le> maxAttempts \<Longrightarrow> ReplayDLQ ext now newID entryID maxAttempts (s_db s) = Inr (j, d') \<Longrightarrow>
    sys_step ext s (s\<lparr>s_db := d'\<rparr>)"
| reclaim: "ReclaimExpired ext now locked (s_db s) = Inr (n, d') \<Longrightarrow> sys_step ext s (s\<lparr>s_db := d'\<rparr>)"
| register: "sys_step ext s (s\<lparr>s_db := RegisterWorker now w (s_db s)\<rparr>)"
| worker_heartbeat: "sys_step ext s (s\<lparr>s_db := WorkerHeartbeat now w (s_db s)\<rparr>)"

inductive reachable :: "externals \<Rightarrow> sys \<Rightarrow> bool" for ext where
  start: "reachable ext init_sys"
| step: "reachable ext s \<Longrightarrow> sys_step ext s t \<Longrightarrow> reachable ext t"

definition sys_ok :: "sys \<Rightarrow> bool" where
  "sys_ok s \<longleftrightarrow> tables_ok (s_db s) \<and> leases_ok (s_db s) (s_leases s)"

inductive_cases sys_stepE: "sys_step ext s t"

text \<open>How a worker ends an attempt: \<^verbatim>\<open>Complete\<close> or \<^verbatim>\<open>Fail\<close>.\<close>

datatype finish =
    FinishComplete gotime "nat \<Rightarrow> string" handler_result
  | FinishFail gotime error_kind string gotime

fun finish_job :: "externals \<Rightarrow> finish \<Rightarrow> job \<Rightarrow> sys \<Rightarrow> store_error + sys" where
  "finish_job ext (FinishComplete now newIDs res) v s =
     bindE (Complete ext now newIDs v res (s_db s)) (\<lambda>d. Inr (s\<lparr>s_db := d\<rparr>))"
| "finish_job ext (FinishFail now kind msg retryAt) v s =
     bindE (Fail ext now v kind msg retryAt (s_db s)) (\<lambda>d. Inr (s\<lparr>s_db := d\<rparr>))"

fun finish_valid :: "finish \<Rightarrow> bool" where
  "finish_valid (FinishComplete now newIDs res) = (\<forall>c\<in>set (Children res). 0 \<le> SubMaxAttempts c)"
| "finish_valid (FinishFail now kind msg retryAt) = True"

definition holds_lease :: "sys \<Rightarrow> job \<Rightarrow> bool" where
  "holds_lease s v \<longleftrightarrow> (\<exists>r\<in>set (t_jobs (s_db s)). lease_held v r)"

section \<open>The lease protocol\<close>

text \<open>
  What a store that fences by lease tokens promises its workers: a step keeps the
  invariant and never hands back a lease that was lost, two issued leases of one job are
  not held together, and finishing an attempt is refused without the lease and gives it
  up otherwise.
\<close>

locale lease_protocol =
  fixes ok :: "'s \<Rightarrow> bool" and step :: "'s \<Rightarrow> 's \<Rightarrow> bool" and issued :: "'s \<Rightarrow> 'v \<Rightarrow> bool"
    and held :: "'s \<Rightarrow> 'v \<Rightarrow> bool" and job_of :: "'v \<Rightarrow> 'j"
    and valid :: "'c \<Rightarrow> bool" and commit :: "'c \<Rightarrow> 'v \<Rightarrow> 's \<Rightarrow> 'e + 's" and lost :: 'e
  assumes ok_step: "ok s \<Longrightarrow> step s t \<Longrightarrow> ok t"
    and issued_step: "step s t \<Longrightarrow> issued s v \<Longrightarrow> issued t v"
    and no_regain: "ok s \<Longrightarrow> step s t \<Longrightarrow> issued s v \<Longrightarrow> held t v \<Longrightarrow> held s v"
    and exclusive: "ok s \<Longrightarrow> issued s v \<Longrightarrow> issued s w \<Longrightarrow> held s v \<Longrightarrow> held s w \<Longrightarrow>
      job_of v = job_of w \<Longrightarrow> v = w"
    and commit_fenced: "\<not> held s v \<Longrightarrow> commit c v s = Inl lost"
    and commit_releases: "ok s \<Longrightarrow> issued s v \<Longrightarrow> valid c \<Longrightarrow> commit c v s = Inr t \<Longrightarrow>
      step s t \<and> \<not> held t v"
begin

lemma steps_keep:
  "step\<^sup>*\<^sup>* s t \<Longrightarrow> ok s \<Longrightarrow> issued s v \<Longrightarrow> ok t \<and> issued t v \<and> (held t v \<longrightarrow> held s v)"
proof (induction rule: rtranclp_induct)
  case (step t u)
  then show ?case using ok_step issued_step no_regain by blast
qed simp

lemma fenced_forever:
  assumes "ok s" "issued s v" "\<not> held s v" "step\<^sup>*\<^sup>* s t"
  shows "commit c v t = Inl lost"
  using steps_keep [OF assms(4,1,2)] assms(3) by (intro commit_fenced) blast

lemma commit_at_most_once:
  assumes "ok s" "issued s v" "valid c" "commit c v s = Inr t" "step\<^sup>*\<^sup>* t u"
  shows "commit c' v u = Inl lost"
proof -
  have t: "step s t" "\<not> held t v" using commit_releases [OF assms(1-4)] by simp_all
  show ?thesis
    using fenced_forever [OF ok_step [OF assms(1) t(1)] issued_step [OF t(1) assms(2)] t(2) assms(5)] .
qed

lemma one_winner:
  assumes "ok s" "issued s v" "issued s w" "job_of v = job_of w" "v \<noteq> w"
    and "commit c v s = Inr t"
  shows "commit c' w s = Inl lost"
  using assms commit_fenced [of s v c] commit_fenced [of s w c'] exclusive by fastforce

end

section \<open>The store keeps its invariants\<close>

lemma Claim_leases_ok:
  assumes ok: "tables_ok d" and leases: "leases_ok d ls" and fresh: "token \<notin> LeaseToken ` set ls"
    and cl: "Claim now locked w lease token d = Inr (Some j, d')"
  shows "leases_ok d' (j # ls)"
  using cl
proof (cases rule: Claim_cases)
  case (claimed row)
  let ?f = "claim_row now lease w token"
  note row = next_claim_SomeD [OF claimed(1)]
  have uk: "unique_keys d" using ok by (simp add: tables_ok_def)
  have jobs: "t_jobs d' = update_where (\<lambda>r. r = row) ?f (t_jobs d)"
    using claimed(3) unique_match [OF uk row(1)] by simp
  have split: "r = ?f row \<or> r \<in> set (t_jobs d)" if "r \<in> set (t_jobs d')" for r
    using that by (auto simp: jobs set_update_where)
  have j: "j = scanServiceJob (?f row)" using claimed(2) by simp
  have new: "r_lease_token (?f row) = Some token" "LeaseToken j = token"
    by (simp_all add: j claim_row_def scanServiceJob_def coalesce_def)
  have old: "t \<noteq> token" if "r \<in> set (t_jobs d)" "r_lease_token r = Some t" for r t
    using leases fresh that unfolding leases_ok_def by metis
  have "lease_agrees d' v" if v: "v \<in> set ls" for v
    unfolding lease_agrees_def
  proof (intro ballI impI)
    fix r assume r: "r \<in> set (t_jobs d')" "r_lease_token r = Some (LeaseToken v)"
    have "LeaseToken v \<noteq> token" using v fresh by blast
    with r new split have "r \<in> set (t_jobs d)" by fastforce
    with leases v r(2) show "r_id r = ID v \<and> r_locked_by r = Some (LockedBy v) \<and>
        r_attempts r = Attempts v \<and> r_max_attempts r = MaxAttempts v \<and> r_root_job_id r = RootJobID v \<and>
        r_type r = Type v \<and> coalesce (r_payload r) [] = Payload v"
      by (simp add: leases_ok_def lease_agrees_def)
  qed
  moreover have "lease_agrees d' j"
    unfolding lease_agrees_def
  proof (intro ballI impI)
    fix r assume r: "r \<in> set (t_jobs d')" "r_lease_token r = Some (LeaseToken j)"
    then have "r = ?f row" using split old new(2) by blast
    then show "r_id r = ID j \<and> r_locked_by r = Some (LockedBy j) \<and>
        r_attempts r = Attempts j \<and> r_max_attempts r = MaxAttempts j \<and> r_root_job_id r = RootJobID j \<and>
        r_type r = Type j \<and> coalesce (r_payload r) [] = Payload j"
      by (simp add: j scanServiceJob_def claim_row_def coalesce_def)
  qed
  moreover have "t \<in> LeaseToken ` set (j # ls)" if "r \<in> set (t_jobs d')" "r_lease_token r = Some t" for r t
    using split [OF that(1)] that(2) new leases unfolding leases_ok_def by auto
  ultimately show ?thesis using leases fresh new(2) by (simp add: leases_ok_def)
qed (use cl in simp)

text \<open>Every step but a claim evolves the jobs table and issues no lease.\<close>

lemma sys_step_cases:
  assumes ok: "sys_ok s" and step: "sys_step ext s t"
  obtains (quiet) "evolves (s_db s) (s_db t)" "tables_ok (s_db t)" "s_leases t = s_leases s"
  | (claim) now locked w lease token j d' where "token \<notin> LeaseToken ` set (s_leases s)"
      "Claim now locked w lease token (s_db s) = Inr (Some j, d')"
      "t = s\<lparr>s_db := d', s_leases := j # s_leases s\<rparr>"
proof -
  from ok have tok: "tables_ok (s_db s)" and lok: "leases_ok (s_db s) (s_leases s)"
    by (simp_all add: sys_ok_def)
  have agrees: "lease_agrees (s_db s) v" if "v \<in> set (s_leases s)" for v
    using lok that by (simp add: leases_ok_def)
  from step show ?thesis
  proof cases
    case (submit sub now newID j created d')
    then show ?thesis
      by (intro quiet) (use Submit_evolves [OF submit(4)] Submit_tables_ok [OF tok submit(4)] in simp_all)
  next
    case (claim token now locked w lease j d')
    then show ?thesis by (intro that(2))
  next
    case (heartbeat v now lease owned d')
    have "evolves (s_db s) d'"
      using Heartbeat_effect(1) [OF heartbeat(3)] Heartbeat_edge [of v] by (rule evolves_update)
    then show ?thesis
      by (intro quiet) (use heartbeat Heartbeat_tables_ok [OF tok heartbeat(3)] in simp_all)
  next
    case (complete v res now newIDs d')
    then show ?thesis
      by (intro quiet)
        (use Complete_evolves [OF complete(4,3) agrees] Complete_tables_ok [OF complete(4,3) agrees tok]
          in simp_all)
  next
    case (fail v now kind msg retryAt d')
    then show ?thesis
      by (intro quiet) (use Fail_step [OF fail(3) agrees] tok in simp_all)
  next
    case (cancel now i j d')
    then show ?thesis by (intro quiet) (use Cancel_step [OF cancel(2) tok] in simp_all)
  next
    case (retry maxAttempts now newID i j d')
    from retry(3,2) tok obtain sub created where "Submit ext now newID sub (s_db s) = Inr (j, created, d')"
      "0 \<le> SubMaxAttempts sub" by (rule Retry_Submit)
    then have "evolves (s_db s) d'" by (rule Submit_evolves)
    then show ?thesis by (intro quiet) (use retry Retry_tables_ok [OF tok retry(3,2)] in simp_all)
  next
    case (replay maxAttempts now newID entryID j d')
    from replay(3) obtain row d1 where "insert_job row (s_db s) = Inr d1" "t_jobs d' = t_jobs d1"
      "0 \<le> maxAttempts \<longrightarrow> fresh_row row" by (rule ReplayDLQ_effect)
    then have "evolves (s_db s) d'"
      using replay(2) insert_job_frame(1) by (intro evolves_insert [where news = "[row]"]) auto
    then show ?thesis by (intro quiet) (use replay ReplayDLQ_tables_ok [OF tok replay(3,2)] in simp_all)
  next
    case (reclaim now locked n d')
    then show ?thesis by (intro quiet) (use ReclaimExpired_step(1,2) [OF reclaim(2) tok] in simp_all)
  next
    case (register now w)
    then show ?thesis
      using tok by (intro quiet) (auto simp: RegisterWorker_def intro: evolves_same tables_ok_frame)
  next
    case (worker_heartbeat now w)
    then show ?thesis
      using tok by (intro quiet) (auto simp: WorkerHeartbeat_def intro: evolves_same tables_ok_frame)
  qed
qed

lemma sys_ok_step:
  assumes ok: "sys_ok s" and step: "sys_step ext s t"
  shows "sys_ok t"
  using ok step
proof (cases rule: sys_step_cases)
  case quiet
  then show ?thesis using ok evolves_leases_ok by (simp add: sys_ok_def)
next
  case (claim now locked w lease token j d')
  then show ?thesis
    using ok Claim_leases_ok [OF _ _ claim(1,2)] Claim_tables_ok [OF _ claim(2)] by (simp add: sys_ok_def)
qed

lemma reachable_ok: "reachable ext s \<Longrightarrow> sys_ok s"
proof (induction rule: reachable.induct)
  case start
  then show ?case by (simp add: init_sys_def sys_ok_def tables_ok_empty leases_ok_empty)
qed (rule sys_ok_step)

lemma reachable_steps: "(sys_step ext)\<^sup>*\<^sup>* s t \<Longrightarrow> reachable ext s \<Longrightarrow> reachable ext t"
  by (induction rule: rtranclp_induct) (auto intro: reachable.step)

lemmas reachable_tables = reachable_ok [unfolded sys_ok_def, THEN conjunct1]

section \<open>Rows across steps\<close>

lemma step_row:
  assumes "sys_ok s" and "sys_step ext s t" and "r \<in> set (t_jobs (s_db s))"
  shows "\<exists>r'\<in>set (t_jobs (s_db t)). same_job r r' \<and> (terminal (r_status r) \<longrightarrow> r' = r) \<and>
    valid_transition\<^sup>*\<^sup>* (r_status r) (r_status r')"
  using assms(1,2)
proof (cases rule: sys_step_cases)
  case quiet
  from evolves_row [OF quiet(1) assms(3)] obtain r' where "r' \<in> set (t_jobs (s_db t))" "job_edge\<^sup>*\<^sup>* r r'" ..
  then show ?thesis using job_pathD(1,4,6) by blast
next
  case (claim now locked w lease token j d')
  from claim(2) show ?thesis
  proof (cases rule: Claim_cases)
    case (claimed row)
    let ?f = "claim_row now lease w token"
    have uk: "unique_keys (s_db s)" using assms(1) by (simp add: sys_ok_def tables_ok_def)
    show ?thesis
    proof (cases "r_id r = r_id row")
      case True
      then have "r = row" using unique_row [OF uk assms(3) next_claim_SomeD(1) [OF claimed(1)]] by simp
      then have "claim_edge token r (?f r)" using next_claim_SomeD(2) [OF claimed(1)] claim_row_edge by simp
      then have "same_job r (?f r) \<and> (terminal (r_status r) \<longrightarrow> ?f r = r) \<and>
          valid_transition\<^sup>*\<^sup>* (r_status r) (r_status (?f r))" by (auto simp: claim_edge_def)
      moreover have "?f r \<in> set (t_jobs (s_db t))"
        using claim(3) claimed(3) True assms(3) by (auto simp: set_update_where)
      ultimately show ?thesis by blast
    next
      case False
      then have "r \<in> set (t_jobs (s_db t))" using claim(3) claimed(3) assms(3) by (simp add: set_update_where)
      then show ?thesis by (intro bexI [of _ r]) auto
    qed
  qed simp
qed

lemma steps_row:
  assumes "(sys_step ext)\<^sup>*\<^sup>* s t" and "sys_ok s" and "r \<in> set (t_jobs (s_db s))"
  shows "\<exists>r'\<in>set (t_jobs (s_db t)). same_job r r' \<and> (terminal (r_status r) \<longrightarrow> r' = r) \<and>
    valid_transition\<^sup>*\<^sup>* (r_status r) (r_status r') \<and> sys_ok t"
  using assms
proof (induction rule: rtranclp_induct)
  case base
  then show ?case by (intro bexI [of _ r]) auto
next
  case (step t u)
  then obtain r1 where r1: "r1 \<in> set (t_jobs (s_db t))" "same_job r r1" "terminal (r_status r) \<longrightarrow> r1 = r"
      "valid_transition\<^sup>*\<^sup>* (r_status r) (r_status r1)" "sys_ok t" by auto
  from step_row [OF r1(5) step(2) r1(1)] obtain r2 where r2: "r2 \<in> set (t_jobs (s_db u))" "same_job r1 r2"
    "terminal (r_status r1) \<longrightarrow> r2 = r1" "valid_transition\<^sup>*\<^sup>* (r_status r1) (r_status r2)" by blast
  have "same_job r r2" using r1(2) r2(2) by (rule same_job_trans)
  moreover have "terminal (r_status r) \<longrightarrow> r2 = r" using r1(3) r2(3) by auto
  moreover have "valid_transition\<^sup>*\<^sup>* (r_status r) (r_status r2)" using r1(4) r2(4) by simp
  ultimately show ?case using r2(1) sys_ok_step [OF r1(5) step(2)] by blast
qed

section \<open>Fencing\<close>

lemma holds_lease_count:
  assumes "\<not> holds_lease s v"
  shows "count_where (lease_held v) (t_jobs (s_db s)) = 0"
  using assms by (auto simp: holds_lease_def count_where_0_iff)

lemma finish_fenced: "\<not> holds_lease s v \<Longrightarrow> finish_job ext c v s = Inl ErrLeaseLost"
  by (cases c) (simp_all add: holds_lease_count Complete_def Fail_def Let_def)

lemma Complete_row_kept:
  assumes com: "Complete ext now newID v res d = Inr d'"
    and max: "\<forall>c\<in>set (Children res). 0 \<le> SubMaxAttempts c"
    and r: "r \<in> set (t_jobs d)" "lease_held v r"
  shows "complete_row now (complete_status v res) r \<in> set (t_jobs d')"
proof -
  let ?r = "complete_row now (complete_status v res) r"
  obtain d3 d6 where
    ins: "only_inserts (RootJobID v)
       (d\<lparr>t_jobs := update_where (lease_held v) (complete_row now (complete_status v res)) (t_jobs d),
          t_attempts := update_where
            (\<lambda>a. at_job_id a = ID v \<and> at_attempt a = Attempts v \<and> at_lease_token a = LeaseToken v)
            (\<lambda>a. a\<lparr>at_status := ''completed'', at_finished_at := Some now\<rparr>) (t_attempts d)\<rparr>) d3"
    and d6: "t_jobs d6 = t_jobs d3"
    and fin: "if complete_status v res = StatusCompleted \<and> ID v \<noteq> RootJobID v
     then finalizeRoot ext now (RootJobID v) d6 = Inr d' else d' = d6"
    by (rule Complete_effect [OF com max])
  have "?r \<in> set (t_jobs d6)"
    using ins d6 r by (auto simp: only_inserts_def set_update_where)
  then show ?thesis
    using fin finalizeRoot_keeps [of ext now "RootJobID v" d6 d' ?r]
    by (auto simp: complete_row_def split: if_splits)
qed

lemma Fail_row_kept:
  assumes fail: "Fail ext now v kind msg retryAt d = Inr d'"
    and r: "r \<in> set (t_jobs d)" "lease_held v r"
  shows "fail_row now (fail_status v kind) retryAt kind (boundedError msg) r \<in> set (t_jobs d')"
proof -
  let ?f = "fail_row now (fail_status v kind) retryAt kind (boundedError msg)"
  obtain d4 where jobs: "t_jobs d4 = update_where (lease_held v) ?f (t_jobs d)"
    and fin: "if fail_status v kind \<noteq> StatusRetryScheduled \<and> ID v \<noteq> RootJobID v
     then finalizeRoot ext now (RootJobID v) d4 = Inr d' else d' = d4"
    by (rule Fail_effect [OF fail])
  have "?f r \<in> set (t_jobs d4)" using r by (auto simp: jobs set_update_where)
  moreover have "r_status (?f r) \<noteq> StatusWaiting"
    by (cases kind) (simp_all add: fail_row_def fail_status_def)
  ultimately show ?thesis
    using fin finalizeRoot_keeps [of ext now "RootJobID v" d4 d' "?f r"] by (auto split: if_splits)
qed

lemma finish_releases:
  assumes ok: "sys_ok s" and v: "v \<in> set (s_leases s)" and valid: "finish_valid c"
    and fin: "finish_job ext c v s = Inr t"
  shows "sys_step ext s t \<and> \<not> holds_lease t v"
proof -
  have "holds_lease s v" using fin finish_fenced by (cases "holds_lease s v") force+
  then obtain r where r: "r \<in> set (t_jobs (s_db s))" "lease_held v r" by (auto simp: holds_lease_def)
  have step: "sys_step ext s t \<and> (\<exists>r'\<in>set (t_jobs (s_db t)). r_id r' = ID v \<and> r_lease_token r' = None)"
  proof (cases c)
    case (FinishComplete now newIDs res)
    with fin valid obtain d where d: "Complete ext now newIDs v res (s_db s) = Inr d" "t = s\<lparr>s_db := d\<rparr>"
      and max: "\<forall>c\<in>set (Children res). 0 \<le> SubMaxAttempts c" by (auto simp: bindE_simps)
    show ?thesis
      using Complete_row_kept [OF d(1) max r] sys_step.complete [OF v max d(1)] d(2) r(2)
      by (intro conjI bexI [of _ "complete_row now (complete_status v res) r"])
        (simp_all add: complete_row_def clear_lease_def lease_held_def)
  next
    case (FinishFail now kind msg retryAt)
    with fin obtain d where d: "Fail ext now v kind msg retryAt (s_db s) = Inr d" "t = s\<lparr>s_db := d\<rparr>"
      by (auto simp: bindE_simps)
    show ?thesis
      using Fail_row_kept [OF d(1) r] sys_step.fail [OF v d(1)] d(2) r(2)
      by (intro conjI bexI [of _ "fail_row now (fail_status v kind) retryAt kind (boundedError msg) r"])
        (simp_all add: fail_row_def clear_lease_def lease_held_def)
  qed
  then have "sys_ok t" using sys_ok_step [OF ok] by blast
  then have "unique_keys (s_db t)" by (simp add: sys_ok_def tables_ok_def)
  then have "\<not> holds_lease t v"
    using step unique_row unfolding holds_lease_def lease_held_def by (metis option.distinct(1))
  then show ?thesis using step by simp
qed

lemma step_no_regain:
  assumes ok: "sys_ok s" and step: "sys_step ext s t" and v: "v \<in> set (s_leases s)"
    and held: "holds_lease t v"
  shows "holds_lease s v"
proof -
  from held obtain r' where r': "r' \<in> set (t_jobs (s_db t))" "lease_held v r'" by (auto simp: holds_lease_def)
  then have tok: "r_lease_token r' = Some (LeaseToken v)" by (simp add: lease_held_def)
  have rows: "row_ok r" if "r \<in> set (t_jobs (s_db s))" for r
    using ok that by (simp add: sys_ok_def tables_ok_def)
  from ok step show ?thesis
  proof (cases rule: sys_step_cases)
    case quiet
    from evolves_token [OF quiet(1) r'(1) tok] obtain r where r: "r \<in> set (t_jobs (s_db s))"
      "r_lease_token r = Some (LeaseToken v)" "r_locked_by r' = r_locked_by r" "same_job r r'" by metis
    moreover have "r_status r = StatusRunning" using rows [OF r(1)] r(2) by (simp add: row_ok_def)
    ultimately show ?thesis using r'(2) by (auto simp: holds_lease_def lease_held_def same_job_def)
  next
    case (claim now locked w lease token j d')
    from claim(2) show ?thesis
    proof (cases rule: Claim_cases)
      case (claimed row)
      have "LeaseToken v \<noteq> token" using claim(1) v by blast
      with r' tok claimed(3) claim(3) have "r' \<in> set (t_jobs (s_db s))"
        by (auto simp: set_update_where claim_row_def)
      then show ?thesis using r'(2) by (auto simp: holds_lease_def)
    qed simp
  qed
qed

lemma leases_exclusive:
  assumes ok: "sys_ok s" and v: "v \<in> set (s_leases s)" "w \<in> set (s_leases s)"
    and held: "holds_lease s v" "holds_lease s w" and same: "ID v = ID w"
  shows "v = w"
proof -
  from held obtain r r' where r: "r \<in> set (t_jobs (s_db s))" "lease_held v r"
      "r' \<in> set (t_jobs (s_db s))" "lease_held w r'" by (auto simp: holds_lease_def)
  have "unique_keys (s_db s)" using ok by (simp add: sys_ok_def tables_ok_def)
  then have "r = r'" using r same by (intro unique_row) (auto simp: lease_held_def)
  then have "LeaseToken v = LeaseToken w" using r by (simp add: lease_held_def)
  moreover have "distinct (map LeaseToken (s_leases s))" using ok by (simp add: sys_ok_def leases_ok_def)
  ultimately show ?thesis using v by (metis distinct_map_key_eq)
qed

lemma step_leases: "sys_step ext s t \<Longrightarrow> set (s_leases s) \<subseteq> set (s_leases t)"
  by (erule sys_stepE) auto

interpretation store_leases: lease_protocol sys_ok "sys_step ext" "\<lambda>s v. v \<in> set (s_leases s)"
  holds_lease ID finish_valid "finish_job ext" ErrLeaseLost for ext
proof unfold_locales
  show "sys_ok s \<Longrightarrow> v \<in> set (s_leases s) \<Longrightarrow> w \<in> set (s_leases s) \<Longrightarrow> holds_lease s v \<Longrightarrow>
    holds_lease s w \<Longrightarrow> ID v = ID w \<Longrightarrow> v = w" for s v w
    by (rule leases_exclusive)
  show "sys_step ext s t \<Longrightarrow> v \<in> set (s_leases s) \<Longrightarrow> v \<in> set (s_leases t)" for s t v
    using step_leases by blast
qed (fact sys_ok_step step_no_regain finish_fenced finish_releases)+

end
