(* ===== verification/Store_Demo.thy ===== *)
theory Store_Demo
  imports Store_System
begin

text \<open>
  A concrete run of the store: a root job is submitted and claimed, completes with one
  child, the child is claimed with its only attempt, and its transient failure
  dead-letters both the child and the waiting root. The states of this run are the
  inputs of the witnesses of the store's properties.
\<close>

definition demo_ext :: externals where
  "demo_ext = \<lparr>sha256_hex = (\<lambda>s. s), jsonb_in = Some, decode_audit_row = (\<lambda>_. None),
     decode_child_payload = (\<lambda>_. None)\<rparr>"

definition demo_submission :: submission where
  "demo_submission = empty_submission\<lparr>SubType := ''dependency_audit'', SubPayload := ''{}'',
     SubMaxAttempts := 2, SubIdempotencyKey := ''k''\<rparr>"

definition demo_child :: submission where
  "demo_child = empty_submission\<lparr>SubType := ''audit_npm_package'', SubPayload := ''{}'',
     SubMaxAttempts := 1, SubIdempotencyKey := ''c''\<rparr>"

definition demo_result :: handler_result where
  "demo_result = \<lparr>Result = ''null'', Children = [demo_child]\<rparr>"

definition demo_db1 :: db where
  "demo_db1 = (case Submit demo_ext 10 ''job-1'' demo_submission empty_db of
     Inr (_, _, d) \<Rightarrow> d | Inl _ \<Rightarrow> empty_db)"

definition demo_claim :: "gotime \<Rightarrow> string \<Rightarrow> string \<Rightarrow> db \<Rightarrow> job \<times> db" where
  "demo_claim now w token d = (case Claim now (\<lambda>_. False) w 30 token d of
     Inr (Some j, d') \<Rightarrow> (j, d') | _ \<Rightarrow> (NewJob [] [] [], d))"

definition demo_job1 :: job where
  "demo_job1 = fst (demo_claim 20 ''worker-1'' ''token-1'' demo_db1)"

definition demo_db2 :: db where
  "demo_db2 = snd (demo_claim 20 ''worker-1'' ''token-1'' demo_db1)"

definition demo_db3 :: db where
  "demo_db3 = (case Complete demo_ext 30 (\<lambda>_. ''job-2'') demo_job1 demo_result demo_db2 of
     Inr d \<Rightarrow> d | Inl _ \<Rightarrow> empty_db)"

definition demo_job2 :: job where
  "demo_job2 = fst (demo_claim 40 ''worker-2'' ''token-2'' demo_db3)"

definition demo_db4 :: db where
  "demo_db4 = snd (demo_claim 40 ''worker-2'' ''token-2'' demo_db3)"

definition demo_db5 :: db where
  "demo_db5 = (case Fail demo_ext 50 demo_job2 ErrorTransient ''boom'' 60 demo_db4 of
     Inr d \<Rightarrow> d | Inl _ \<Rightarrow> empty_db)"

definition demo_sys2 :: sys where
  "demo_sys2 = \<lparr>s_db = demo_db2, s_leases = [demo_job1]\<rparr>"

definition demo_sys3 :: sys where
  "demo_sys3 = \<lparr>s_db = demo_db3, s_leases = [demo_job1]\<rparr>"

definition demo_sys4 :: sys where
  "demo_sys4 = \<lparr>s_db = demo_db4, s_leases = [demo_job2, demo_job1]\<rparr>"

definition demo_sys5 :: sys where
  "demo_sys5 = \<lparr>s_db = demo_db5, s_leases = [demo_job2, demo_job1]\<rparr>"

lemma demo_submit: "Submit demo_ext 10 ''job-1'' demo_submission empty_db =
    Inr (scanServiceJob (hd (t_jobs demo_db1)), True, demo_db1)"
  by code_simp

lemma demo_claim1: "Claim 20 (\<lambda>_. False) ''worker-1'' 30 ''token-1'' demo_db1 = Inr (Some demo_job1, demo_db2)"
  by code_simp

lemma demo_complete: "Complete demo_ext 30 (\<lambda>_. ''job-2'') demo_job1 demo_result demo_db2 = Inr demo_db3"
  by code_simp

lemma demo_claim2: "Claim 40 (\<lambda>_. False) ''worker-2'' 30 ''token-2'' demo_db3 = Inr (Some demo_job2, demo_db4)"
  by code_simp

lemma demo_fail: "Fail demo_ext 50 demo_job2 ErrorTransient ''boom'' 60 demo_db4 = Inr demo_db5"
  by code_simp

lemma demo_tokens: "LeaseToken demo_job1 = ''token-1''"
  by code_simp

lemma demo_steps:
  "sys_step demo_ext init_sys (init_sys\<lparr>s_db := demo_db1\<rparr>)"
  "sys_step demo_ext (init_sys\<lparr>s_db := demo_db1\<rparr>) demo_sys2"
  "sys_step demo_ext demo_sys2 demo_sys3"
  "sys_step demo_ext demo_sys3 demo_sys4"
  "sys_step demo_ext demo_sys4 demo_sys5"
proof -
  show "sys_step demo_ext init_sys (init_sys\<lparr>s_db := demo_db1\<rparr>)"
    using demo_submit
    by (intro sys_step.submit [where sub = demo_submission])
      (simp_all add: init_sys_def demo_submission_def empty_submission_def)
  show "sys_step demo_ext (init_sys\<lparr>s_db := demo_db1\<rparr>) demo_sys2"
    using sys_step.claim [of "''token-1''" "init_sys\<lparr>s_db := demo_db1\<rparr>" 20 "\<lambda>_. False" "''worker-1''" 30
      demo_job1 demo_db2 demo_ext] demo_claim1
    by (simp add: init_sys_def demo_sys2_def)
  show "sys_step demo_ext demo_sys2 demo_sys3"
    using sys_step.complete [of demo_job1 demo_sys2 demo_result demo_ext 30 "\<lambda>_. ''job-2''" demo_db3] demo_complete
    by (simp add: demo_sys2_def demo_sys3_def demo_result_def demo_child_def)
  show "sys_step demo_ext demo_sys3 demo_sys4"
    using sys_step.claim [of "''token-2''" demo_sys3 40 "\<lambda>_. False" "''worker-2''" 30
      demo_job2 demo_db4 demo_ext] demo_claim2 demo_tokens
    by (simp add: demo_sys3_def demo_sys4_def)
  show "sys_step demo_ext demo_sys4 demo_sys5"
    using sys_step.fail [of demo_job2 demo_sys4 demo_ext 50 ErrorTransient "''boom''" 60 demo_db5] demo_fail
    by (simp add: demo_sys4_def demo_sys5_def)
qed

lemma demo_reachable:
  "reachable demo_ext demo_sys2" "reachable demo_ext demo_sys3"
  "reachable demo_ext demo_sys4" "reachable demo_ext demo_sys5"
proof -
  note go = reachable.step [where ext = demo_ext]
  show 2: "reachable demo_ext demo_sys2" by (rule go [OF go [OF reachable.start demo_steps(1)] demo_steps(2)])
  show 3: "reachable demo_ext demo_sys3" by (rule go [OF 2 demo_steps(3)])
  show 4: "reachable demo_ext demo_sys4" by (rule go [OF 3 demo_steps(4)])
  show "reachable demo_ext demo_sys5" by (rule go [OF 4 demo_steps(5)])
qed

lemma demo_rows:
  "map r_status (t_jobs demo_db3) = [StatusWaiting, StatusPending]"
  "map r_status (t_jobs demo_db4) = [StatusWaiting, StatusRunning]"
  "map r_status (t_jobs demo_db5) = [StatusDeadLettered, StatusDeadLettered]"
  by code_simp+

end
