(* ===== verification/Store_Properties.thy ===== *)
theory Store_Properties
  imports Store_Demo
begin

text \<open>
  The properties of the durable store: fencing and mutual exclusion of workers, the
  invariants of every reachable state, and what each operation does on each branch.
\<close>

section \<open>Lemmas about single operations\<close>

lemma claim_before_asym: "claim_before a b \<Longrightarrow> \<not> claim_before b a"
  by (auto simp: claim_before_def)

lemma claim_before_neg_trans: "claim_before a c \<Longrightarrow> claim_before a b \<or> claim_before b c"
  unfolding claim_before_def
  using less_trans [of "r_id a" "r_id b" "r_id c"] linorder_less_linear [of "r_id a" "r_id b"]
  by (smt (verit) less_trans linorder_less_linear)

lemma next_claim_least:
  assumes "next_claim now locked d = Some row" and "x \<in> set (t_jobs d)" "claimable now x" "\<not> locked (r_id x)"
  shows "\<not> claim_before x row"
  by (rule least_by_least [OF assms(1) [unfolded next_claim_def]])
    (use assms(2-4) claim_before_asym claim_before_neg_trans in auto)

lemma next_claim_None:
  "next_claim now locked d = None \<longleftrightarrow> (\<forall>x\<in>set (t_jobs d). claimable now x \<longrightarrow> locked (r_id x))"
  by (auto simp: next_claim_def filter_empty_conv)

lemma Claim_total:
  assumes ok: "tables_ok d" and row: "next_claim now locked d = Some row"
  shows "\<exists>d'. Claim now locked w lease token d = Inr (Some (scanServiceJob (claim_row now lease w token row)), d')"
proof -
  let ?f = "claim_row now lease w token"
  let ?d1 = "d\<lparr>t_jobs := update_where (\<lambda>r. r_id r = r_id row) ?f (t_jobs d)\<rparr>"
  note in_row = next_claim_SomeD(1) [OF row]
  have uk: "unique_keys d" using ok by (simp add: tables_ok_def)
  have has: "has_job ?d1 (r_id row)"
    using has_job_update [of ?d1 "\<lambda>r. r_id r = r_id row" ?f d "r_id row"] in_row
    by (simp add: claim_row_def has_job_iff)
  have "at_attempt a \<noteq> r_attempts row + 1" if "a \<in> set (t_attempts d)" "at_job_id a = r_id row" for a
  proof -
    from ok that(1) obtain r where "r \<in> set (t_jobs d)" "r_id r = at_job_id a" "at_attempt a \<le> r_attempts r"
      by (auto simp: tables_ok_def attempts_ok_def)
    with unique_row [OF uk _ in_row] that(2) show ?thesis by force
  qed
  then have no: "\<not> list_ex (\<lambda>a. at_job_id a = r_id row \<and> at_attempt a = r_attempts row + 1) (t_attempts ?d1)"
    by (auto simp: list_ex_iff)
  have f: "r_id (?f row) = r_id row" "r_attempts (?f row) = r_attempts row + 1" by (simp_all add: claim_row_def)
  show ?thesis
    using has no row
    by (simp add: Claim_def Let_def f insert_attempt_def insert_event_def checkE_def has_job_def)
qed

lemma insert_result_commits:
  "jsonb_in ext res = Some j \<Longrightarrow> has_job d i \<Longrightarrow> \<exists>d'. insert_result ext i res d = Inr d'"
  by (simp add: insert_result_def checkE_def)

lemma finalizeRoot_settles:
  assumes r: "r \<in> set (t_jobs d)" "r_id r = root" "r_status r = StatusWaiting"
    and active: "active_descendants root d = 0"
    and json: "root_outcome root d = StatusCompleted \<Longrightarrow> jsonb_in ext (root_summary root d) \<noteq> None"
  shows "\<exists>d'. finalizeRoot ext now root d = Inr d' \<and>
    finalize_row now (root_outcome root d) r \<in> set (t_jobs d')"
proof -
  let ?st = "root_outcome root d" and ?p = "\<lambda>r. r_id r = root \<and> r_status r = StatusWaiting"
  let ?d1 = "d\<lparr>t_jobs := update_where ?p (finalize_row now ?st) (t_jobs d)\<rparr>"
  have pos: "count_where ?p (t_jobs d) \<noteq> 0" using r by (auto simp: count_where_0_iff)
  have has: "has_job ?d1 root"
    using has_job_update [of ?d1 ?p "finalize_row now ?st" d root] r(1,2)
    by (auto simp: finalize_row_def has_job_iff)
  obtain d2 where d2: "(if ?st = StatusCompleted then insert_result ext root (root_summary root d) ?d1
      else Inr ?d1) = Inr d2" and jobs2: "t_jobs d2 = t_jobs ?d1"
  proof (cases "?st = StatusCompleted")
    case True
    with json obtain j where "jsonb_in ext (root_summary root d) = Some j" by blast
    with insert_result_commits [OF this has] obtain d2
      where "insert_result ext root (root_summary root d) ?d1 = Inr d2" by blast
    with True that insert_result_frame(1) [OF this] show ?thesis by simp
  qed (use that in simp)
  let ?d3 = "if ?st = StatusDeadLettered then dlq_from_root now root d2 else d2"
  have "t_jobs ?d3 = t_jobs ?d1" using jobs2 by simp
  then have "has_job ?d3 root" using has unfolding has_job_def by metis
  then obtain d' where d': "insert_event now root (status_text ?st) None None NoDetails ?d3 = Inr d'"
    by (simp add: insert_event_def checkE_def)
  then have "finalizeRoot ext now root d = Inr d'"
    using active pos d2 by (simp add: finalizeRoot_def Let_def)
  moreover have "finalize_row now ?st r \<in> set (t_jobs d')"
    using insert_event_frame(1) [OF d'] jobs2 r by (auto simp: set_update_where split: if_splits)
  ultimately show ?thesis by blast
qed

lemma holds_count_one:
  assumes "unique_keys (s_db s)" and "holds_lease s v"
  shows "count_where (lease_held v) (t_jobs (s_db s)) = 1"
proof -
  have "count_where (lease_held v) (t_jobs (s_db s)) \<le> 1"
    using assms(1) by (intro count_where_distinct_key [where k = r_id and a = "ID v"])
      (auto simp: unique_keys_def lease_held_def)
  moreover have "0 < count_where (lease_held v) (t_jobs (s_db s))"
    using assms(2) by (auto simp: holds_lease_def count_where_pos_iff)
  ultimately show ?thesis by simp
qed

lemma tables_row_ok: "tables_ok d \<Longrightarrow> x \<in> set (t_jobs d) \<Longrightarrow> row_ok x"
  by (simp add: tables_ok_def)

lemma row_ok_token: "row_ok x \<Longrightarrow> r_lease_token x \<noteq> None \<longleftrightarrow> r_status x = StatusRunning"
  by (simp add: row_ok_def)

lemma reclaimed_none_expired:
  assumes rec: "ReclaimExpired ext now locked d = Inr (n, d')" and ok: "tables_ok d"
    and r': "r' \<in> set (t_jobs d')" "\<not> locked (r_id r')"
  shows "\<not> expired now r'"
proof
  assume ex: "expired now r'"
  note step = ReclaimExpired_step [OF rec ok]
  have rows: "r_lease_token x \<noteq> None \<longleftrightarrow> r_status x = StatusRunning"
    if "x \<in> set (t_jobs d) \<or> x \<in> set (t_jobs d')" for x
    using that tables_row_ok [OF ok] tables_row_ok [OF step(2)] row_ok_token by blast
  have uk': "unique_keys d'" using step(2) by (simp add: tables_ok_def)
  from ex have "r_status r' = StatusRunning" by (simp add: expired_def)
  then obtain t where t: "r_lease_token r' = Some t" using rows [of r'] r'(1) by auto
  from evolves_token [OF step(1) r'(1) t] obtain r where r: "r \<in> set (t_jobs d)" "r_lease_token r = Some t"
    "same_job r r'" .
  have run: "r_status r = StatusRunning" using rows [of r] r(1,2) by simp
  show False
  proof (cases "expired now r \<and> \<not> locked (r_id r)")
    case True
    let ?c = "reclaim_row now (reclaim_status (scanServiceJob r)) r"
    from True r(1) have "?c \<in> set (t_jobs d')" by (intro step(4)) simp
    moreover have "r_id ?c = r_id r'" using r(3) by (simp add: reclaim_row_def clear_lease_def same_job_def)
    ultimately have "?c = r'" by (rule unique_row [OF uk' _ r'(1)])
    moreover have "r_status ?c \<noteq> StatusRunning" by (simp add: reclaim_row_def reclaim_status_def)
    ultimately show ?thesis using \<open>r_status r' = StatusRunning\<close> by simp
  next
    case False
    then have "r \<in> set (t_jobs d')" using r(1) run by (intro step(5)) auto
    then have "r = r'" using r(3) by (intro unique_row [OF uk' _ r'(1)]) (simp_all add: same_job_def)
    with False ex r'(2) show ?thesis by simp
  qed
qed

lemma unique_key_row:
  assumes "unique_keys d" and "x \<in> set (t_jobs d)" "r_idempotency_key x = Some k"
    and "y \<in> set (t_jobs d)" "r_idempotency_key y = Some k"
  shows "x = y"
proof -
  have "distinct (keys_of rows) \<Longrightarrow> x \<in> set rows \<Longrightarrow> y \<in> set rows \<Longrightarrow> x = y" for rows
  proof (induction rows)
    case (Cons z rows)
    have k: "k \<in> set (keys_of rows)" if "x \<in> set rows \<or> y \<in> set rows"
      using that assms(3,5) by (force simp: set_keys_of)
    have "keys_of (z # rows) = keys_of [z] @ keys_of rows" by (simp add: keys_of_def map_filter_def)
    with Cons.prems(1) have "distinct (keys_of rows)" and z: "r_idempotency_key z = Some k \<Longrightarrow> k \<notin> set (keys_of rows)"
      by auto
    with Cons k assms(3,5) show ?case by auto
  qed simp
  from this [of "t_jobs d"] show ?thesis using assms(1,2,4) by (simp add: unique_keys_def)
qed

lemma Submit_existing_key:
  assumes ok: "sys_ok t" and r: "r \<in> set (t_jobs (s_db t))" "r_idempotency_key r = Some (SubIdempotencyKey sub)"
    and key: "SubIdempotencyKey sub \<noteq> []" and hash: "r_request_hash r = Some h"
    and pay: "jsonValue ext (SubPayload sub) = Inr payload"
  shows "Submit ext now newID sub (s_db t) =
    (if h = submissionHash ext (default_attempts sub) then Inr (scanServiceJob r, False, s_db t)
     else Inl ErrIdempotencyConflict)"
proof -
  let ?p = "\<lambda>x. SubIdempotencyKey sub \<noteq> [] \<and> r_idempotency_key x = Some (SubIdempotencyKey sub)"
  have "find ?p (t_jobs (s_db t)) = Some r"
  proof (cases "find ?p (t_jobs (s_db t))")
    case None
    with r key show ?thesis by (auto simp: find_None_all)
  next
    case (Some x)
    then have x: "x \<in> set (t_jobs (s_db t))" "?p x" by (auto dest: find_Some_in)
    have "unique_keys (s_db t)" using ok by (simp add: sys_ok_def tables_ok_def)
    with x r have "x = r" by (blast intro: unique_key_row)
    with Some show ?thesis by simp
  qed
  then show ?thesis
    using hash pay by (auto simp: Submit_def Let_def scanServiceJob_def coalesce_def)
qed

section \<open>Operations that hold the lease commit\<close>

text \<open>The text of the summary is JSON, so PostgreSQL's cast accepts it.\<close>

definition summaries_are_json :: "externals \<Rightarrow> string \<Rightarrow> bool" where
  "summaries_are_json ext root \<longleftrightarrow> (\<forall>d. jsonb_in ext (root_summary root d) \<noteq> None)"

lemma finalizeRoot_commits:
  assumes json: "summaries_are_json ext root"
  shows "\<exists>d'. finalizeRoot ext now root d = Inr d'"
proof (cases "active_descendants root d = 0 \<and> (\<exists>r\<in>set (t_jobs d). r_id r = root \<and> r_status r = StatusWaiting)")
  case True
  then obtain r where "r \<in> set (t_jobs d)" "r_id r = root" "r_status r = StatusWaiting" by blast
  from finalizeRoot_settles [OF this, of ext now] True json show ?thesis
    by (auto simp: summaries_are_json_def)
next
  case False
  then have "active_descendants root d \<noteq> 0 \<or>
      count_where (\<lambda>r. r_id r = root \<and> r_status r = StatusWaiting) (t_jobs d) = 0"
    by (auto simp: count_where_0_iff)
  then show ?thesis by (auto simp: finalizeRoot_def Let_def)
qed

lemma insert_event_commits: "has_job d i \<Longrightarrow> \<exists>d'. insert_event now i ty att wk det d = Inr d'"
  by (simp add: insert_event_def checkE_def)

lemma Fail_commits:
  assumes ok: "sys_ok s" and held: "holds_lease s v"
    and pay: "jsonValue ext (Payload v) = Inr payload" and json: "summaries_are_json ext (RootJobID v)"
  shows "\<exists>d'. Fail ext now v kind msg retryAt (s_db s) = Inr d'"
proof -
  let ?d = "s_db s" and ?st = "fail_status v kind" and ?m = "boundedError msg"
  from ok have uk: "unique_keys ?d" by (simp add: sys_ok_def tables_ok_def)
  note one = holds_count_one [OF uk held]
  define d2 where "d2 = ?d\<lparr>t_jobs := update_where (lease_held v) (fail_row now ?st retryAt kind ?m) (t_jobs ?d),
     t_attempts := update_where
            (\<lambda>a. at_job_id a = ID v \<and> at_attempt a = Attempts v \<and> at_lease_token a = LeaseToken v)
            (\<lambda>a. a\<lparr>at_status := status_text ?st, at_finished_at := Some now,
                  at_error_kind := Some kind, at_error := Some ?m\<rparr>) (t_attempts ?d)\<rparr>"
  have jobs2: "t_jobs d2 = update_where (lease_held v) (fail_row now ?st retryAt kind ?m) (t_jobs ?d)"
    by (simp add: d2_def)
  have "has_job ?d (ID v)"
    using held by (auto simp: holds_lease_def lease_held_def has_job_def list_ex_iff)
  then have "has_job d2 (ID v)"
    using has_job_update [OF jobs2] by (simp add: fail_row_def clear_lease_def)
  then obtain d3 where d3: "insert_event now (ID v) (status_text ?st) (Some (Attempts v))
      (Some (LockedBy v)) (ErrorDetails kind ?m) d2 = Inr d3" using insert_event_commits by blast
  define d4 where "d4 = (if ?st = StatusDeadLettered
     then insert_dlq now (ID v) (Type v) payload (Attempts v) ?m kind (RootJobID v)
            (nullif_empty (ParentJobID v)) d3 else d3)"
  obtain d5 where "finalizeRoot ext now (RootJobID v) d4 = Inr d5" using finalizeRoot_commits [OF json] by blast
  then show ?thesis
    using one d3 pay unfolding Fail_def Let_def d2_def d4_def
    by (cases "?st = StatusDeadLettered") simp_all
qed

lemma insertSubmission_commits:
  assumes "\<not> has_job d newID" and "jsonValue ext (SubPayload c) = Inr payload"
  shows "\<exists>d'. insertSubmission ext now newID c d = Inr d' \<and>
    set (map r_id (t_jobs d')) \<subseteq> insert newID (set (map r_id (t_jobs d)))"
  using assms
  by (auto simp: insertSubmission_def Let_def insert_job_def checkE_def new_row_def)

lemma insertAuditRelationship_commits:
  "has_job d (SubRootJobID c) \<Longrightarrow> \<exists>d'. insertAuditRelationship ext c d = Inr d'"
  by (auto simp: insertAuditRelationship_def Let_def checkE_def split: option.splits)

lemma insert_children_commits:
  assumes "\<forall>c\<in>set cs. \<exists>p. jsonValue ext (SubPayload c) = Inr p" and "has_job d (RootJobID v)"
    and "inj newID" and "\<forall>k\<ge>n. \<not> has_job d (newID k)"
  shows "\<exists>d'. insert_children ext now newID v n cs d = Inr d'"
  using assms
proof (induction cs arbitrary: n d)
  case (Cons c cs)
  let ?child = "c\<lparr>SubRootJobID := RootJobID v, SubParentJobID := ID v, SubInternal := True\<rparr>"
  obtain d1 where 1: "insertAuditRelationship ext ?child d = Inr d1"
    using insertAuditRelationship_commits [of d ?child ext] Cons.prems(2) by auto
  have j1: "t_jobs d1 = t_jobs d" using insertAuditRelationship_frame(1) [OF 1] .
  have "\<not> has_job d1 (newID n)" using Cons.prems(4) j1 by (simp add: has_job_def)
  moreover from Cons.prems(1) obtain p where "jsonValue ext (SubPayload ?child) = Inr p" by auto
  ultimately obtain d2 where 2: "insertSubmission ext now (newID n) ?child d1 = Inr d2"
    and ids: "set (map r_id (t_jobs d2)) \<subseteq> insert (newID n) (set (map r_id (t_jobs d1)))"
    using insertSubmission_commits by blast
  have "has_job d2 (RootJobID v)"
    using 2 Cons.prems(2) j1
    by (cases rule: insertSubmission_cases) (auto simp: has_job_def dest: insert_job_frame(1))
  moreover have "\<forall>k\<ge>Suc n. \<not> has_job d2 (newID k)"
  proof (intro allI impI)
    fix k assume "Suc n \<le> k"
    then have "newID k \<noteq> newID n" "\<not> has_job d (newID k)"
      using Cons.prems(3,4) by (auto dest: injD)
    then show "\<not> has_job d2 (newID k)" using ids j1 by (auto simp: has_job_iff)
  qed
  ultimately obtain d' where "insert_children ext now newID v (Suc n) cs d2 = Inr d'"
    using Cons.IH [of d2 "Suc n"] Cons.prems(1,3) by auto
  then show ?case using 1 2 by (simp add: Let_def)
qed simp

lemma insert_audit_result_commits:
  "has_job d (RootJobID v) \<Longrightarrow> \<exists>d'. insert_audit_result ext v res d = Inr d'"
  by (auto simp: insert_audit_result_def Let_def checkE_def split: option.splits)

lemma Complete_commits:
  assumes ok: "sys_ok s" and v: "v \<in> set (s_leases s)" and held: "holds_lease s v"
    and kids: "\<forall>c\<in>set (Children res). 0 \<le> SubMaxAttempts c \<and> (\<exists>p. jsonValue ext (SubPayload c) = Inr p)"
    and ids: "inj newIDs" "\<forall>k. \<not> has_job (s_db s) (newIDs k)"
    and res: "jsonb_in ext (Result res) \<noteq> None" and json: "summaries_are_json ext (RootJobID v)"
  shows "\<exists>d'. Complete ext now newIDs v res (s_db s) = Inr d'"
proof -
  let ?d = "s_db s" and ?st = "complete_status v res"
  from ok have tok: "tables_ok ?d" and agrees: "lease_agrees ?d v"
    using v by (simp_all add: sys_ok_def leases_ok_def)
  then have uk: "unique_keys ?d" by (simp add: tables_ok_def)
  note one = holds_count_one [OF uk held]
  define d2 where "d2 = ?d\<lparr>t_jobs := update_where (lease_held v) (complete_row now ?st) (t_jobs ?d),
          t_attempts := update_where
            (\<lambda>a. at_job_id a = ID v \<and> at_attempt a = Attempts v \<and> at_lease_token a = LeaseToken v)
            (\<lambda>a. a\<lparr>at_status := ''completed'', at_finished_at := Some now\<rparr>) (t_attempts ?d)\<rparr>"
  have jobs2: "t_jobs d2 = update_where (lease_held v) (complete_row now ?st) (t_jobs ?d)" by (simp add: d2_def)
  have has2: "has_job d2 i = has_job ?d i" for i
    using has_job_update [OF jobs2] by (simp add: complete_row_def clear_lease_def)
  from held_root [OF tok agrees one] have root: "has_job ?d (RootJobID v)" and idv: "has_job ?d (ID v)"
    by (auto simp: lease_held_def has_job_def list_ex_iff)
  obtain d3 where 3: "insert_children ext now newIDs v 0 (Children res) d2 = Inr d3"
    using insert_children_commits [of "Children res" ext d2 v newIDs 0 now] kids ids has2 root by blast
  have max: "\<forall>c\<in>set (Children res). 0 \<le> SubMaxAttempts c" using kids by blast
  have keeps: "has_job d3 i" if "has_job ?d i" for i
  proof -
    obtain news where "t_jobs d3 = t_jobs d2 @ news"
      using insert_children_only_inserts [OF 3 max] by (auto simp: only_inserts_def)
    then show ?thesis using that has2 [of i] by (simp add: has_job_def)
  qed
  obtain d4 where 4: "(if Result res \<noteq> [] \<and> Result res \<noteq> ''null'' \<and> ?st = StatusCompleted
      then insert_result ext (ID v) (Result res) d3 else Inr d3) = Inr d4"
    using insert_result_commits [of ext "Result res" _ d3 "ID v"] res keeps [OF idv] by force
  have j4: "t_jobs d4 = t_jobs d3" using 4 insert_result_frame(1) by (auto split: if_splits)
  obtain d5 where 5: "insert_audit_result ext v res d4 = Inr d5"
    using insert_audit_result_commits [of d4 v ext res] keeps [OF root] j4 by (auto simp: has_job_def)
  have "has_job d5 (ID v)" using keeps [OF idv] j4 insert_audit_result_frame(1) [OF 5] by (simp add: has_job_def)
  then obtain d6 where 6: "insert_event now (ID v) (status_text ?st) (Some (Attempts v)) (Some (LockedBy v))
      NoDetails d5 = Inr d6" using insert_event_commits by blast
  obtain d7 where "finalizeRoot ext now (RootJobID v) d6 = Inr d7"
    using finalizeRoot_commits [OF json] by blast
  then show ?thesis
    using one 3 4 5 6 unfolding Complete_def Let_def d2_def by (simp split del: if_split) simp
qed

lemma Cancel_commits:
  assumes ok: "tables_ok d" and r: "r \<in> set (t_jobs d)" and by_id: "job_by_id d (r_id r) = Some r"
    and rows: "cancel_updates now r (t_jobs d) = Some rows"
    and r': "r' \<in> set rows" "r_id r' = r_id r" and st: "r_status r \<noteq> StatusCancelled"
  shows "\<exists>d'. Cancel now (r_id r) d = Inr (scanServiceJob r', d') \<and> t_jobs d' = rows"
proof -
  let ?i = "r_id r" and ?d1 = "d\<lparr>t_jobs := rows\<rparr>"
  have has: "has_job ?d1 ?i" using r' by (auto simp: has_job_def list_ex_iff)
  then obtain d2 where 2: "insert_event now ?i ''cancellation_requested'' None None NoDetails ?d1 = Inr d2"
    using insert_event_commits by blast
  have j2: "t_jobs d2 = rows" using insert_event_frame(1) [OF 2] by simp
  then have "has_job d2 ?i" using has by (simp add: has_job_def)
  then obtain d3 where 3: "insert_event now ?i ''cancelled'' None None NoDetails d2 = Inr d3"
    using insert_event_commits by blast
  define d4 where "d4 = (if r_status r \<noteq> StatusRunning then d3 else d2)"
  have j4: "t_jobs d4 = rows" using insert_event_frame(1) [OF 3] j2 by (simp add: d4_def)
  have cancel: "Cancel now ?i d = (case job_by_id d4 ?i of None \<Rightarrow> Inl ErrSQL | Some x \<Rightarrow> Inr (scanServiceJob x, d4))"
    using by_id st rows 2 3 by (cases "r_status r = StatusRunning") (simp_all add: Cancel_def Let_def d4_def split: option.split)
  have "distinct (map r_id rows)"
  proof -
    have "unique_keys d" using ok by (simp add: tables_ok_def)
    then obtain p q where "rows = update_where q (request_cancel now) (update_where p (cancel_row now) (t_jobs d))"
      by (rule cancel_updates_step [OF rows _ r])
    then have "map r_id rows = map r_id (t_jobs d)"
      by (simp add: map_update_where request_cancel_def cancel_row_def)
    then show ?thesis using \<open>unique_keys d\<close> by (simp add: unique_keys_def)
  qed
  then have "job_by_id d4 ?i = Some r'"
    unfolding job_by_id_def j4 using r' by (intro find_key) simp_all
  then show ?thesis using cancel j4 by simp
qed

section \<open>Fencing of workers\<close>

text \<open>C1: Once a worker has lost the lease of an attempt (recovery took it, or the attempt
  was finished), no later sequence of store operations lets it commit: \<^verbatim>\<open>Complete\<close> and
  \<^verbatim>\<open>Fail\<close> return \<open>ErrLeaseLost\<close> and \<^verbatim>\<open>Heartbeat\<close> reports that the lease is not owned,
  in every later state and whatever other workers do in between.\<close>

theorem stale_worker_fenced:
  assumes "reachable ext s" and "v \<in> set (s_leases s)" and "\<not> holds_lease s v"
    and "(sys_step ext)\<^sup>*\<^sup>* s t"
  shows "Complete ext now newIDs v res (s_db t) = Inl ErrLeaseLost \<and>
    Fail ext now v kind msg retryAt (s_db t) = Inl ErrLeaseLost \<and>
    Heartbeat now v lease (s_db t) = (False, s_db t)"
proof -
  note fence = store_leases.fenced_forever [OF reachable_ok [OF assms(1)] assms(2-4)]
  have "\<not> holds_lease t v"
    using store_leases.steps_keep [OF assms(4) reachable_ok [OF assms(1)] assms(2)] assms(3) by blast
  then have none: "\<forall>r\<in>set (t_jobs (s_db t)). \<not> lease_held v r" by (simp add: holds_lease_def)
  then have "Heartbeat now v lease (s_db t) = (False, s_db t)"
    by (simp add: Heartbeat_def Let_def count_where_0_iff [THEN iffD2] update_where_none)
  then show ?thesis
    using fence [of "FinishComplete now newIDs res"] fence [of "FinishFail now kind msg retryAt"]
    by (auto simp: bindE_simps)
qed

theorem stale_worker_fenced_witness:
  "Complete demo_ext 99 (\<lambda>_. ''x'') demo_job1 demo_result (s_db demo_sys5) = Inl ErrLeaseLost"
proof -
  have "demo_job1 \<in> set (s_leases demo_sys3)" by (simp add: demo_sys3_def)
  moreover have "\<not> holds_lease demo_sys3 demo_job1" by code_simp
  moreover have "(sys_step demo_ext)\<^sup>*\<^sup>* demo_sys3 demo_sys5" using demo_steps(4,5) by simp
  ultimately show ?thesis using stale_worker_fenced [OF demo_reachable(2)] by blast
qed

text \<open>An attempt is committed at most once: after a successful \<^verbatim>\<open>Complete\<close> or \<^verbatim>\<open>Fail\<close>
  of a claimed job, every further \<^verbatim>\<open>Complete\<close> or \<^verbatim>\<open>Fail\<close> with the same lease, in any later
  state, is refused with \<open>ErrLeaseLost\<close>.\<close>

theorem attempt_committed_once:
  assumes "reachable ext s" and "v \<in> set (s_leases s)" and "finish_valid c"
    and "finish_job ext c v s = Inr t" and "(sys_step ext)\<^sup>*\<^sup>* t u"
  shows "finish_job ext c' v u = Inl ErrLeaseLost"
  using store_leases.commit_at_most_once [OF reachable_ok [OF assms(1)] assms(2-5)] .

theorem attempt_committed_once_witness:
  "finish_job demo_ext (FinishFail 99 ErrorPermanent ''late'' 99) demo_job1 demo_sys4 = Inl ErrLeaseLost"
proof -
  let ?c = "FinishComplete 30 (\<lambda>_. ''job-2'') demo_result"
  have "finish_job demo_ext ?c demo_job1 demo_sys2 = Inr demo_sys3"
    by (simp add: demo_sys2_def demo_sys3_def demo_complete)
  moreover have "finish_valid ?c" by (simp add: demo_result_def demo_child_def)
  moreover have "demo_job1 \<in> set (s_leases demo_sys2)" by (simp add: demo_sys2_def)
  ultimately show ?thesis using attempt_committed_once [OF demo_reachable(1)] demo_steps(4) by blast
qed

text \<open>C2: Mutual exclusion: two claims of one job that both hold their lease are the same
  claim, so a worker that commits excludes every other worker that ever claimed the job.\<close>

theorem one_lease_holder:
  assumes "reachable ext s" and "v \<in> set (s_leases s)" and "w \<in> set (s_leases s)"
    and "ID v = ID w" and "holds_lease s v"
  shows "holds_lease s w \<longleftrightarrow> v = w"
  using leases_exclusive [OF reachable_ok [OF assms(1)] assms(2,3,5)] assms(4,5) by blast

theorem one_lease_holder_witness: "holds_lease demo_sys4 demo_job2"
proof -
  have "holds_lease demo_sys4 demo_job2" by code_simp
  moreover have "demo_job2 \<in> set (s_leases demo_sys4)" by (simp add: demo_sys4_def)
  ultimately show ?thesis using one_lease_holder [OF demo_reachable(3)] by blast
qed

section \<open>Invariants of reachable states\<close>

text \<open>C4: In every reachable state a job row has its four lease columns exactly while it is
  running, a completion time exactly when it is terminal, an attempt count between zero
  and \<open>max_attempts\<close> that leaves an attempt to a job that can still be claimed, and only a
  root job waits.\<close>

theorem job_rows_well_formed:
  assumes "reachable ext s" and "r \<in> set (t_jobs (s_db s))"
  shows "(r_lease_token r \<noteq> None \<longleftrightarrow> r_status r = StatusRunning) \<and>
    (r_locked_by r \<noteq> None \<longleftrightarrow> r_status r = StatusRunning) \<and>
    (r_locked_until r \<noteq> None \<longleftrightarrow> r_status r = StatusRunning) \<and>
    (r_heartbeat_at r \<noteq> None \<longleftrightarrow> r_status r = StatusRunning) \<and>
    (r_completed_at r \<noteq> None \<longleftrightarrow> terminal (r_status r)) \<and>
    0 \<le> r_attempts r \<and> r_attempts r \<le> r_max_attempts r \<and>
    (claimable now r \<longrightarrow> r_attempts r < r_max_attempts r) \<and>
    (r_status r = StatusWaiting \<longrightarrow> r_id r = r_root_job_id r)"
proof -
  have ok: "row_ok r" using tables_row_ok [OF reachable_tables [OF assms(1)] assms(2)] .
  then have "claimable now r \<longrightarrow> r_attempts r < r_max_attempts r"
    by (auto simp: row_ok_def claimable_def)
  then show ?thesis using ok by (simp add: row_ok_def)
qed

theorem job_rows_well_formed_witness:
  "hd (t_jobs (s_db demo_sys5)) \<in> set (t_jobs (s_db demo_sys5)) \<and>
   r_completed_at (hd (t_jobs (s_db demo_sys5))) \<noteq> None"
proof -
  have "t_jobs (s_db demo_sys5) \<noteq> []" by code_simp
  then have "hd (t_jobs (s_db demo_sys5)) \<in> set (t_jobs (s_db demo_sys5))" by simp
  moreover have "terminal (r_status (hd (t_jobs (s_db demo_sys5))))" by code_simp
  ultimately show ?thesis using job_rows_well_formed [OF demo_reachable(4)] by blast
qed

text \<open>C3: In every reachable state a job has exactly one dead-letter entry if it is
  dead-lettered, and none otherwise: retries, recovery and the finalisation of roots never
  duplicate or lose an entry.\<close>

theorem dead_letters_exact:
  assumes "reachable ext s"
  shows "count_where (\<lambda>e. dl_job_id e = i) (t_dlq (s_db s)) =
    (if \<exists>r\<in>set (t_jobs (s_db s)). r_id r = i \<and> r_status r = StatusDeadLettered then 1 else 0)"
proof -
  let ?p = "\<lambda>r. r_id r = i \<and> r_status r = StatusDeadLettered"
  have ok: "tables_ok (s_db s)" by (rule reachable_tables [OF assms])
  then have "count_where ?p (t_jobs (s_db s)) \<le> 1"
    by (intro count_where_distinct_key [where k = r_id and a = i]) (auto simp: tables_ok_def unique_keys_def)
  moreover have "count_where ?p (t_jobs (s_db s)) = 0 \<longleftrightarrow> \<not> (\<exists>r\<in>set (t_jobs (s_db s)). ?p r)"
    by (auto simp: count_where_0_iff)
  moreover have "count_where (\<lambda>e. dl_job_id e = i) (t_dlq (s_db s)) = count_where ?p (t_jobs (s_db s))"
    using ok by (simp add: tables_ok_def dlq_ok_def dlq_count_def dead_count_def)
  ultimately show ?thesis by auto
qed

theorem dead_letters_exact_witness:
  "count_where (\<lambda>e. dl_job_id e = ''job-1'') (t_dlq (s_db demo_sys5)) = 1"
proof -
  have "\<exists>r\<in>set (t_jobs (s_db demo_sys5)). r_id r = ''job-1'' \<and> r_status r = StatusDeadLettered"
    by code_simp
  then show ?thesis using dead_letters_exact [OF demo_reachable(4), of "''job-1''"] by presburger
qed

lemma sorted_from_one:
  assumes "distinct xs" "set xs \<subseteq> {1..int (length xs)}"
  shows "sort xs = [1..int (length xs)]"
proof (rule sorted_distinct_set_unique)
  have "card (set xs) = card {1..int (length xs)}" using assms(1) by (simp add: distinct_card)
  then have "set xs = {1..int (length xs)}" using card_subset_eq [OF _ assms(2)] by simp
  then show "set (sort xs) = set [1..int (length xs)]" by simp
qed (use assms(1) in simp_all)

lemma attempts_numbered:
  assumes ok: "tables_ok d" and r: "r \<in> set (t_jobs d)"
  shows "sort (map at_attempt (filter (\<lambda>a. at_job_id a = r_id r) (t_attempts d))) = [1..r_attempts r]"
proof -
  let ?xs = "filter (\<lambda>a. at_job_id a = r_id r) (t_attempts d)"
  from ok have att: "attempts_ok d" and uk: "unique_keys d" by (simp_all add: tables_ok_def)
  have "count_where (\<lambda>k. fst k = i) (map at_key xs) = length (filter (\<lambda>a. at_job_id a = i) xs)"
    for i and xs :: "attempt_row list"
    by (induction xs) (auto simp: at_key_def)
  then have len: "int (length (map at_attempt ?xs)) = r_attempts r" using att r by (simp add: attempts_ok_def)
  have "distinct (map at_key (t_attempts d))" using att by (simp add: attempts_ok_def)
  then have "inj_on at_key (set ?xs)" "distinct ?xs" by (auto simp: distinct_map intro: inj_on_subset)
  then have "distinct (map at_attempt ?xs)" by (auto simp: distinct_map at_key_def inj_on_def)
  moreover have "1 \<le> at_attempt a \<and> at_attempt a \<le> r_attempts r" if "a \<in> set (t_attempts d)" "at_job_id a = r_id r" for a
  proof -
    from att that(1) obtain r' where "r' \<in> set (t_jobs d)" "r_id r' = at_job_id a" "1 \<le> at_attempt a" "at_attempt a \<le> r_attempts r'"
      unfolding attempts_ok_def by blast
    then show ?thesis using unique_row [OF uk _ r] that(2) by metis
  qed
  then have "set (map at_attempt ?xs) \<subseteq> {1..int (length (map at_attempt ?xs))}" unfolding len by auto
  ultimately show ?thesis using sorted_from_one len by metis
qed

text \<open>C5: In every reachable state the attempts of a job are numbered from 1 to its attempt count, one
  row for each number, and the next claimable job can always be claimed: the insert of its attempt
  row never violates the unique key \<open>(job_id, attempt)\<close>.\<close>

theorem attempt_history_complete:
  assumes "reachable ext s" and "r \<in> set (t_jobs (s_db s))"
  shows "sort (map at_attempt (filter (\<lambda>a. at_job_id a = r_id r) (t_attempts (s_db s)))) = [1..r_attempts r] \<and>
    distinct (map (\<lambda>a. (at_job_id a, at_attempt a)) (t_attempts (s_db s))) \<and>
    (\<exists>res d'. Claim now locked w lease token (s_db s) = Inr (res, d'))"
proof -
  have ok: "tables_ok (s_db s)" by (rule reachable_tables [OF assms(1)])
  have "\<exists>res d'. Claim now locked w lease token (s_db s) = Inr (res, d')"
    using Claim_total [OF ok] by (cases "next_claim now locked (s_db s)") (fastforce simp: Claim_def)+
  then show ?thesis
    using ok attempts_numbered [OF ok assms(2)] by (simp add: tables_ok_def attempts_ok_def at_key_def [abs_def])
qed

theorem attempt_history_complete_witness:
  "\<exists>r\<in>set (t_jobs (s_db demo_sys5)). r_attempts r = 1 \<and>
    sort (map at_attempt (filter (\<lambda>a. at_job_id a = r_id r) (t_attempts (s_db demo_sys5)))) = [1]"
proof -
  let ?r = "hd (t_jobs (s_db demo_sys5))"
  have "t_jobs (s_db demo_sys5) \<noteq> []" by code_simp
  then have r: "?r \<in> set (t_jobs (s_db demo_sys5))" by simp
  have "r_attempts ?r = 1" by code_simp
  moreover have "[1..1::int] = [1]" by simp
  ultimately show ?thesis using attempt_history_complete [OF demo_reachable(4) r] r by metis
qed

text \<open>In every reachable state a stored result belongs to an existing completed job, and a
  job has at most one.\<close>

theorem results_of_completed_jobs:
  assumes "reachable ext s"
  shows "distinct (map rs_job_id (t_results (s_db s))) \<and>
    (\<forall>x\<in>set (t_results (s_db s)).
       \<exists>r\<in>set (t_jobs (s_db s)). r_id r = rs_job_id x \<and> r_status r = StatusCompleted)"
  using reachable_tables [OF assms] by (simp add: tables_ok_def results_ok_def)

theorem results_of_completed_jobs_witness:
  "distinct (map rs_job_id (t_results (s_db demo_sys5)))"
  using results_of_completed_jobs [OF demo_reachable(4)] by blast

text \<open>C6: Terminal jobs are immutable and no job is lost: along any sequence of operations a
  row keeps its identity columns (id, type, payload, root, parent, keys, attempt limit), its
  status only moves along the transition table of the contract, and a row in a terminal
  state stays as it is, column by column.\<close>

theorem terminal_jobs_immutable:
  assumes "reachable ext s" and "r \<in> set (t_jobs (s_db s))" and "(sys_step ext)\<^sup>*\<^sup>* s t"
  shows "\<exists>r'\<in>set (t_jobs (s_db t)). same_job r r' \<and> (terminal (r_status r) \<longrightarrow> r' = r) \<and>
    valid_transition\<^sup>*\<^sup>* (r_status r) (r_status r')"
  using steps_row [OF assms(3) reachable_ok [OF assms(1)] assms(2)] by blast

theorem terminal_jobs_immutable_witness:
  "\<exists>r'\<in>set (t_jobs (s_db demo_sys5)). same_job (hd (t_jobs (s_db demo_sys3))) r'"
proof -
  have "t_jobs (s_db demo_sys3) \<noteq> []" by code_simp
  then have "hd (t_jobs (s_db demo_sys3)) \<in> set (t_jobs (s_db demo_sys3))" by simp
  moreover have "(sys_step demo_ext)\<^sup>*\<^sup>* demo_sys3 demo_sys5" using demo_steps(4,5) by simp
  ultimately show ?thesis using terminal_jobs_immutable [OF demo_reachable(2)] by blast
qed

section \<open>Operations\<close>



text \<open>C8: Submissions are idempotent: once a submission with a non-empty key has been
  accepted, a further submission with the same key changes nothing in any later state; with
  the same request hash it returns the same job with \<open>created = false\<close>, with another hash it
  is refused with \<open>ErrIdempotencyConflict\<close>.\<close>

theorem Submit_idempotent:
  assumes "reachable ext s" and "r \<in> set (t_jobs (s_db s))"
    and "r_idempotency_key r = Some (SubIdempotencyKey sub)" and "SubIdempotencyKey sub \<noteq> []"
    and "(sys_step ext)\<^sup>*\<^sup>* s t" and "jsonValue ext (SubPayload sub) = Inr payload"
    and "r_request_hash r = Some h"
  shows "if h = submissionHash ext (default_attempts sub)
    then \<exists>r'\<in>set (t_jobs (s_db t)). same_job r r' \<and>
      Submit ext now newID sub (s_db t) = Inr (scanServiceJob r', False, s_db t)
    else Submit ext now newID sub (s_db t) = Inl ErrIdempotencyConflict"
proof -
  from steps_row [OF assms(5) reachable_ok [OF assms(1)] assms(2)] obtain r' where
    r': "r' \<in> set (t_jobs (s_db t))" "same_job r r'" "sys_ok t" by blast
  then have "r_idempotency_key r' = Some (SubIdempotencyKey sub)" "r_request_hash r' = Some h"
    using assms(3,7) by (simp_all add: same_job_def)
  from Submit_existing_key [OF r'(3,1) this(1) assms(4) this(2) assms(6), of now newID] r'(1,2)
  show ?thesis by auto
qed

theorem Submit_idempotent_witness:
  "\<exists>r'\<in>set (t_jobs (s_db demo_sys5)).
     Submit demo_ext 99 ''job-9'' demo_submission (s_db demo_sys5) = Inr (scanServiceJob r', False, s_db demo_sys5)"
proof -
  let ?r = "hd (t_jobs (s_db demo_sys3))"
  have "t_jobs (s_db demo_sys3) \<noteq> []" by code_simp
  then have r: "?r \<in> set (t_jobs (s_db demo_sys3))" by simp
  have key: "r_idempotency_key ?r = Some (SubIdempotencyKey demo_submission)"
    "SubIdempotencyKey demo_submission \<noteq> []" by code_simp+
  have hash: "r_request_hash ?r = Some (submissionHash demo_ext (default_attempts demo_submission))" by code_simp
  have pay: "jsonValue demo_ext (SubPayload demo_submission) = Inr (Some ''{}'')" by code_simp
  have "(sys_step demo_ext)\<^sup>*\<^sup>* demo_sys3 demo_sys5" using demo_steps(4,5) by simp
  from Submit_idempotent [OF demo_reachable(2) r key this pay hash, of 99 "''job-9''"]
  show ?thesis by auto
qed

text \<open>C9: \<^verbatim>\<open>ReclaimExpired\<close> recovers exactly the expired leases it can lock: it returns their
  number, moves each to \<open>cancelled\<close> (cancellation was requested), \<open>dead_lettered\<close> (no attempt
  left) or \<open>pending\<close> with its lease cleared, keeps every other row that is not a waiting root
  as it was, and leaves no unlocked job with an expired lease.\<close>

theorem ReclaimExpired_exact:
  assumes "reachable ext s" and "ReclaimExpired ext now locked (s_db s) = Inr (n, d')"
  defines "found \<equiv> filter (\<lambda>r. expired now r \<and> \<not> locked (r_id r)) (t_jobs (s_db s))"
  shows "n = length found \<and>
    (\<forall>r\<in>set found. reclaim_row now (reclaim_status (scanServiceJob r)) r \<in> set (t_jobs d')) \<and>
    (\<forall>r\<in>set (t_jobs (s_db s)) - set found. r_status r \<noteq> StatusWaiting \<longrightarrow> r \<in> set (t_jobs d')) \<and>
    (\<forall>r\<in>set (t_jobs d'). expired now r \<longrightarrow> locked (r_id r))"
proof -
  have ok: "tables_ok (s_db s)" by (rule reachable_tables [OF assms(1)])
  note step = ReclaimExpired_step [OF assms(2) ok]
  show ?thesis
  proof (intro conjI ballI impI)
    show "n = length found" using step(3) by (simp add: found_def)
    show "reclaim_row now (reclaim_status (scanServiceJob r)) r \<in> set (t_jobs d')" if "r \<in> set found" for r
      using that unfolding found_def by (rule step(4))
    show "r \<in> set (t_jobs d')" if "r \<in> set (t_jobs (s_db s)) - set found" "r_status r \<noteq> StatusWaiting" for r
      using that step(5) [of r] by (simp add: found_def)
    show "locked (r_id r)" if "r \<in> set (t_jobs d')" "expired now r" for r
      using that reclaimed_none_expired [OF assms(2) ok] by blast
  qed
qed

definition demo_reclaimed :: "nat \<times> db" where
  "demo_reclaimed = (case ReclaimExpired demo_ext 100 (\<lambda>_. False) (s_db demo_sys4) of
     Inr x \<Rightarrow> x | Inl _ \<Rightarrow> (0, empty_db))"

theorem ReclaimExpired_exact_witness:
  "fst demo_reclaimed = 1 \<and> list_all (\<lambda>r. \<not> expired 100 r) (t_jobs (snd demo_reclaimed))"
proof -
  have run: "ReclaimExpired demo_ext 100 (\<lambda>_. False) (s_db demo_sys4) = Inr (fst demo_reclaimed, snd demo_reclaimed)"
    by code_simp
  note exact = ReclaimExpired_exact [OF demo_reachable(3) run]
  have "length (filter (\<lambda>r. expired 100 r \<and> \<not> False) (t_jobs (s_db demo_sys4))) = 1" by code_simp
  with exact [THEN conjunct1] have "fst demo_reclaimed = 1" by (rule trans)
  moreover have "list_all (\<lambda>r. \<not> expired 100 r) (t_jobs (snd demo_reclaimed))"
    unfolding list_all_iff using exact by blast
  ultimately show ?thesis ..
qed

text \<open>C10: When the last descendant of a waiting root is no longer active, finalisation
  settles the root: it commits and gives the root the worst outcome of its descendants
  (dead-lettered before failed or cancelled before completed) with a completion time. While
  a descendant is active it changes nothing.\<close>

theorem finalizeRoot_outcome:
  assumes "reachable ext s" and "r \<in> set (t_jobs (s_db s))" and "r_status r = StatusWaiting"
    and "jsonb_in ext (root_summary (r_id r) (s_db s)) \<noteq> None"
  shows "if \<exists>x\<in>set (t_jobs (s_db s)). is_descendant (r_id r) x \<and> active_status (r_status x)
    then finalizeRoot ext now (r_id r) (s_db s) = Inr (s_db s)
    else \<exists>d'. finalizeRoot ext now (r_id r) (s_db s) = Inr d' \<and>
      finalize_row now
        (if \<exists>x\<in>set (t_jobs (s_db s)). is_descendant (r_id r) x \<and> r_status x = StatusDeadLettered
         then StatusDeadLettered
         else if \<exists>x\<in>set (t_jobs (s_db s)). is_descendant (r_id r) x \<and> r_status x \<noteq> StatusCompleted
         then StatusFailed else StatusCompleted) r \<in> set (t_jobs d')"
proof (cases "\<exists>x\<in>set (t_jobs (s_db s)). is_descendant (r_id r) x \<and> active_status (r_status x)")
  case True
  then have "active_descendants (r_id r) (s_db s) \<noteq> 0" by (auto simp: active_descendants_def count_where_0_iff)
  then show ?thesis using True by (simp add: finalizeRoot_def)
next
  case False
  then have active: "active_descendants (r_id r) (s_db s) = 0"
    by (auto simp: active_descendants_def count_where_0_iff)
  have rest: "r_status x \<in> {StatusCompleted, StatusFailed, StatusDeadLettered, StatusCancelled}"
    if "x \<in> set (t_jobs (s_db s))" "is_descendant (r_id r) x" for x
    using False that by (cases "r_status x") (auto simp: active_status_def)
  have "root_outcome (r_id r) (s_db s) =
      (if \<exists>x\<in>set (t_jobs (s_db s)). is_descendant (r_id r) x \<and> r_status x = StatusDeadLettered
       then StatusDeadLettered
       else if \<exists>x\<in>set (t_jobs (s_db s)). is_descendant (r_id r) x \<and> r_status x \<noteq> StatusCompleted
       then StatusFailed else StatusCompleted)"
    using rest by (fastforce simp: root_outcome_def dead_descendants_def failed_descendants_def count_where_pos_iff)
  then show ?thesis
    using finalizeRoot_settles [OF assms(2) refl assms(3) active, of ext now]
      assms(4) unfolding if_not_P [OF False] by simp
qed

theorem finalizeRoot_outcome_witness:
  "finalizeRoot demo_ext 99 ''job-1'' (s_db demo_sys3) = Inr (s_db demo_sys3)"
proof -
  let ?r = "hd (t_jobs (s_db demo_sys3))"
  have "t_jobs (s_db demo_sys3) \<noteq> []" by code_simp
  then have r: "?r \<in> set (t_jobs (s_db demo_sys3))" by simp
  have st: "r_status ?r = StatusWaiting" and i: "r_id ?r = ''job-1''" by code_simp+
  have json: "jsonb_in demo_ext (root_summary (r_id ?r) (s_db demo_sys3)) \<noteq> None" by (simp add: demo_ext_def)
  have "\<exists>x\<in>set (t_jobs (s_db demo_sys3)). is_descendant ''job-1'' x \<and> active_status (r_status x)" by code_simp
  with finalizeRoot_outcome [OF demo_reachable(2) r st json, of 99] i show ?thesis by simp
qed



text \<open>C12: A worker that holds the lease can always complete its job: given fresh identifiers
  for the children and payloads that are JSON, \<^verbatim>\<open>Complete\<close> commits and releases the lease; the
  job is completed, except that a root with children waits for them; the attempt count and
  the identity of the job are kept.\<close>

theorem Complete_outcome:
  assumes "reachable ext s" and "v \<in> set (s_leases s)" and "holds_lease s v"
    and "\<forall>c\<in>set (Children res). 0 \<le> SubMaxAttempts c \<and> (\<exists>p. jsonValue ext (SubPayload c) = Inr p)"
    and "inj newIDs" and "\<forall>k. \<not> has_job (s_db s) (newIDs k)"
    and "jsonb_in ext (Result res) \<noteq> None" and "summaries_are_json ext (RootJobID v)"
  shows "\<exists>d' r. Complete ext now newIDs v res (s_db s) = Inr d' \<and> r \<in> set (t_jobs d') \<and>
    r_id r = ID v \<and> r_lease_token r = None \<and> r_attempts r = Attempts v \<and>
    r_status r = (if Children res \<noteq> [] \<and> ID v = RootJobID v then StatusWaiting else StatusCompleted)"
proof -
  have ok: "sys_ok s" by (rule reachable_ok [OF assms(1)])
  then have agrees: "lease_agrees (s_db s) v" using assms(2) by (simp add: sys_ok_def leases_ok_def)
  from assms(3) obtain x where x: "x \<in> set (t_jobs (s_db s))" "lease_held v x" by (auto simp: holds_lease_def)
  from Complete_commits [OF ok assms(2-8)] obtain d' where
    d': "Complete ext now newIDs v res (s_db s) = Inr d'" by blast
  have max: "\<forall>c\<in>set (Children res). 0 \<le> SubMaxAttempts c" using assms(4) by blast
  let ?r = "complete_row now (complete_status v res) x"
  have "r_id ?r = ID v \<and> r_lease_token ?r = None \<and> r_attempts ?r = Attempts v \<and>
    r_status ?r = (if Children res \<noteq> [] \<and> ID v = RootJobID v then StatusWaiting else StatusCompleted)"
    using lease_held_row [OF agrees x] by (simp add: complete_row_def clear_lease_def complete_status_def)
  then show ?thesis using d' Complete_row_kept [OF d' max x] by blast
qed

theorem Complete_outcome_witness:
  "\<exists>d'. Complete demo_ext 45 (\<lambda>n. ''new'' @ replicate n CHR ''x'') demo_job2 demo_result (s_db demo_sys4) = Inr d'"
proof -
  have "inj (\<lambda>n. ''new'' @ replicate n CHR ''x'')" by (rule injI) (auto dest: arg_cong [of _ _ length])
  moreover have "\<forall>k. \<not> has_job (s_db demo_sys4) (''new'' @ replicate k CHR ''x'')"
  proof -
    have "map r_id (t_jobs (s_db demo_sys4)) = [''job-1'', ''job-2'']" by code_simp
    then have "r_id ` set (t_jobs (s_db demo_sys4)) = {''job-1'', ''job-2''}"
      by (metis list.set(1) list.set(2) set_map)
    then show ?thesis by (simp add: has_job_iff)
  qed
  moreover have "demo_job2 \<in> set (s_leases demo_sys4)" by (simp add: demo_sys4_def)
  moreover have "holds_lease demo_sys4 demo_job2" by code_simp
  moreover have "\<forall>c\<in>set (Children demo_result). 0 \<le> SubMaxAttempts c \<and>
      (\<exists>p. jsonValue demo_ext (SubPayload c) = Inr p)"
    by (simp add: demo_result_def demo_child_def jsonValue_def demo_ext_def)
  moreover have "jsonb_in demo_ext (Result demo_result) \<noteq> None" by (simp add: demo_ext_def)
  moreover have "summaries_are_json demo_ext (RootJobID demo_job2)"
    by (simp add: summaries_are_json_def demo_ext_def)
  ultimately show ?thesis using Complete_outcome [OF demo_reachable(3)] by blast
qed

lemma cancel_one_row:
  assumes ok: "tables_ok d" and r: "r \<in> set (t_jobs d)" "job_by_id d (r_id r) = Some r"
    and f: "cancel_updates now r (t_jobs d) = Some (update_where (\<lambda>x. r_id x = r_id r) f (t_jobs d))"
      "r_id (f r) = r_id r" "r_status r \<noteq> StatusCancelled"
  shows "\<exists>d'. Cancel now (r_id r) d = Inr (scanServiceJob (f r), d') \<and>
    set (t_jobs d') = insert (f r) (set (t_jobs d) - {r})"
proof -
  from ok have "unique_keys d" by (simp add: tables_ok_def)
  from unique_match [OF this r(1)]
  have one: "set (update_where (\<lambda>x. r_id x = r_id r) f (t_jobs d)) = insert (f r) (set (t_jobs d) - {r})"
    using r(1) by (auto simp: set_update_where)
  then have "f r \<in> set (update_where (\<lambda>x. r_id x = r_id r) f (t_jobs d))" by simp
  from Cancel_commits [OF ok r f(1) this f(2,3)] show ?thesis using one by metis
qed

text \<open>C13: \<^verbatim>\<open>Cancel\<close> by the state of the job: an already cancelled job is returned unchanged, a
  finished job is a conflict, a running job is only flagged for its worker, a job that has
  not started is cancelled at once, and a waiting root takes its idle descendants with it and
  flags the running ones.\<close>

theorem Cancel_by_status:
  assumes "reachable ext s" and "r \<in> set (t_jobs (s_db s))"
  shows "case r_status r of
      StatusCancelled \<Rightarrow> Cancel now (r_id r) (s_db s) = Inr (scanServiceJob r, s_db s)
    | StatusCompleted \<Rightarrow> Cancel now (r_id r) (s_db s) = Inl ErrConflict
    | StatusFailed \<Rightarrow> Cancel now (r_id r) (s_db s) = Inl ErrConflict
    | StatusDeadLettered \<Rightarrow> Cancel now (r_id r) (s_db s) = Inl ErrConflict
    | StatusRunning \<Rightarrow> \<exists>d'. Cancel now (r_id r) (s_db s) = Inr (scanServiceJob (request_cancel now r), d') \<and>
        set (t_jobs d') = insert (request_cancel now r) (set (t_jobs (s_db s)) - {r})
    | StatusWaiting \<Rightarrow> \<exists>d'. Cancel now (r_id r) (s_db s) = Inr (scanServiceJob (cancel_row now r), d') \<and>
        (\<forall>x\<in>set (t_jobs (s_db s)). r_root_job_id x = r_root_job_id r \<longrightarrow>
           (idle_row x \<longrightarrow> cancel_row now x \<in> set (t_jobs d')) \<and>
           (r_status x = StatusRunning \<longrightarrow> request_cancel now x \<in> set (t_jobs d')))
    | _ \<Rightarrow> \<exists>d'. Cancel now (r_id r) (s_db s) = Inr (scanServiceJob (cancel_row now r), d') \<and>
        set (t_jobs d') = insert (cancel_row now r) (set (t_jobs (s_db s)) - {r})"
proof -
  let ?d = "s_db s"
  have ok: "tables_ok ?d" by (rule reachable_tables [OF assms(1)])
  then have uk: "unique_keys ?d" by (simp add: tables_ok_def)
  have by_id: "job_by_id ?d (r_id r) = Some r"
    unfolding job_by_id_def using uk assms(2) by (intro find_key) (simp_all add: unique_keys_def)
  note commit = Cancel_commits [OF ok assms(2) by_id, of now]
  note single = cancel_one_row [OF ok assms(2) by_id, of now]
  show ?thesis
  proof (cases "r_status r")
    case StatusWaiting
    let ?idle = "\<lambda>x. r_root_job_id x = r_root_job_id r \<and>
        r_status x \<in> {StatusPending, StatusRetryScheduled, StatusWaiting}"
    let ?run = "\<lambda>x. r_root_job_id x = r_root_job_id r \<and> r_status x = StatusRunning"
    let ?rows = "update_where ?run (request_cancel now) (update_where ?idle (cancel_row now) (t_jobs ?d))"
    have rows: "cancel_updates now r (t_jobs ?d) = Some ?rows" using StatusWaiting by (simp add: cancel_updates_def)
    have in_rows: "(?idle x \<longrightarrow> cancel_row now x \<in> set ?rows) \<and> (?run x \<longrightarrow> request_cancel now x \<in> set ?rows)"
      if "x \<in> set (t_jobs ?d)" for x
      using that by (auto simp: set_update_where cancel_row_def)
    have "cancel_row now r \<in> set ?rows" using in_rows [OF assms(2)] StatusWaiting by simp
    then obtain d' where "Cancel now (r_id r) ?d = Inr (scanServiceJob (cancel_row now r), d')" "t_jobs d' = ?rows"
      using commit [OF rows, of "cancel_row now r"] StatusWaiting by (auto simp: cancel_row_def)
    then show ?thesis using in_rows StatusWaiting by (auto simp: idle_row_def)
  next
    case StatusRunning
    then show ?thesis using single [of "request_cancel now"] by (simp add: cancel_updates_def request_cancel_def [of now r])
  next
    case StatusPending
    then show ?thesis using single [of "cancel_row now"] by (simp add: cancel_updates_def cancel_row_def [of now r])
  next
    case StatusRetryScheduled
    then show ?thesis using single [of "cancel_row now"] by (simp add: cancel_updates_def cancel_row_def [of now r])
  qed (use by_id in \<open>simp_all add: Cancel_def cancel_updates_def\<close>)
qed

theorem Cancel_by_status_witness:
  "\<exists>r\<in>set (t_jobs (s_db demo_sys5)). Cancel 99 (r_id r) (s_db demo_sys5) = Inl ErrConflict"
proof -
  let ?r = "hd (t_jobs (s_db demo_sys5))"
  have "t_jobs (s_db demo_sys5) \<noteq> []" by code_simp
  then have r: "?r \<in> set (t_jobs (s_db demo_sys5))" by simp
  have "r_status ?r = StatusDeadLettered" by code_simp
  with Cancel_by_status [OF demo_reachable(4) r, of 99] r show ?thesis by auto
qed


definition demo_replayed :: "job \<times> db" where
  "demo_replayed = (case ReplayDLQ demo_ext 70 ''job-3'' 2 0 (s_db demo_sys5) of
     Inr x \<Rightarrow> x | Inl _ \<Rightarrow> (NewJob [] [] [], empty_db))"


definition demo_cancelled :: "job \<times> db" where
  "demo_cancelled = (case Cancel 45 ''job-2'' demo_db3 of
     Inr x \<Rightarrow> x | Inl _ \<Rightarrow> (NewJob [] [] [], empty_db))"

text \<open>Cancelling the only remaining child of a waiting root strands the root: the child is
  cancelled, no descendant is active any more, and the root still waits, because \<^verbatim>\<open>Cancel\<close>
  does not finalise the root of the job it cancels.\<close>

theorem cancelled_child_strands_root:
  "Cancel 45 ''job-2'' demo_db3 = Inr demo_cancelled \<and> Status (fst demo_cancelled) = StatusCancelled \<and>
   active_descendants ''job-1'' (snd demo_cancelled) = 0 \<and>
   map r_status (t_jobs (snd demo_cancelled)) = [StatusWaiting, StatusCancelled]"
proof (intro conjI)
  show "Cancel 45 ''job-2'' demo_db3 = Inr demo_cancelled" by code_simp
  show "Status (fst demo_cancelled) = StatusCancelled" by code_simp
  show "active_descendants ''job-1'' (snd demo_cancelled) = 0" by code_simp
  show "map r_status (t_jobs (snd demo_cancelled)) = [StatusWaiting, StatusCancelled]" by code_simp
qed

end
