(* ===== verification/Go_Sort.thy ===== *)
theory Go_Sort
  imports Prelude
begin

text \<open>
  \<^verbatim>\<open>sort.Slice\<close> and \<^verbatim>\<open>sort.Strings\<close>: some sorted permutation of the argument, here by
  insertion. The locale \<open>slice_order\<close> states what the sources rely on when they pass a
  \<^verbatim>\<open>lt\<close> function (a strict order, total up to a key); where it holds, the result does not
  depend on the sorting algorithm.
\<close>

fun insert_by :: "('a \<Rightarrow> 'a \<Rightarrow> bool) \<Rightarrow> 'a \<Rightarrow> 'a list \<Rightarrow> 'a list" where
  "insert_by lt x [] = [x]"
| "insert_by lt x (y # ys) = (if lt y x then y # insert_by lt x ys else x # y # ys)"

definition sort_by :: "('a \<Rightarrow> 'a \<Rightarrow> bool) \<Rightarrow> 'a list \<Rightarrow> 'a list" where
  "sort_by lt xs = foldr (insert_by lt) xs []"

lemma sort_by_Nil [simp]: "sort_by lt [] = []"
  by (simp add: sort_by_def)

lemma sort_by_Cons [simp]: "sort_by lt (x # xs) = insert_by lt x (sort_by lt xs)"
  by (simp add: sort_by_def)

lemma mset_insert_by [simp]: "mset (insert_by lt x xs) = add_mset x (mset xs)"
  by (induction xs) auto

lemma mset_sort_by [simp]: "mset (sort_by lt xs) = mset xs"
  by (induction xs) auto

lemma set_sort_by [simp]: "set (sort_by lt xs) = set xs"
  by (metis mset_sort_by set_mset_mset)

lemma length_sort_by [simp]: "length (sort_by lt xs) = length xs"
  by (metis mset_sort_by size_mset)

locale slice_order =
  fixes lt :: "'a \<Rightarrow> 'a \<Rightarrow> bool" and key :: "'a \<Rightarrow> 'k"
  assumes irrefl: "\<not> lt x x"
    and trans: "lt x y \<Longrightarrow> lt y z \<Longrightarrow> lt x z"
    and total: "lt x y \<or> lt y x \<or> key x = key y"
    and respects: "key x = key y \<Longrightarrow> \<not> lt x y"
begin

lemma asym: "lt x y \<Longrightarrow> \<not> lt y x"
  using irrefl trans by blast

lemma key_trans:
  assumes "key x = key y" and "lt y z"
  shows "lt x z"
proof (rule ccontr)
  assume "\<not> lt x z"
  then consider "lt z x" | "key x = key z" using total by blast
  then show False
  proof cases
    case 1
    with assms(2) have "lt y x" using trans by blast
    with assms(1) show ?thesis using respects by metis
  next
    case 2
    with assms show ?thesis using respects by metis
  qed
qed

lemma not_less_trans:
  assumes "\<not> lt y x" and "\<not> lt z y"
  shows "\<not> lt z x"
proof
  assume zx: "lt z x"
  from assms(1) consider "lt x y" | "key x = key y" using total by blast
  then show False
  proof cases
    case 1
    with zx assms(2) show ?thesis using trans by blast
  next
    case 2
    from assms(2) consider "lt y z" | "key z = key y" using total by blast
    then show ?thesis
    proof cases
      case 1
      with 2 have "lt x z" by (intro key_trans [of x y z])
      with zx show ?thesis using asym by blast
    next
      case key: 2
      then have "key z = key x" using 2 by simp
      with zx show ?thesis using respects by blast
    qed
  qed
qed

lemma sorted_insert:
  "sorted_wrt (\<lambda>a b. \<not> lt b a) xs \<Longrightarrow> sorted_wrt (\<lambda>a b. \<not> lt b a) (insert_by lt x xs)"
proof (induction xs)
  case (Cons y ys)
  have "set (insert_by lt x ys) = insert x (set ys)"
    by (metis mset_insert_by set_mset_add_mset_insert set_mset_mset)
  moreover have "\<not> lt z x" if "\<not> lt y x" "z \<in> set ys" for z
    using that Cons.prems not_less_trans [of y x z] by simp
  ultimately show ?case using Cons asym [of y x] by (cases "lt y x") simp_all
qed simp

lemma sorted: "sorted_wrt (\<lambda>a b. \<not> lt b a) (sort_by lt xs)"
  by (induction xs) (auto intro: sorted_insert)

text \<open>Every sorted permutation of elements with distinct keys is the one computed here.\<close>

lemma sorted_unique:
  assumes "mset xs = mset ys" and "sorted_wrt (\<lambda>a b. \<not> lt b a) xs"
    and "sorted_wrt (\<lambda>a b. \<not> lt b a) ys" and "inj_on key (set xs)"
  shows "xs = ys"
  using assms
proof (induction xs arbitrary: ys)
  case (Cons x xs)
  then obtain y zs where ys: "ys = y # zs" by (cases ys) auto
  have in_x: "x \<in> set (y # zs)" and in_y: "y \<in> set (x # xs)"
    using Cons.prems(1) ys by (metis list.set_intros(1) set_mset_mset)+
  have "\<not> lt y x" using in_y Cons.prems(2) irrefl by auto
  moreover have "\<not> lt x y" using in_x Cons.prems(3) irrefl ys by auto
  ultimately have "key x = key y" using total by blast
  with Cons.prems(4) in_y have "x = y" by (metis inj_onD list.set_intros(1))
  with Cons.prems ys show ?case by (auto intro!: Cons.IH)
qed simp

lemma sort_by_unique:
  assumes "mset xs = mset ys" and "inj_on key (set xs)"
  shows "sort_by lt xs = sort_by lt ys"
  using assms sorted by (intro sorted_unique) auto

end

text \<open>The lexicographic orders of the sources.\<close>

definition less2 :: "('a \<Rightarrow> string) \<Rightarrow> ('a \<Rightarrow> string) \<Rightarrow> 'a \<Rightarrow> 'a \<Rightarrow> bool" where
  "less2 f g a b = (if f a \<noteq> f b then f a < f b else g a < g b)"

lemma less2_order: "slice_order (less2 f g) (\<lambda>a. (f a, g a))"
  by unfold_locales (auto simp: less2_def split: if_splits)

interpretation string_order: slice_order "(<) :: string \<Rightarrow> string \<Rightarrow> bool" "\<lambda>s. s"
  by unfold_locales auto

end
