(* ===== verification/Store_Queries.thy ===== *)
theory Store_Queries
  imports Store_Properties Go_Sort
begin

text \<open>
  The queries of the store (\<^verbatim>\<open>Get\<close>, \<^verbatim>\<open>List\<close>, \<^verbatim>\<open>Counts\<close>, \<^verbatim>\<open>ListDLQ\<close> in
  \<^verbatim>\<open>src/internal/store/postgres/service.go\<close>) and their cursors. Base64 and the RFC 3339
  text of a time are parameters (\<open>cursor_codec\<close>); text columns compare bytewise.
\<close>

section \<open>Cursors\<close>

record cursor_codec =
  b64_encode :: "string \<Rightarrow> string"
  b64_decode :: "string \<Rightarrow> string option"
  time_format :: "gotime \<Rightarrow> string"
  time_parse :: "string \<Rightarrow> gotime option"
  scan_int :: "string \<Rightarrow> int option"

definition encodeCursor :: "cursor_codec \<Rightarrow> gotime \<Rightarrow> string \<Rightarrow> string" where
  "encodeCursor cc created i = b64_encode cc (time_format cc created @ ''|'' @ i)"

text \<open>\<^verbatim>\<open>strings.SplitN(s, "|", 2)\<close>: the text before and after the first bar.\<close>

fun split_bar :: "string \<Rightarrow> (string \<times> string) option" where
  "split_bar [] = None"
| "split_bar (c # cs) = (if c = CHR ''|'' then Some ([], cs)
     else map_option (\<lambda>(a, b). (c # a, b)) (split_bar cs))"

text \<open>\<open>ErrSQL\<close> stands for an error value that is none of the package's own, here the one of
  \<^verbatim>\<open>time.Parse\<close>.\<close>

definition decodeCursor :: "cursor_codec \<Rightarrow> string \<Rightarrow> store_error + gotime \<times> string" where
  "decodeCursor cc cursor =
     (case b64_decode cc cursor of
        None \<Rightarrow> Inl ErrConflict
      | Some s \<Rightarrow> (case split_bar s of
          None \<Rightarrow> Inl ErrConflict
        | Some (a, b) \<Rightarrow> (case time_parse cc a of None \<Rightarrow> Inl ErrSQL | Some t \<Rightarrow> Inr (t, b))))"

section \<open>Pattern matching\<close>

text \<open>SQL \<open>LIKE\<close> with the pattern characters \<open>%\<close> and \<open>_\<close> and the escape character, on
  lower-cased text for \<open>ILIKE\<close>.\<close>

fun like :: "string \<Rightarrow> string \<Rightarrow> bool" where
  "like [] s = (s = [])"
| "like (p # ps) s =
     (if p = CHR ''%'' then like ps s \<or> (case s of [] \<Rightarrow> False | c # cs \<Rightarrow> like (p # ps) cs)
      else if p = CHR ''_'' then (case s of [] \<Rightarrow> False | c # cs \<Rightarrow> like ps cs)
      else if p = CHR 0x5C then
        (case ps of [] \<Rightarrow> False
         | q # qs \<Rightarrow> (case s of [] \<Rightarrow> False | c # cs \<Rightarrow> c = q \<and> like qs cs))
      else (case s of [] \<Rightarrow> False | c # cs \<Rightarrow> c = p \<and> like ps cs))"

definition ilike_contains :: "string \<Rightarrow> string \<Rightarrow> bool" where
  "ilike_contains s q \<longleftrightarrow> like (''%'' @ to_lower q @ ''%'') (to_lower s)"

section \<open>Listing jobs\<close>

record list_filter =
  f_Status :: "status option"
  f_Type :: string
  f_Query :: string
  f_Limit :: int
  f_Cursor :: string

record list_page =
  lp_Jobs :: "job list"
  lp_NextCursor :: string
  lp_Counts :: "(status \<times> nat) list"

definition page_limit :: "int \<Rightarrow> nat" where
  "page_limit limit = (if limit \<le> 0 \<or> limit > 100 then 50 else nat limit)"

definition Counts :: "db \<Rightarrow> (status \<times> nat) list" where
  "Counts d = filter (\<lambda>(s, n). n \<noteq> 0)
     (map (\<lambda>s. (s, count_where (\<lambda>r. \<not> r_internal r \<and> r_status r = s) (t_jobs d))) all_statuses)"

text \<open>\<open>ORDER BY created_at DESC, id DESC\<close>\<close>

definition newer :: "job_row \<Rightarrow> job_row \<Rightarrow> bool" where
  "newer a b \<longleftrightarrow> r_created_at b < r_created_at a \<or> (r_created_at a = r_created_at b \<and> r_id b < r_id a)"

definition matches :: "list_filter \<Rightarrow> job_row \<Rightarrow> bool" where
  "matches f r \<longleftrightarrow> \<not> r_internal r \<and>
     (case f_Status f of None \<Rightarrow> True | Some s \<Rightarrow> r_status r = s) \<and>
     (f_Type f = [] \<or> r_type r = f_Type f) \<and>
     (f_Query f = [] \<or> ilike_contains (r_id r) (f_Query f) \<or> ilike_contains (r_type r) (f_Query f))"

definition before_cursor :: "(gotime \<times> string) option \<Rightarrow> job_row \<Rightarrow> bool" where
  "before_cursor c r \<longleftrightarrow> (case c of None \<Rightarrow> True
     | Some (t, i) \<Rightarrow> r_created_at r < t \<or> (r_created_at r = t \<and> r_id r < i))"

definition List_rows :: "list_filter \<Rightarrow> (gotime \<times> string) option \<Rightarrow> db \<Rightarrow> job_row list" where
  "List_rows f c d = take (page_limit (f_Limit f) + 1)
     (sort_by newer (filter (\<lambda>r. matches f r \<and> before_cursor c r) (t_jobs d)))"

definition List_page :: "cursor_codec \<Rightarrow> list_filter \<Rightarrow> db \<Rightarrow> store_error + list_page" where
  "List_page cc f d =
     bindE (if f_Cursor f = [] then Inr None
            else bindE (decodeCursor cc (f_Cursor f)) (\<lambda>c. Inr (Some c))) (\<lambda>c.
       let rows = List_rows f c d; limit = page_limit (f_Limit f)
       in Inr (if limit < length rows
               then \<lparr>lp_Jobs = map scanServiceJob (take limit rows),
                     lp_NextCursor = encodeCursor cc (r_created_at (rows ! (limit - 1))) (r_id (rows ! (limit - 1))),
                     lp_Counts = Counts d\<rparr>
               else \<lparr>lp_Jobs = map scanServiceJob rows, lp_NextCursor = [], lp_Counts = Counts d\<rparr>))"

text \<open>A client that follows the cursors: the concatenation of the pages, for at most \<open>n\<close>
  requests.\<close>

fun follow_pages :: "nat \<Rightarrow> cursor_codec \<Rightarrow> list_filter \<Rightarrow> db \<Rightarrow> job list" where
  "follow_pages 0 cc f d = []"
| "follow_pages (Suc n) cc f d =
     (case List_page cc f d of
        Inl e \<Rightarrow> []
      | Inr page \<Rightarrow> lp_Jobs page @
          (if lp_NextCursor page = [] then [] else follow_pages n cc (f\<lparr>f_Cursor := lp_NextCursor page\<rparr>) d))"

section \<open>Listing dead letters\<close>

record service_dlq_entry =
  de_ID :: int
  de_JobID :: string
  de_JobType :: string
  de_Payload :: string
  de_Attempts :: int
  de_ErrorKind :: "error_kind option"
  de_Error :: string
  de_DiedAt :: gotime
  de_ReplayedAt :: "gotime option"
  de_ReplayedAsJobID :: string

definition scan_dlq :: "dlq_row \<Rightarrow> service_dlq_entry" where
  "scan_dlq e = \<lparr>de_ID = dl_id e, de_JobID = dl_job_id e, de_JobType = dl_job_type e, de_Payload = coalesce (dl_payload e) [],
     de_Attempts = dl_attempts e, de_ErrorKind = dl_error_kind e, de_Error = dl_error e, de_DiedAt = dl_dead_at e,
     de_ReplayedAt = dl_replayed_at e, de_ReplayedAsJobID = coalesce (dl_replayed_as e) []\<rparr>"

record dlq_page =
  dp_Entries :: "service_dlq_entry list"
  dp_NextCursor :: string

text \<open>The cursor of \<^verbatim>\<open>ListDLQ\<close> is the decimal text of an entry id in base64.\<close>

definition dlq_cursor :: "cursor_codec \<Rightarrow> string \<Rightarrow> store_error + int option" where
  "dlq_cursor cc cursor =
     (if cursor = [] then Inr None
      else case b64_decode cc cursor of
        None \<Rightarrow> Inl ErrConflict
      | Some s \<Rightarrow> (case scan_int cc s of None \<Rightarrow> Inl ErrConflict | Some i \<Rightarrow> Inr (Some i)))"

definition ListDLQ :: "cursor_codec \<Rightarrow> int \<Rightarrow> string \<Rightarrow> db \<Rightarrow> store_error + dlq_page" where
  "ListDLQ cc limit0 cursor d =
     bindE (dlq_cursor cc cursor) (\<lambda>c.
       let limit = page_limit limit0;
           below = (\<lambda>e. case c of Some i \<Rightarrow> dl_id e < i | None \<Rightarrow> True);
           public = (\<lambda>e. list_ex (\<lambda>j. r_id j = dl_job_id e \<and> \<not> r_internal j) (t_jobs d));
           entries = map scan_dlq (take (limit + 1)
             (sort_by (\<lambda>a b. dl_id b < dl_id a) (filter (\<lambda>e. public e \<and> below e) (t_dlq d))))
       in Inr (if limit < length entries
               then \<lparr>dp_Entries = take limit entries,
                     dp_NextCursor = b64_encode cc (int_text (de_ID (entries ! (limit - 1))))\<rparr>
               else \<lparr>dp_Entries = entries, dp_NextCursor = []\<rparr>))"

section \<open>Job details\<close>

record attempt =
  a_Attempt :: int
  a_WorkerID :: string
  a_Status :: string
  a_StartedAt :: gotime
  a_FinishedAt :: "gotime option"
  a_ErrorKind :: "error_kind option"
  a_Error :: string

record job_event =
  e_ID :: int
  e_Type :: string
  e_Attempt :: int
  e_WorkerID :: string
  e_Details :: event_details
  e_OccurredAt :: gotime

record service_audit_result =
  au_Ecosystem :: string
  au_Name :: string
  au_Version :: string
  au_License :: string
  au_Verdict :: string
  au_ParentName :: string
  au_ParentVersion :: string

record audit_relationship =
  re_Ecosystem :: string
  re_ParentName :: string
  re_ParentVersion :: string
  re_ChildName :: string
  re_ChildVersion :: string

record detail =
  dt_Job :: job
  dt_Attempts :: "attempt list"
  dt_Events :: "job_event list"
  dt_Result :: "string option"
  dt_ChildCounts :: "(status \<times> nat) list"
  dt_AuditResults :: "service_audit_result list"
  dt_AuditRelationships :: "audit_relationship list"

text \<open>The columns of each query, with their \<^verbatim>\<open>COALESCE\<close>, scanned into the struct.\<close>

definition scan_attempt :: "attempt_row \<Rightarrow> attempt" where
  "scan_attempt a = \<lparr>a_Attempt = at_attempt a, a_WorkerID = at_worker_id a, a_Status = at_status a, a_StartedAt = at_started_at a,
     a_FinishedAt = at_finished_at a, a_ErrorKind = at_error_kind a, a_Error = coalesce (at_error a) []\<rparr>"

definition scan_event :: "event_row \<Rightarrow> job_event" where
  "scan_event e = \<lparr>e_ID = ev_id e, e_Type = ev_type e, e_Attempt = coalesce (ev_attempt e) 0, e_WorkerID = coalesce (ev_worker_id e) [],
     e_Details = ev_details e, e_OccurredAt = ev_occurred_at e\<rparr>"

definition scan_audit :: "audit_row \<Rightarrow> service_audit_result" where
  "scan_audit a = \<lparr>au_Ecosystem = ar_ecosystem a, au_Name = ar_name a, au_Version = ar_version a, au_License = ar_license a,
     au_Verdict = ar_verdict a, au_ParentName = coalesce (ar_parent_name a) [], au_ParentVersion = coalesce (ar_parent_version a) []\<rparr>"

definition scan_relationship :: "relationship_row \<Rightarrow> audit_relationship" where
  "scan_relationship a = \<lparr>re_Ecosystem = rl_ecosystem a, re_ParentName = rl_parent_name a, re_ParentVersion = rl_parent_version a,
     re_ChildName = rl_child_name a, re_ChildVersion = rl_child_version a\<rparr>"

text \<open>\<open>ORDER BY\<close> several columns; NULL sorts last.\<close>

definition null_last :: "string option \<Rightarrow> string option \<Rightarrow> bool" where
  "null_last a b = (case (a, b) of (Some x, Some y) \<Rightarrow> x < y | (Some x, None) \<Rightarrow> True | _ \<Rightarrow> False)"

definition audit_before :: "audit_row \<Rightarrow> audit_row \<Rightarrow> bool" where
  "audit_before a b = (if ar_name a \<noteq> ar_name b then ar_name a < ar_name b
     else if ar_version a \<noteq> ar_version b then ar_version a < ar_version b
     else null_last (ar_parent_name a) (ar_parent_name b))"

definition relationship_before :: "relationship_row \<Rightarrow> relationship_row \<Rightarrow> bool" where
  "relationship_before a b = (if rl_ecosystem a \<noteq> rl_ecosystem b then rl_ecosystem a < rl_ecosystem b
     else if rl_parent_name a \<noteq> rl_parent_name b then rl_parent_name a < rl_parent_name b
     else rl_child_name a < rl_child_name b)"

definition event_before :: "event_row \<Rightarrow> event_row \<Rightarrow> bool" where
  "event_before a b \<longleftrightarrow> ev_occurred_at a < ev_occurred_at b \<or>
     (ev_occurred_at a = ev_occurred_at b \<and> ev_id a < ev_id b)"

definition Get :: "string \<Rightarrow> db \<Rightarrow> store_error + detail" where
  "Get i d =
     (case job_by_id d i of
        None \<Rightarrow> Inl ErrNotFound
      | Some r \<Rightarrow> Inr
          \<lparr>dt_Job = scanServiceJob r,
           dt_Attempts = map scan_attempt (sort_by (\<lambda>a b. at_attempt a < at_attempt b) (filter (\<lambda>a. at_job_id a = i) (t_attempts d))),
           dt_Events = map scan_event (sort_by event_before (filter (\<lambda>e. ev_job_id e = i) (t_events d))),
           dt_Result = map_option rs_result (find (\<lambda>x. rs_job_id x = i) (t_results d)),
           dt_ChildCounts = filter (\<lambda>(s, n). n \<noteq> 0)
             (map (\<lambda>s. (s, count_where (\<lambda>x. is_descendant (r_root_job_id r) x \<and> r_status x = s) (t_jobs d))) all_statuses),
           dt_AuditResults = map scan_audit (sort_by audit_before (filter (\<lambda>a. ar_root a = r_root_job_id r) (t_audit d))),
           dt_AuditRelationships = map scan_relationship (sort_by relationship_before
             (filter (\<lambda>a. rl_root a = r_root_job_id r) (t_relationships d)))\<rparr>)"

section \<open>Lemmas\<close>

interpretation newest_first: slice_order newer "\<lambda>r. (r_created_at r, r_id r)"
  by unfold_locales (auto simp: newer_def)

interpretation attempt_order: slice_order "\<lambda>a b. at_attempt a < at_attempt b" at_attempt
  by unfold_locales auto

text \<open>A job's detail lists its attempts from the first to the last, none missing.\<close>

theorem Get_lists_attempts:
  assumes "reachable ext s" and "Get i (s_db s) = Inr dt"
  shows "ID (dt_Job dt) = i \<and> map a_Attempt (dt_Attempts dt) = [1..Attempts (dt_Job dt)]"
proof -
  from assms(2) obtain r where r: "job_by_id (s_db s) i = Some r" "dt_Job dt = scanServiceJob r"
    and atts: "dt_Attempts dt = map scan_attempt (sort_by (\<lambda>a b. at_attempt a < at_attempt b)
      (filter (\<lambda>a. at_job_id a = i) (t_attempts (s_db s))))"
    by (auto simp: Get_def split: option.splits)
  note row = job_by_id_SomeD [OF r(1)]
  let ?xs = "filter (\<lambda>a. at_job_id a = i) (t_attempts (s_db s))"
  have "sorted (map at_attempt (sort_by (\<lambda>a b. at_attempt a < at_attempt b) ?xs))"
    using attempt_order.sorted [of ?xs] by (simp add: sorted_wrt_map not_less)
  moreover have "mset (map at_attempt (sort_by (\<lambda>a b. at_attempt a < at_attempt b) ?xs)) = mset (map at_attempt ?xs)"
    by simp
  ultimately have "map at_attempt (sort_by (\<lambda>a b. at_attempt a < at_attempt b) ?xs) = sort (map at_attempt ?xs)"
    using properties_for_sort by metis
  also have "\<dots> = [1..r_attempts r]"
    using attempts_numbered [OF reachable_tables [OF assms(1)], of r] row by simp
  finally show ?thesis using row r(2) by (simp add: atts comp_def scan_attempt_def scanServiceJob_def)
qed

lemma split_bar_append: "CHR ''|'' \<notin> set a \<Longrightarrow> split_bar (a @ ''|'' @ b) = Some (a, b)"
  by (induction a) auto

definition codec_ok :: "cursor_codec \<Rightarrow> bool" where
  "codec_ok cc \<longleftrightarrow> (\<forall>s. b64_decode cc (b64_encode cc s) = Some s) \<and> (\<forall>s. s \<noteq> [] \<longrightarrow> b64_encode cc s \<noteq> []) \<and>
     (\<forall>t. time_parse cc (time_format cc t) = Some t) \<and> (\<forall>t. CHR ''|'' \<notin> set (time_format cc t))"

lemma cursor_roundtrip: "codec_ok cc \<Longrightarrow> decodeCursor cc (encodeCursor cc t i) = Inr (t, i)"
  unfolding codec_ok_def decodeCursor_def encodeCursor_def by (simp add: split_bar_append del: append.simps)

lemma encodeCursor_nonempty: "codec_ok cc \<Longrightarrow> encodeCursor cc t i \<noteq> []"
  by (simp add: codec_ok_def encodeCursor_def)

lemma sort_by_filter:
  assumes "inj_on (\<lambda>r. (r_created_at r, r_id r)) (set xs)"
  shows "sort_by newer (filter p xs) = filter p (sort_by newer xs)"
proof (rule newest_first.sorted_unique)
  show "mset (sort_by newer (filter p xs)) = mset (filter p (sort_by newer xs))" by simp
  show "sorted_wrt (\<lambda>a b. \<not> newer b a) (sort_by newer (filter p xs))" by (rule newest_first.sorted)
  show "sorted_wrt (\<lambda>a b. \<not> newer b a) (filter p (sort_by newer xs))"
    by (rule sorted_wrt_filter) (rule newest_first.sorted)
  show "inj_on (\<lambda>r. (r_created_at r, r_id r)) (set (sort_by newer (filter p xs)))"
    using assms by (rule inj_on_subset) auto
qed

text \<open>In a strictly descending list, the rows before the cursor of element \<open>k - 1\<close> are the rows
  from position \<open>k\<close>.\<close>

lemma filter_before_cursor:
  assumes "sorted_wrt newer xs" and "0 < k" and "k \<le> length xs"
  shows "filter (before_cursor (Some (r_created_at (xs ! (k - 1)), r_id (xs ! (k - 1))))) xs = drop k xs"
  using assms
proof (induction xs arbitrary: k)
  case (Cons x xs)
  show ?case
  proof (cases "k = 1")
    case True
    have "\<forall>y\<in>set xs. before_cursor (Some (r_created_at x, r_id x)) y"
      using Cons.prems(1) by (auto simp: before_cursor_def newer_def)
    then show ?thesis using True by (simp add: before_cursor_def)
  next
    case False
    define y where "y = xs ! (k - 2)"
    have k: "k - 1 = Suc (k - 2)" using False Cons.prems(2) by simp
    have "y \<in> set xs" using False Cons.prems(2,3) by (auto simp: y_def)
    then have "newer x y" using Cons.prems(1) by simp
    then have "\<not> before_cursor (Some (r_created_at y, r_id y)) x"
      by (auto simp: before_cursor_def newer_def)
    moreover have "filter (before_cursor (Some (r_created_at y, r_id y))) xs = drop (k - 1) xs"
      using Cons.IH [of "k - 1"] Cons.prems False by (simp add: y_def numeral_2_eq_2)
    ultimately show ?thesis using k by (simp add: y_def drop_Cons')
  qed
qed simp

lemma page_limit_pos: "0 < page_limit l"
  by (simp add: page_limit_def)

lemma matches_cursor [simp]: "matches (f\<lparr>f_Cursor := c\<rparr>) = matches f"
  by (simp add: matches_def fun_eq_iff)

lemma newest_sorted:
  assumes "distinct (map r_id xs)"
  shows "sorted_wrt newer (sort_by newer xs)"
proof -
  have d: "distinct (sort_by newer xs)" using assms by (metis distinct_map mset_sort_by mset_eq_imp_distinct_iff)
  have inj: "inj_on r_id (set xs)" using assms by (simp add: distinct_map)
  have gt: "\<not> newer b a \<Longrightarrow> a \<noteq> b \<Longrightarrow> a \<in> set xs \<Longrightarrow> b \<in> set xs \<Longrightarrow> newer a b" for a b
    using newest_first.total [of a b] inj_onD [OF inj, of a b] by auto
  have "sorted_wrt (\<lambda>a b. \<not> newer b a \<and> a \<noteq> b) (sort_by newer xs)"
    using newest_first.sorted [of xs] d by (simp add: sorted_wrt_iff_nth_less nth_eq_iff_index_eq)
  then show ?thesis by (rule sorted_wrt_mono_rel [rotated]) (use gt in auto)
qed

lemma List_rows_drop:
  assumes "distinct (map r_id (t_jobs d))"
    and "filter (before_cursor c) (sort_by newer (filter (matches f) (t_jobs d))) = drop k (sort_by newer (filter (matches f) (t_jobs d)))"
  shows "List_rows f c d = take (page_limit (f_Limit f) + 1) (drop k (sort_by newer (filter (matches f) (t_jobs d))))"
proof -
  have "inj_on (\<lambda>r. (r_created_at r, r_id r)) (set (filter (matches f) (t_jobs d)))"
    using assms(1) by (auto simp: inj_on_def distinct_map)
  from sort_by_filter [OF this, of "before_cursor c"] assms(2)
  show ?thesis by (simp add: List_rows_def conj_commute filter_filter)
qed

lemma follow_pages_from:
  fixes f :: list_filter
  assumes uk: "distinct (map r_id (t_jobs d))" and codec: "codec_ok cc"
  defines "L \<equiv> sort_by newer (filter (matches f) (t_jobs d))"
  assumes "matches g = matches f" and "f_Limit g = f_Limit f"
    and "if f_Cursor g = [] then k = 0 else \<exists>c. decodeCursor cc (f_Cursor g) = Inr c \<and> filter (before_cursor (Some c)) L = drop k L"
    and "k \<le> length L" and "length L - k < n"
  shows "follow_pages n cc g d = map scanServiceJob (drop k L)"
  using assms(4-8)
proof (induction n arbitrary: g k)
  case (Suc n)
  let ?lim = "page_limit (f_Limit f)"
  obtain c where c: "(if f_Cursor g = [] then Inr None
            else bindE (decodeCursor cc (f_Cursor g)) (\<lambda>c. Inr (Some c))) = Inr c"
    and fc: "filter (before_cursor c) L = drop k L"
  proof (cases "f_Cursor g = []")
    case True
    then have "filter (before_cursor None) L = drop k L" using Suc.prems(3) by (simp add: before_cursor_def)
    then show ?thesis using that [of None] True by simp
  next
    case False
    then show ?thesis using Suc.prems(3) that by auto
  qed
  define rows where "rows = List_rows g c d"
  have rows: "rows = take (?lim + 1) (drop k L)"
    using List_rows_drop [OF uk, of c g k] fc Suc.prems(1,2) by (simp add: rows_def L_def)
  have page: "List_page cc g d = Inr (if ?lim < length rows
      then \<lparr>lp_Jobs = map scanServiceJob (take ?lim rows),
            lp_NextCursor = encodeCursor cc (r_created_at (rows ! (?lim - 1))) (r_id (rows ! (?lim - 1))), lp_Counts = Counts d\<rparr>
      else \<lparr>lp_Jobs = map scanServiceJob rows, lp_NextCursor = [], lp_Counts = Counts d\<rparr>)"
    unfolding List_page_def c rows_def using Suc.prems(2) by (simp add: Let_def)
  have pos: "0 < ?lim" by (rule page_limit_pos)
  show ?case
  proof (cases "?lim < length rows")
    case True
    then have more: "k + ?lim < length L" using rows by simp
    let ?last = "L ! (k + ?lim - 1)"
    let ?cur = "encodeCursor cc (r_created_at ?last) (r_id ?last)"
    have last: "rows ! (?lim - 1) = ?last" using rows pos more by (simp add: add_diff_eq Suc_leI)
    have "sorted_wrt newer L" unfolding L_def
      by (rule newest_sorted) (use uk in \<open>auto simp: distinct_map_filter\<close>)
    from filter_before_cursor [OF this, of "k + ?lim"] more pos
    have "filter (before_cursor (Some (r_created_at ?last, r_id ?last))) L = drop (k + ?lim) L" by simp
    then have next_page: "filter (before_cursor (Some (r_created_at ?last, r_id ?last))) L = drop (k + ?lim) L" .
    have "follow_pages n cc (g\<lparr>f_Cursor := ?cur\<rparr>) d = map scanServiceJob (drop (k + ?lim) L)"
    proof (rule Suc.IH)
      show "if f_Cursor (g\<lparr>f_Cursor := ?cur\<rparr>) = [] then k + ?lim = 0
        else \<exists>c. decodeCursor cc (f_Cursor (g\<lparr>f_Cursor := ?cur\<rparr>)) = Inr c \<and>
          filter (before_cursor (Some c)) L = drop (k + ?lim) L"
        using next_page cursor_roundtrip [OF codec] encodeCursor_nonempty [OF codec] by simp
      show "length L - (k + ?lim) < n" using Suc.prems(5) pos more by arith
    qed (use Suc.prems more in simp_all)
    moreover have "take ?lim rows = take ?lim (drop k L)" using rows by simp
    moreover have "drop k L = take ?lim (drop k L) @ drop (k + ?lim) L"
      by (metis add.commute append_take_drop_id drop_drop)
    ultimately show ?thesis
      using page True last encodeCursor_nonempty [OF codec] by (simp flip: map_append)
  next
    case False
    then have "rows = drop k L" using rows by simp
    then show ?thesis using page False by simp
  qed
qed simp

section \<open>Properties\<close>

text \<open>C21: Pagination is exact: a client that follows the cursors of \<^verbatim>\<open>List\<close> from the first
  page gets every public job that matches the filter exactly once, newest first, whatever
  the page size, in at most one request more than there are matching jobs.\<close>

theorem pagination_exact:
  assumes "reachable ext s" and "codec_ok cc" and "f_Cursor f = []"
    and "length (filter (matches f) (t_jobs (s_db s))) < n"
  shows "follow_pages n cc f (s_db s) =
    map scanServiceJob (sort_by newer (filter (matches f) (t_jobs (s_db s))))"
proof -
  have "distinct (map r_id (t_jobs (s_db s)))"
    using reachable_tables [OF assms(1)] by (simp add: tables_ok_def unique_keys_def)
  from follow_pages_from [OF this assms(2), of f f 0 n] assms(3,4) show ?thesis by simp
qed

definition demo_codec :: cursor_codec where
  "demo_codec = \<lparr>b64_encode = (\<lambda>s. s), b64_decode = Some, time_format = (\<lambda>t. int_text t),
     time_parse = (\<lambda>s. Some (if hd s = CHR ''-'' then - int (digits_value 0 (tl s)) else int (digits_value 0 s))),
     scan_int = atoi\<rparr>"

definition demo_filter :: list_filter where
  "demo_filter = \<lparr>f_Status = None, f_Type = [], f_Query = ''DEP'', f_Limit = 1, f_Cursor = []\<rparr>"

lemma decimal_parse:
  "(if hd (int_text t) = CHR ''-'' then - int (digits_value 0 (tl (int_text t))) else int (digits_value 0 (int_text t))) = t"
proof (cases "t < 0")
  case False
  have "hd (nat_text (nat t)) \<noteq> CHR ''-''"
    using nat_text_hd [of "nat t"] by (cases "nat_text (nat t)") (auto simp: is_digit_def)
  then show ?thesis using False by (simp add: int_text_def digits_value_nat_text)
qed (simp add: int_text_def digits_value_nat_text)

lemma decimal_no_bar: "CHR ''|'' \<notin> set (int_text t)"
proof -
  have "CHR ''|'' \<notin> set (nat_text n)" for n
    using nat_text_digits [of n] by (auto simp: list_all_iff is_digit_def)
  then show ?thesis by (simp add: int_text_def)
qed

theorem pagination_exact_witness:
  "map ID (follow_pages 2 demo_codec demo_filter (s_db demo_sys5)) = [''job-1'']"
proof -
  have codec: "codec_ok demo_codec"
    using decimal_parse decimal_no_bar by (simp add: codec_ok_def demo_codec_def)
  have cur: "f_Cursor demo_filter = []" by (simp add: demo_filter_def)
  have len: "length (filter (matches demo_filter) (t_jobs (s_db demo_sys5))) < 2" by code_simp
  have "map ID (map scanServiceJob (sort_by newer (filter (matches demo_filter) (t_jobs (s_db demo_sys5))))) = [''job-1'']"
    by code_simp
  then show ?thesis using pagination_exact [OF demo_reachable(4) codec cur len] by simp
qed

end
