(* ===== verification/Worker_Service.thy ===== *)
theory Worker_Service
  imports Store_Properties
begin

text \<open>
  The worker of \<^verbatim>\<open>src/internal/worker\<close>: options and their defaults, the retry delay,
  and the event loop \<^verbatim>\<open>process\<close> that runs one claimed job. The \<^verbatim>\<open>select\<close> of that loop is a
  step function on the event that was chosen, and the goroutines' schedule is the list of
  events. The handlers are a map from job types; \<^verbatim>\<open>rand.Int63n\<close> is the parameter \<open>rnd\<close>, and
  \<open>cvt\<close> is the result of converting a float outside the range of \<^verbatim>\<open>int64\<close>, which the Go
  specification leaves to the implementation.
\<close>

section \<open>Durations\<close>

definition millisecond :: duration where "millisecond = 1000000"
definition second :: duration where "second = 1000000000"

definition wrap64 :: "int \<Rightarrow> int" where
  "wrap64 x = (x + 2 ^ 63) mod 2 ^ 64 - 2 ^ 63"

section \<open>Retry delay\<close>

definition baseDelay :: duration where "baseDelay = 1 * second"
definition maxDelay :: duration where "maxDelay = 30 * second"

text \<open>The product of \<open>baseDelay\<close> and a power of two is exact in a float, so the window is the
  integer part of \<open>baseDelay * 2 ^ (attempt - 1)\<close> where that fits.\<close>

definition backoff_window :: "int \<Rightarrow> int \<Rightarrow> duration" where
  "backoff_window cvt attempt =
     (let exact = (if 1 \<le> attempt then baseDelay * 2 ^ nat (attempt - 1)
                   else baseDelay div 2 ^ nat (1 - attempt));
          window = (if exact < 2 ^ 63 then exact else cvt)
      in if maxDelay < window then maxDelay else window)"

text \<open>\<^verbatim>\<open>rand.Int63n\<close> panics on an argument that is not positive: \<open>None\<close>.\<close>

definition Backoff :: "(int \<Rightarrow> int) \<Rightarrow> int \<Rightarrow> int \<Rightarrow> duration option" where
  "Backoff rnd cvt attempt =
     (let window = backoff_window cvt attempt
      in if window \<le> 0 then None else Some (rnd window))"

section \<open>Options\<close>

record service_options =
  Concurrency :: int
  PollInterval :: duration
  LeaseDuration :: duration
  HeartbeatEvery :: duration
  RecoveryInterval :: duration
  ShutdownTimeout :: duration

definition NewService :: "service_options \<Rightarrow> service_options" where
  "NewService o' =
     \<lparr>Concurrency = (if Concurrency o' \<le> 0 then 10 else Concurrency o'),
      PollInterval = (if PollInterval o' \<le> 0 then 250 * millisecond else PollInterval o'),
      LeaseDuration = (if LeaseDuration o' \<le> 0 then 30 * second else LeaseDuration o'),
      HeartbeatEvery = (if HeartbeatEvery o' \<le> 0 then 10 * second else HeartbeatEvery o'),
      RecoveryInterval = (if RecoveryInterval o' \<le> 0 then 5 * second else RecoveryInterval o'),
      ShutdownTimeout = (if ShutdownTimeout o' \<le> 0 then 25 * second else ShutdownTimeout o')\<rparr>"

text \<open>The start of \<^verbatim>\<open>Run\<close>: refused when two heartbeats do not fit into a lease.\<close>

definition Run_start :: "gotime \<Rightarrow> string \<Rightarrow> service_options \<Rightarrow> db \<Rightarrow> string + db" where
  "Run_start now workerID o' d =
     (if LeaseDuration o' \<le> wrap64 (HeartbeatEvery o' * 2)
      then Inl ''worker heartbeat interval must be less than half the lease duration''
      else Inr (RegisterWorker now workerID d))"

section \<open>Processing one job\<close>

text \<open>What the \<^verbatim>\<open>select\<close> of \<^verbatim>\<open>process\<close> can receive. A heartbeat tick carries whether the
  statement failed on the connection; then no row counts as affected.\<close>

datatype proc_event =
    RunCtxDone
  | ShutdownTimer gotime
  | Response gotime "nat \<Rightarrow> string" "go_error + handler_result"
  | HeartbeatTick gotime bool

datatype proc_phase = Looping | Returned | Panicked

record proc_state =
  p_db :: db
  p_shutdown :: bool
  p_phase :: proc_phase

definition zero_time :: gotime where "zero_time = 0"

definition fail_ignored ::
    "externals \<Rightarrow> gotime \<Rightarrow> job \<Rightarrow> error_kind \<Rightarrow> string \<Rightarrow> gotime \<Rightarrow> db \<Rightarrow> db" where
  "fail_ignored ext now v kind msg retryAt d =
     (case Fail ext now v kind msg retryAt d of Inl _ \<Rightarrow> d | Inr d' \<Rightarrow> d')"

definition heartbeat_tick :: "gotime \<Rightarrow> bool \<Rightarrow> job \<Rightarrow> duration \<Rightarrow> db \<Rightarrow> bool \<times> db" where
  "heartbeat_tick now dbErr v lease d = (if dbErr then (False, d) else Heartbeat now v lease d)"

definition process_response ::
    "externals \<Rightarrow> (int \<Rightarrow> int) \<Rightarrow> int \<Rightarrow> job \<Rightarrow> gotime \<Rightarrow> (nat \<Rightarrow> string) \<Rightarrow> go_error + handler_result
     \<Rightarrow> proc_state \<Rightarrow> proc_state" where
  "process_response ext rnd cvt v now newIDs outcome s =
     (case outcome of
        Inr result \<Rightarrow>
          (case Complete ext now newIDs v result (p_db s) of
             Inl _ \<Rightarrow> s\<lparr>p_phase := Returned\<rparr>
           | Inr d' \<Rightarrow> s\<lparr>p_db := d', p_phase := Returned\<rparr>)
      | Inl err \<Rightarrow>
          (let kind = KindOf err
           in if kind = ErrorTransient then
                (case Backoff rnd cvt (Attempts v) of
                   None \<Rightarrow> s\<lparr>p_phase := Panicked\<rparr>
                 | Some delay \<Rightarrow>
                     s\<lparr>p_db := fail_ignored ext now v kind (error_text err) (now + delay) (p_db s),
                       p_phase := Returned\<rparr>)
              else s\<lparr>p_db := fail_ignored ext now v kind (error_text err) zero_time (p_db s),
                     p_phase := Returned\<rparr>))"

definition process_step ::
    "externals \<Rightarrow> (int \<Rightarrow> int) \<Rightarrow> int \<Rightarrow> service_options \<Rightarrow> job \<Rightarrow> proc_event \<Rightarrow> proc_state \<Rightarrow> proc_state" where
  "process_step ext rnd cvt o' v e s =
     (if p_phase s \<noteq> Looping then s
      else case e of
        RunCtxDone \<Rightarrow> s\<lparr>p_shutdown := True\<rparr>
      | ShutdownTimer now \<Rightarrow>
          if \<not> p_shutdown s then s
          else s\<lparr>p_db := fail_ignored ext now v ErrorTransient ''worker shutdown interrupted job'' now (p_db s),
                 p_phase := Returned\<rparr>
      | Response now newIDs outcome \<Rightarrow> process_response ext rnd cvt v now newIDs outcome s
      | HeartbeatTick now dbErr \<Rightarrow>
          (let (owned, d') = heartbeat_tick now dbErr v (LeaseDuration o') (p_db s)
           in if owned then s\<lparr>p_db := d'\<rparr>
              else s\<lparr>p_db := fail_ignored ext now v ErrorCancelled ''job cancellation requested'' zero_time d',
                     p_phase := Returned\<rparr>))"

definition process_start ::
    "externals \<Rightarrow> (string \<Rightarrow> bool) \<Rightarrow> gotime \<Rightarrow> job \<Rightarrow> db \<Rightarrow> proc_state" where
  "process_start ext handlers now v d =
     (if \<not> handlers (Type v)
      then \<lparr>p_db = fail_ignored ext now v ErrorPermanent ''unsupported job type'' zero_time d,
            p_shutdown = False, p_phase = Returned\<rparr>
      else \<lparr>p_db = d, p_shutdown = False, p_phase = Looping\<rparr>)"

definition process_run ::
    "externals \<Rightarrow> (int \<Rightarrow> int) \<Rightarrow> int \<Rightarrow> service_options \<Rightarrow> job \<Rightarrow> proc_event list \<Rightarrow> proc_state \<Rightarrow> proc_state" where
  "process_run ext rnd cvt o' v es s = fold (process_step ext rnd cvt o' v) es s"

section \<open>The loops of one service\<close>

text \<open>
  \<^verbatim>\<open>Run\<close> starts \<open>Concurrency\<close> claim loops and one maintenance loop. A claim loop is idle
  (\<open>None\<close>) or inside \<^verbatim>\<open>process\<close> with the job it claimed and the shutdown flag of that call.
  Each definition is one iteration or one event of a loop; the interleaving of the loops,
  of other services and of the API is the order of the events.
\<close>

record service_state =
  sv_sys :: sys
  sv_loops :: "(job \<times> bool) option list"

definition Run_loops :: "service_options \<Rightarrow> sys \<Rightarrow> service_state" where
  "Run_loops o' s = \<lparr>sv_sys = s, sv_loops = replicate (nat (Concurrency o')) None\<rparr>"

text \<open>After an event the loop is still in \<^verbatim>\<open>process\<close> or idle again; a panic in its goroutine
  ends the whole service.\<close>

definition settle_loop :: "nat \<Rightarrow> job \<Rightarrow> proc_state \<Rightarrow> (job \<times> bool) option list \<Rightarrow> (job \<times> bool) option list" where
  "settle_loop i v p loops = (case p_phase p of
     Looping \<Rightarrow> loops[i := Some (v, p_shutdown p)] | Returned \<Rightarrow> loops[i := None] | Panicked \<Rightarrow> [])"

definition claimLoop ::
    "externals \<Rightarrow> service_options \<Rightarrow> string \<Rightarrow> (string \<Rightarrow> bool) \<Rightarrow> nat \<Rightarrow> gotime \<Rightarrow> (string \<Rightarrow> bool) \<Rightarrow> string
     \<Rightarrow> service_state \<Rightarrow> service_state" where
  "claimLoop ext o' workerID handlers i now locked token st =
     (if length (sv_loops st) \<le> i \<or> sv_loops st ! i \<noteq> None then st
      else case Claim now locked workerID (LeaseDuration o') token (s_db (sv_sys st)) of
        Inl _ \<Rightarrow> st
      | Inr (None, d) \<Rightarrow> st
      | Inr (Some v, d) \<Rightarrow>
          (let p = process_start ext handlers now v d
           in st\<lparr>sv_sys := (sv_sys st)\<lparr>s_db := p_db p, s_leases := v # s_leases (sv_sys st)\<rparr>,
                 sv_loops := settle_loop i v p (sv_loops st)\<rparr>))"

definition process_event ::
    "externals \<Rightarrow> (int \<Rightarrow> int) \<Rightarrow> int \<Rightarrow> service_options \<Rightarrow> nat \<Rightarrow> proc_event \<Rightarrow> service_state \<Rightarrow> service_state" where
  "process_event ext rnd cvt o' i e st =
     (if length (sv_loops st) \<le> i then st
      else case sv_loops st ! i of
        None \<Rightarrow> st
      | Some (v, shutdown) \<Rightarrow>
          (let p = process_step ext rnd cvt o' v e
                     \<lparr>p_db = s_db (sv_sys st), p_shutdown = shutdown, p_phase = Looping\<rparr>
           in st\<lparr>sv_sys := (sv_sys st)\<lparr>s_db := p_db p\<rparr>, sv_loops := settle_loop i v p (sv_loops st)\<rparr>))"

datatype maintenance_event =
    HeartbeatC gotime
  | RecoveryC gotime "string \<Rightarrow> bool"

fun maintenanceLoop :: "externals \<Rightarrow> string \<Rightarrow> maintenance_event \<Rightarrow> sys \<Rightarrow> sys" where
  "maintenanceLoop ext workerID (HeartbeatC now) s = s\<lparr>s_db := WorkerHeartbeat now workerID (s_db s)\<rparr>"
| "maintenanceLoop ext workerID (RecoveryC now locked) s =
     (case ReclaimExpired ext now locked (s_db s) of Inl _ \<Rightarrow> s | Inr (n, d) \<Rightarrow> s\<lparr>s_db := d\<rparr>)"

section \<open>The demo handler\<close>

record demo_payload =
  DurationMS :: int
  TransientFailures :: int
  PermanentFailure :: bool
  DemoResult :: string

text \<open>\<open>decode\<close> is \<^verbatim>\<open>json.Unmarshal\<close> into \<^verbatim>\<open>DemoPayload\<close> (\<open>Inl\<close> its error); \<open>ctxDone\<close> is whether the
  context ends before the timer.\<close>

definition demo_handle ::
    "(string \<Rightarrow> go_error + demo_payload) \<Rightarrow> bool \<Rightarrow> job \<Rightarrow> go_error + handler_result" where
  "demo_handle decode ctxDone value =
     (case decode (Payload value) of
        Inl err \<Rightarrow> Inl (ClassifiedError ErrorPermanent (Wrapped ''invalid demo payload'' err))
      | Inr payload \<Rightarrow>
          if DurationMS payload < 0 \<or> DurationMS payload > 120000 \<or>
             TransientFailures payload < 0 \<or> TransientFailures payload > 20
          then Inl (ClassifiedError ErrorPermanent (PlainError ''demo controls are outside allowed bounds''))
          else if PermanentFailure payload
          then Inl (ClassifiedError ErrorPermanent (PlainError ''configured permanent failure''))
          else if Attempts value \<le> TransientFailures payload
          then Inl (ClassifiedError ErrorTransient (PlainError
                 (''configured transient failure '' @ int_text (Attempts value) @ '' of ''
                  @ int_text (TransientFailures payload))))
          else if ctxDone then Inl (ClassifiedError ErrorCancelled ContextCanceled)
          else Inr \<lparr>Result = (if DemoResult payload = []
                      then ''{'' @ quote ''message'' @ '':'' @ quote ''demo job completed'' @ ''}''
                      else DemoResult payload), Children = []\<rparr>)"

section \<open>Lemmas\<close>

lemma backoff_window_bounds:
  assumes "1 \<le> attempt" and "attempt \<le> 34"
  shows "backoff_window cvt attempt = min maxDelay (baseDelay * 2 ^ nat (attempt - 1))"
    and "0 < backoff_window cvt attempt"
proof -
  have "(2::int) ^ nat (attempt - 1) \<le> 2 ^ 33" using assms by (intro power_increasing) auto
  then have small: "baseDelay * 2 ^ nat (attempt - 1) < 2 ^ 63" by (simp add: baseDelay_def second_def)
  then show eq: "backoff_window cvt attempt = min maxDelay (baseDelay * 2 ^ nat (attempt - 1))"
    using assms(1) by (simp add: backoff_window_def Let_def)
  have "(1::int) \<le> 2 ^ nat (attempt - 1)" by simp
  then show "0 < backoff_window cvt attempt" unfolding eq by (simp add: baseDelay_def maxDelay_def second_def)
qed

lemma process_step_done: "p_phase s \<noteq> Looping \<Longrightarrow> process_step ext rnd cvt o' v e s = s"
  by (simp add: process_step_def)

lemma process_run_done: "p_phase s \<noteq> Looping \<Longrightarrow> process_run ext rnd cvt o' v es s = s"
  by (induction es arbitrary: s) (simp_all add: process_run_def process_step_done)

lemma process_run_Cons:
  "process_run ext rnd cvt o' v (e # es) s =
   process_run ext rnd cvt o' v es (process_step ext rnd cvt o' v e s)"
  by (simp add: process_run_def)

lemma process_run_Nil [simp]: "process_run ext rnd cvt o' v [] s = s"
  by (simp add: process_run_def)

text \<open>The store operations of the loop are steps of the system.\<close>

definition refines :: "externals \<Rightarrow> sys \<Rightarrow> db \<Rightarrow> bool" where
  "refines ext s d \<longleftrightarrow> (sys_step ext)\<^sup>*\<^sup>* s (s\<lparr>s_db := d\<rparr>)"

lemma refines_refl: "refines ext s (s_db s)"
  by (simp add: refines_def)

lemma refines_fail:
  assumes "v \<in> set (s_leases s)"
  shows "refines ext s (fail_ignored ext now v kind msg retryAt (s_db s))"
proof (cases "Fail ext now v kind msg retryAt (s_db s)")
  case (Inl e)
  then show ?thesis by (simp add: fail_ignored_def refines_refl)
next
  case (Inr d)
  with sys_step.fail [OF assms Inr] show ?thesis by (auto simp: fail_ignored_def refines_def)
qed

lemma refines_trans:
  assumes "refines ext s d" and "refines ext (s\<lparr>s_db := d\<rparr>) d'"
  shows "refines ext s d'"
  using assms by (simp add: refines_def)

definition event_ok :: "proc_event \<Rightarrow> bool" where
  "event_ok e \<longleftrightarrow> (case e of
     Response now newIDs (Inr res) \<Rightarrow> (\<forall>c\<in>set (Children res). 0 \<le> SubMaxAttempts c)
   | _ \<Rightarrow> True)"

lemma refines_heartbeat_fail:
  assumes v: "v \<in> set (s_leases s)" and hb: "Heartbeat now v lease (s_db s) = (owned, d')"
  shows "refines ext s d'" and "refines ext s (fail_ignored ext now v kind msg retryAt d')"
proof -
  show hb': "refines ext s d'" using sys_step.heartbeat [OF v hb] by (auto simp: refines_def)
  have "refines ext (s\<lparr>s_db := d'\<rparr>) (fail_ignored ext now v kind msg retryAt d')"
    using refines_fail [of v "s\<lparr>s_db := d'\<rparr>"] v by simp
  with hb' show "refines ext s (fail_ignored ext now v kind msg retryAt d')" by (rule refines_trans)
qed

lemma process_step_refines:
  assumes v: "v \<in> set (s_leases s)" and d: "p_db p = s_db s" and ok: "event_ok e"
  shows "refines ext s (p_db (process_step ext rnd cvt o' v e p))"
proof (cases "p_phase p = Looping")
  case False
  then show ?thesis using d by (simp add: process_step_done refines_refl)
next
  case loop: True
  show ?thesis
  proof (cases e)
    case (Response now newIDs outcome)
    show ?thesis
    proof (cases outcome)
      case (Inl err)
      then show ?thesis
        using Response loop d refines_refl [of ext s] refines_fail [OF v]
        by (simp add: process_step_def process_response_def Let_def split: option.split)
    next
      case (Inr res)
      have "refines ext s d'" if "Complete ext now newIDs v res (s_db s) = Inr d'" for d'
        using sys_step.complete [OF v _ that] ok Response Inr by (auto simp: refines_def event_ok_def)
      then show ?thesis
        using Response Inr loop d refines_refl [of ext s]
        by (simp add: process_step_def process_response_def split: sum.split)
    qed
  next
    case (HeartbeatTick now dbErr)
    obtain owned d' where hb: "Heartbeat now v (LeaseDuration o') (s_db s) = (owned, d')" by fastforce
    show ?thesis
      using HeartbeatTick loop d hb refines_heartbeat_fail [OF v hb] refines_fail [OF v]
      by (simp add: process_step_def heartbeat_tick_def)
  qed (use loop d refines_refl [of ext s] refines_fail [OF v] in \<open>simp_all add: process_step_def\<close>)
qed

lemma process_run_refines:
  assumes "v \<in> set (s_leases s)" and "p_db p = s_db s" and "\<forall>e\<in>set es. event_ok e"
  shows "refines ext s (p_db (process_run ext rnd cvt o' v es p))"
  using assms
proof (induction es arbitrary: s p)
  case Nil
  then show ?case using refines_refl [of ext s] by simp
next
  case (Cons e es)
  let ?p = "process_step ext rnd cvt o' v e p"
  have "refines ext s (p_db ?p)" using Cons.prems by (intro process_step_refines) auto
  moreover have "refines ext (s\<lparr>s_db := p_db ?p\<rparr>) (p_db (process_run ext rnd cvt o' v es ?p))"
    using Cons.prems by (intro Cons.IH) auto
  ultimately show ?case unfolding process_run_Cons by (rule refines_trans)
qed

section \<open>What an attempt leaves behind\<close>

lemma fail_ignored_releases:
  assumes ok: "sys_ok s" and v: "v \<in> set (s_leases s)"
    and pay: "jsonValue ext (Payload v) = Inr payload" and json: "summaries_are_json ext (RootJobID v)"
  shows "\<not> holds_lease (s\<lparr>s_db := fail_ignored ext now v kind msg retryAt (s_db s)\<rparr>) v"
proof (cases "holds_lease s v")
  case True
  from Fail_commits [OF ok True pay json] obtain d' where d': "Fail ext now v kind msg retryAt (s_db s) = Inr d'"
    by blast
  then have "finish_job ext (FinishFail now kind msg retryAt) v s = Inr (s\<lparr>s_db := d'\<rparr>)" by simp
  with finish_releases [OF ok v _ this] d' show ?thesis by (simp add: fail_ignored_def)
next
  case False
  then have "Fail ext now v kind msg retryAt (s_db s) = Inl ErrLeaseLost"
    using finish_fenced [OF False, of ext "FinishFail now kind msg retryAt"] by (simp add: bindE_simps)
  with False show ?thesis by (simp add: fail_ignored_def)
qed

lemma refines_ok: "refines ext s d \<Longrightarrow> sys_ok s \<Longrightarrow> sys_ok (s\<lparr>s_db := d\<rparr>)"
  unfolding refines_def by (induction rule: rtranclp_induct) (auto intro: sys_ok_step)

definition failing_event :: "proc_event \<Rightarrow> bool" where
  "failing_event e \<longleftrightarrow> (case e of Response now newIDs (Inr res) \<Rightarrow> False | _ \<Rightarrow> True)"

lemma failing_event_ok: "failing_event e \<Longrightarrow> event_ok e"
  by (auto simp: failing_event_def event_ok_def split: proc_event.splits sum.splits)

lemma Backoff_small: "1 \<le> a \<Longrightarrow> a \<le> 34 \<Longrightarrow> \<exists>delay. Backoff rnd cvt a = Some delay"
  using backoff_window_bounds(2) [of a cvt] by (simp add: Backoff_def Let_def)

lemma failing_step:
  fixes rnd cvt o'
  assumes ok: "sys_ok s" and v: "v \<in> set (s_leases s)" and d: "p_db p = s_db s" and loop: "p_phase p = Looping"
    and att: "1 \<le> Attempts v" "Attempts v \<le> 34" and e: "failing_event e"
    and pay: "jsonValue ext (Payload v) = Inr payload" and json: "summaries_are_json ext (RootJobID v)"
  defines "q \<equiv> process_step ext rnd cvt o' v e p"
  shows "p_phase q = Looping \<or> p_phase q = Returned \<and> \<not> holds_lease (s\<lparr>s_db := p_db q\<rparr>) v"
proof -
  note rel = fail_ignored_releases [OF ok v pay json]
  show ?thesis
  proof (cases e)
    case (Response now newIDs outcome)
    with e obtain err where err: "outcome = Inl err" by (auto simp: failing_event_def split: sum.splits)
    obtain delay where "Backoff rnd cvt (Attempts v) = Some delay" using Backoff_small [OF att] by blast
    then show ?thesis
      using Response err loop d rel by (simp add: q_def process_step_def process_response_def Let_def)
  next
    case (HeartbeatTick now dbErr)
    obtain owned d' where hb: "Heartbeat now v (LeaseDuration o') (s_db s) = (owned, d')" by fastforce
    have "sys_ok (s\<lparr>s_db := d'\<rparr>)"
      using refines_ok [OF refines_heartbeat_fail(1) [OF v hb, of ext] ok] .
    then have "\<not> holds_lease (s\<lparr>s_db := fail_ignored ext now v kind msg retryAt d'\<rparr>) v" for kind msg retryAt
      using fail_ignored_releases [of "s\<lparr>s_db := d'\<rparr>" v ext payload] v pay json by simp
    then show ?thesis
      using HeartbeatTick loop d hb rel by (simp add: q_def process_step_def heartbeat_tick_def)
  qed (use loop d rel in \<open>simp_all add: q_def process_step_def\<close>)
qed

lemma failing_run:
  fixes rnd cvt o'
  assumes "sys_ok s" and "v \<in> set (s_leases s)" and "p_db p = s_db s" and "p_phase p = Looping"
    and att: "1 \<le> Attempts v" "Attempts v \<le> 34" and "\<forall>e\<in>set es. failing_event e"
    and pay: "jsonValue ext (Payload v) = Inr payload" and json: "summaries_are_json ext (RootJobID v)"
  defines "q \<equiv> process_run ext rnd cvt o' v es p"
  shows "p_phase q = Looping \<or> p_phase q = Returned \<and> \<not> holds_lease (s\<lparr>s_db := p_db q\<rparr>) v"
  using assms(1-4,7) unfolding q_def
proof (induction es arbitrary: s p)
  case (Cons e es)
  let ?p = "process_step ext rnd cvt o' v e p"
  have fe: "failing_event e" using Cons.prems(5) by simp
  note step = failing_step [OF Cons.prems(1-4) att fe pay json, of rnd cvt o']
  show ?case
  proof (cases "p_phase ?p = Looping")
    case True
    have "sys_ok (s\<lparr>s_db := p_db ?p\<rparr>)"
      using refines_ok [OF process_step_refines [OF Cons.prems(2,3) failing_event_ok [OF fe]] Cons.prems(1)] .
    from Cons.IH [OF this _ _ True] Cons.prems(2,5) show ?thesis by (simp add: process_run_Cons)
  next
    case False
    then show ?thesis using step process_run_done [of ?p ext rnd cvt o' v es] by (simp add: process_run_Cons)
  qed
qed simp

lemma response_ends_loop:
  assumes "Response now newIDs outcome \<in> set es"
  shows "p_phase (process_run ext rnd cvt o' v es p) \<noteq> Looping"
  using assms
proof (induction es arbitrary: p)
  case (Cons e es)
  let ?p = "process_step ext rnd cvt o' v e p"
  show ?case
  proof (cases "p_phase ?p = Looping")
    case True
    have "e \<noteq> Response now newIDs outcome"
      using True by (auto simp: process_step_def process_response_def Let_def split: sum.splits option.splits if_splits)
    then show ?thesis using Cons by (simp add: process_run_Cons)
  next
    case False
    then show ?thesis using process_run_done [of ?p ext rnd cvt o' v es] by (simp add: process_run_Cons)
  qed
qed simp

section \<open>Interleavings of a service\<close>

inductive service_reach ::
    "externals \<Rightarrow> (int \<Rightarrow> int) \<Rightarrow> int \<Rightarrow> service_options \<Rightarrow> string \<Rightarrow> (string \<Rightarrow> bool) \<Rightarrow> service_state \<Rightarrow> bool"
  for ext rnd cvt o' workerID handlers where
  run: "reachable ext s \<Longrightarrow> service_reach ext rnd cvt o' workerID handlers (Run_loops o' s)"
| claim: "service_reach ext rnd cvt o' workerID handlers st \<Longrightarrow>
    token \<notin> LeaseToken ` set (s_leases (sv_sys st)) \<Longrightarrow>
    service_reach ext rnd cvt o' workerID handlers (claimLoop ext o' workerID handlers i now locked token st)"
| process: "service_reach ext rnd cvt o' workerID handlers st \<Longrightarrow> event_ok e \<Longrightarrow>
    service_reach ext rnd cvt o' workerID handlers (process_event ext rnd cvt o' i e st)"
| maintain: "service_reach ext rnd cvt o' workerID handlers st \<Longrightarrow>
    service_reach ext rnd cvt o' workerID handlers (st\<lparr>sv_sys := maintenanceLoop ext workerID m (sv_sys st)\<rparr>)"
| elsewhere: "service_reach ext rnd cvt o' workerID handlers st \<Longrightarrow> sys_step ext (sv_sys st) s \<Longrightarrow>
    service_reach ext rnd cvt o' workerID handlers (st\<lparr>sv_sys := s\<rparr>)"

definition running_jobs :: "service_state \<Rightarrow> job list" where
  "running_jobs st = map fst (List.map_filter (\<lambda>l. l) (sv_loops st))"

definition loops_ok :: "externals \<Rightarrow> service_options \<Rightarrow> service_state \<Rightarrow> bool" where
  "loops_ok ext o' st \<longleftrightarrow> reachable ext (sv_sys st) \<and> length (sv_loops st) \<in> {0, nat (Concurrency o')} \<and>
     set (running_jobs st) \<subseteq> set (s_leases (sv_sys st)) \<and> distinct (map LeaseToken (running_jobs st))"

lemma refines_reachable: "refines ext s d \<Longrightarrow> reachable ext s \<Longrightarrow> reachable ext (s\<lparr>s_db := d\<rparr>)"
  unfolding refines_def by (rule reachable_steps)

lemma running_jobs_split:
  assumes "i < length ls"
  shows "map fst (List.map_filter (\<lambda>l. l) (ls[i := x])) =
    map fst (List.map_filter (\<lambda>l. l) (take i ls)) @ (case x of None \<Rightarrow> [] | Some y \<Rightarrow> [fst y])
      @ map fst (List.map_filter (\<lambda>l. l) (drop (Suc i) ls))"
  using assms by (simp add: upd_conv_take_nth_drop List.map_filter_def split: option.split)

lemma running_jobs_at:
  assumes "i < length (sv_loops st)"
  shows "running_jobs st =
    map fst (List.map_filter (\<lambda>l. l) (take i (sv_loops st))) @ (case sv_loops st ! i of None \<Rightarrow> [] | Some y \<Rightarrow> [fst y])
      @ map fst (List.map_filter (\<lambda>l. l) (drop (Suc i) (sv_loops st)))"
  using running_jobs_split [OF assms, of "sv_loops st ! i"] by (simp add: running_jobs_def)

lemma Claim_token: "Claim now locked w lease token d = Inr (Some v, d') \<Longrightarrow> LeaseToken v = token"
  by (erule Claim_cases) (auto simp: scanServiceJob_def claim_row_def coalesce_def)

lemma settle_loop_ok:
  assumes ok: "loops_ok ext o' st" and i: "i < length (sv_loops st)" and r: "reachable ext s"
    and leases: "set (s_leases (sv_sys st)) \<subseteq> set (s_leases s)" "v \<in> set (s_leases s)"
    and v: "sv_loops st ! i = None \<and> LeaseToken v \<notin> LeaseToken ` set (s_leases (sv_sys st)) \<or>
      (\<exists>b. sv_loops st ! i = Some (v, b))"
  shows "loops_ok ext o' (st\<lparr>sv_sys := s, sv_loops := settle_loop i v p (sv_loops st)\<rparr>)"
proof (cases "p_phase p = Panicked")
  case True
  then show ?thesis using r by (simp add: loops_ok_def settle_loop_def running_jobs_def List.map_filter_def)
next
  case False
  obtain x where x: "settle_loop i v p (sv_loops st) = (sv_loops st)[i := x]" "x = None \<or> (\<exists>b. x = Some (v, b))"
    using False by (cases "p_phase p") (auto simp: settle_loop_def)
  have old: "set (running_jobs st) \<subseteq> set (s_leases (sv_sys st))" "distinct (map LeaseToken (running_jobs st))"
    using ok by (simp_all add: loops_ok_def)
  define A B where "A = map fst (List.map_filter (\<lambda>l. l) (take i (sv_loops st)))"
    and "B = map fst (List.map_filter (\<lambda>l. l) (drop (Suc i) (sv_loops st)))"
  note jobs = running_jobs_at [OF i, folded A_def B_def]
  note jobs' = running_jobs_split [OF i, folded A_def B_def]
  have "set A \<union> set B \<subseteq> set (s_leases (sv_sys st))" using old(1) unfolding jobs by auto
  then have "LeaseToken v \<notin> LeaseToken ` (set A \<union> set B)"
    using v old(2) unfolding jobs by auto
  then have "distinct (map LeaseToken (map fst (List.map_filter (\<lambda>l. l) ((sv_loops st)[i := x]))))"
    using old(2) x(2) unfolding jobs jobs' by (auto split: option.splits)
  moreover have "set (map fst (List.map_filter (\<lambda>l. l) ((sv_loops st)[i := x]))) \<subseteq> set (s_leases s)"
    using old(1) x(2) leases unfolding jobs jobs' by auto
  ultimately show ?thesis using ok r x(1) by (auto simp: loops_ok_def running_jobs_def)
qed

lemma claimLoop_ok:
  assumes ok: "loops_ok ext o' st" and fresh: "token \<notin> LeaseToken ` set (s_leases (sv_sys st))"
  shows "loops_ok ext o' (claimLoop ext o' workerID handlers i now locked token st)"
proof (cases "i < length (sv_loops st) \<and> sv_loops st ! i = None \<and>
    (\<exists>v d. Claim now locked workerID (LeaseDuration o') token (s_db (sv_sys st)) = Inr (Some v, d))")
  case False
  then have "claimLoop ext o' workerID handlers i now locked token st = st"
    by (auto simp: claimLoop_def split: sum.split option.split)
  with ok show ?thesis by simp
next
  case True
  then obtain v d where i: "i < length (sv_loops st)" "sv_loops st ! i = None"
    and c: "Claim now locked workerID (LeaseDuration o') token (s_db (sv_sys st)) = Inr (Some v, d)" by blast
  let ?s = "(sv_sys st)\<lparr>s_db := d, s_leases := v # s_leases (sv_sys st)\<rparr>"
  let ?p = "process_start ext handlers now v d"
  have tok: "LeaseToken v = token" using c by (elim Claim_token)
  have "reachable ext ?s" using ok sys_step.claim [OF fresh c] by (auto simp: loops_ok_def intro: reachable.step)
  moreover have "refines ext ?s (p_db ?p)"
    using refines_refl [of ext ?s] refines_fail [of v ?s ext] by (simp add: process_start_def)
  ultimately have r: "reachable ext ((sv_sys st)\<lparr>s_db := p_db ?p, s_leases := v # s_leases (sv_sys st)\<rparr>)"
    using refines_reachable [of ext ?s "p_db ?p"] by (cases "sv_sys st") simp
  have "claimLoop ext o' workerID handlers i now locked token st =
      st\<lparr>sv_sys := (sv_sys st)\<lparr>s_db := p_db ?p, s_leases := v # s_leases (sv_sys st)\<rparr>,
         sv_loops := settle_loop i v ?p (sv_loops st)\<rparr>"
    using i c by (simp add: claimLoop_def Let_def)
  moreover have "loops_ok ext o' (st\<lparr>sv_sys := (sv_sys st)\<lparr>s_db := p_db ?p, s_leases := v # s_leases (sv_sys st)\<rparr>,
      sv_loops := settle_loop i v ?p (sv_loops st)\<rparr>)"
    by (rule settle_loop_ok [OF ok i(1) r]) (use i(2) tok fresh in auto)
  ultimately show ?thesis by simp
qed

lemma process_event_ok:
  assumes ok: "loops_ok ext o' st" and e: "event_ok e"
  shows "loops_ok ext o' (process_event ext rnd cvt o' i e st)"
proof (cases "i < length (sv_loops st) \<and> sv_loops st ! i \<noteq> None")
  case False
  then have "process_event ext rnd cvt o' i e st = st" by (auto simp: process_event_def split: option.split)
  with ok show ?thesis by simp
next
  case True
  then obtain v b where i: "i < length (sv_loops st)" and v: "sv_loops st ! i = Some (v, b)" by auto
  let ?p = "process_step ext rnd cvt o' v e \<lparr>p_db = s_db (sv_sys st), p_shutdown = b, p_phase = Looping\<rparr>"
  have mem: "v \<in> set (s_leases (sv_sys st))"
    using ok v unfolding loops_ok_def running_jobs_at [OF i] by auto
  have "reachable ext ((sv_sys st)\<lparr>s_db := p_db ?p\<rparr>)"
    using ok process_step_refines [OF mem _ e] by (auto simp: loops_ok_def intro: refines_reachable)
  from settle_loop_ok [OF ok i this, of v ?p] v mem show ?thesis
    using i by (simp add: process_event_def Let_def)
qed

lemma maintenanceLoop_steps: "(sys_step ext)\<^sup>*\<^sup>* s (maintenanceLoop ext workerID m s)"
proof (cases m)
  case (HeartbeatC now)
  then show ?thesis using sys_step.worker_heartbeat [of ext s now workerID] by simp
next
  case (RecoveryC now locked)
  then show ?thesis using sys_step.reclaim [of ext now locked s] by (auto split: sum.split)
qed

lemma loops_ok_frame:
  "loops_ok ext o' st \<Longrightarrow> reachable ext s \<Longrightarrow> set (s_leases (sv_sys st)) \<subseteq> set (s_leases s) \<Longrightarrow>
   loops_ok ext o' (st\<lparr>sv_sys := s\<rparr>)"
  by (auto simp: loops_ok_def running_jobs_def)

lemma maintenanceLoop_leases [simp]: "s_leases (maintenanceLoop ext workerID m s) = s_leases s"
  by (cases m) (auto split: sum.split)

lemma sys_step_leases: "sys_step ext s t \<Longrightarrow> set (s_leases s) \<subseteq> set (s_leases t)"
  by (auto elim!: sys_stepE)

lemma service_reach_ok: "service_reach ext rnd cvt o' workerID handlers st \<Longrightarrow> loops_ok ext o' st"
proof (induction rule: service_reach.induct)
  case (run s)
  then show ?case by (simp add: loops_ok_def Run_loops_def running_jobs_def List.map_filter_def)
next
  case (claim st token i now locked)
  then show ?case by (intro claimLoop_ok)
next
  case (process st e i)
  then show ?case by (intro process_event_ok)
next
  case (maintain st m)
  then show ?case
    using reachable_steps [OF maintenanceLoop_steps] by (intro loops_ok_frame) (auto simp: loops_ok_def)
next
  case (elsewhere st s)
  then show ?case
    using sys_step_leases by (intro loops_ok_frame) (auto simp: loops_ok_def intro: reachable.step)
qed

end
