(* ===== verification/Auditor.thy ===== *)
theory Auditor
  imports Job Go_Strings
begin

text \<open>
  The audit of one package (\<^verbatim>\<open>src/internal/auditor\<close>: \<^verbatim>\<open>policy.go\<close>, \<^verbatim>\<open>store.go\<close>,
  \<^verbatim>\<open>handler.go\<close>). The package store is the list of its entries in the order they were
  added, the edge store a list; a Go map that the handler ranges over is an association
  list, in the order of that iteration. The registry and the JSON codec are parameters.
\<close>

section \<open>Policy\<close>

datatype verdict = VerdictPass | VerdictPolicyViolation

fun verdict_text :: "verdict \<Rightarrow> string" where
  "verdict_text VerdictPass = ''pass''"
| "verdict_text VerdictPolicyViolation = ''policy_violation''"

record package_metadata =
  m_name :: string
  m_version :: string
  m_license :: string
  m_dependencies :: "(string \<times> string) list"

definition allowedLicenses :: "string list" where
  "allowedLicenses = [''MIT'', ''Apache-2.0'', ''ISC'', ''BSD-2-Clause'', ''BSD-3-Clause'']"

definition Check :: "package_metadata \<Rightarrow> verdict" where
  "Check pkg = (if m_license pkg \<in> set allowedLicenses then VerdictPass else VerdictPolicyViolation)"

section \<open>Package and edge stores\<close>

record package =
  pk_name :: string
  pk_version :: string
  pk_license :: string
  pk_verdict :: verdict

record dependency_edge =
  FromName :: string
  FromVersion :: string
  ToName :: string
  ToVersion :: string

type_synonym package_store = "(string \<times> package) list"
type_synonym edge_store = "dependency_edge list"

definition key :: "string \<Rightarrow> string \<Rightarrow> string" where
  "key name version = name @ ''@'' @ version"

definition PackageStore_Exists :: "string \<Rightarrow> package_store \<Rightarrow> bool" where
  "PackageStore_Exists k s \<longleftrightarrow> k \<in> set (map fst s)"

definition PackageStore_Add :: "package \<Rightarrow> package_store \<Rightarrow> bool \<times> package_store" where
  "PackageStore_Add p s =
     (let k = key (pk_name p) (pk_version p)
      in if k \<in> set (map fst s) then (False, s) else (True, s @ [(k, p)]))"

definition PackageStore_All :: "package_store \<Rightarrow> package list" where
  "PackageStore_All s = map snd s"

definition EdgeStore_Add :: "dependency_edge \<Rightarrow> edge_store \<Rightarrow> edge_store" where
  "EdgeStore_Add e s = s @ [e]"

section \<open>The handler\<close>

record audit_payload =
  ap_name :: string
  ap_version :: string
  ap_parent_name :: string
  ap_parent_version :: string

record audit_env =
  decode_payload :: "string \<Rightarrow> go_error + audit_payload"
  encode_payload :: "audit_payload \<Rightarrow> string"
  FetchPackage :: "string \<Rightarrow> string \<Rightarrow> go_error + package_metadata"

record audit_state =
  a_packages :: package_store
  a_edges :: edge_store

text \<open>The loop over the dependencies; \<open>newID n\<close> is the identifier drawn for child \<open>n\<close>.\<close>

fun child_jobs :: "audit_env \<Rightarrow> (nat \<Rightarrow> string) \<Rightarrow> package_metadata \<Rightarrow> nat \<Rightarrow> (string \<times> string) list \<Rightarrow> job list" where
  "child_jobs env newID meta n [] = []"
| "child_jobs env newID meta n ((depName, depVersion) # deps) =
     (NewJob (newID n) ''audit_package''
        (encode_payload env \<lparr>ap_name = depName, ap_version = depVersion,
           ap_parent_name = m_name meta, ap_parent_version = m_version meta\<rparr>))
       \<lparr>MaxAttempts := 0\<rparr>
     # child_jobs env newID meta (Suc n) deps"

definition AuditHandler_Handle ::
    "audit_env \<Rightarrow> (nat \<Rightarrow> string) \<Rightarrow> job \<Rightarrow> audit_state \<Rightarrow> (go_error + job list) \<times> audit_state" where
  "AuditHandler_Handle env newID j s =
     (case decode_payload env (Payload j) of
        Inl err \<Rightarrow> (Inl (Wrapped (''auditor: unmarshal payload for job '' @ ID j) err), s)
      | Inr p \<Rightarrow>
          (case FetchPackage env (ap_name p) (ap_version p) of
             Inl err \<Rightarrow> (Inl (Wrapped (''auditor: fetch '' @ ap_name p @ ''@'' @ ap_version p) err), s)
           | Inr meta \<Rightarrow>
               (let verdict = Check meta;
                    edges = (if ap_parent_name p \<noteq> []
                             then EdgeStore_Add \<lparr>FromName = ap_parent_name p, FromVersion = ap_parent_version p,
                                    ToName = m_name meta, ToVersion = m_version meta\<rparr> (a_edges s)
                             else a_edges s);
                    (added, packages) = PackageStore_Add
                      \<lparr>pk_name = m_name meta, pk_version = m_version meta, pk_license = m_license meta,
                       pk_verdict = verdict\<rparr> (a_packages s)
                in (Inr (if added then child_jobs env newID meta 0 (m_dependencies meta) else []),
                    \<lparr>a_packages = packages, a_edges = edges\<rparr>))))"

text \<open>A sequence of handled jobs, as the workers' lock order arranges them, with the number
  of children each returned.\<close>

fun handle_all :: "audit_env \<Rightarrow> (nat \<Rightarrow> string) \<Rightarrow> job list \<Rightarrow> audit_state \<Rightarrow> nat list \<times> audit_state" where
  "handle_all env newID [] s = ([], s)"
| "handle_all env newID (j # js) s =
     (let (r, s') = AuditHandler_Handle env newID j s;
          n = (case r of Inl _ \<Rightarrow> 0 | Inr cs \<Rightarrow> length cs);
          (ns, s'') = handle_all env newID js s'
      in (n # ns, s''))"

section \<open>Deduplicating sets\<close>

text \<open>What the traversal relies on: the first addition of a key is reported, later ones are
  not, and nothing is forgotten.\<close>

locale dedup_store =
  fixes empty :: 's and add :: "'x \<Rightarrow> 's \<Rightarrow> bool \<times> 's" and member :: "'k \<Rightarrow> 's \<Rightarrow> bool" and key_of :: "'x \<Rightarrow> 'k"
  assumes member_empty: "\<not> member k empty"
    and add_reports: "fst (add x s) \<longleftrightarrow> \<not> member (key_of x) s"
    and member_add: "member k (snd (add x s)) \<longleftrightarrow> k = key_of x \<or> member k s"
begin

primrec add_all :: "'x list \<Rightarrow> 's \<Rightarrow> bool list \<times> 's" where
  "add_all [] s = ([], s)"
| "add_all (x # xs) s = (let (b, t) = add x s; (bs, u) = add_all xs t in (b # bs, u))"

lemma add_all_member: "member k (snd (add_all xs s)) \<longleftrightarrow> k \<in> key_of ` set xs \<or> member k s"
  by (induction xs arbitrary: s) (auto simp: case_prod_beta Let_def member_add)

lemma add_all_reports:
  "length (filter id (fst (add_all xs s))) = card {k \<in> key_of ` set xs. \<not> member k s}"
proof (induction xs arbitrary: s)
  case (Cons x xs)
  let ?N = "\<lambda>xs s. {k \<in> key_of ` set xs. \<not> member k s}"
  have "?N (x # xs) s = ?N xs (snd (add x s)) \<union> (if member (key_of x) s then {} else {key_of x})"
    by (auto simp: member_add)
  moreover have "key_of x \<notin> ?N xs (snd (add x s))" by (simp add: member_add)
  ultimately have "card (?N (x # xs) s) = card (?N xs (snd (add x s))) + (if member (key_of x) s then 0 else 1)"
    by (simp add: card_insert_if)
  then show ?case using Cons.IH [of "snd (add x s)"] by (simp add: case_prod_beta Let_def add_reports)
qed simp

end

section \<open>Lemmas\<close>

interpretation package_dedup: dedup_store "[]" PackageStore_Add PackageStore_Exists
  "\<lambda>p. key (pk_name p) (pk_version p)"
  by unfold_locales (auto simp: PackageStore_Add_def PackageStore_Exists_def Let_def)

definition packages_ok :: "package_store \<Rightarrow> bool" where
  "packages_ok s \<longleftrightarrow> distinct (map fst s) \<and> (\<forall>(k, p)\<in>set s. k = key (pk_name p) (pk_version p))"

lemma PackageStore_Add_ok: "packages_ok s \<Longrightarrow> packages_ok (snd (PackageStore_Add p s))"
  by (auto simp: packages_ok_def PackageStore_Add_def Let_def)

lemma length_child_jobs [simp]: "length (child_jobs env newID meta n deps) = length deps"
  by (induction env newID meta n deps rule: child_jobs.induct) simp_all

lemma Handle_packages:
  assumes "AuditHandler_Handle env newID j s = (r, s')"
  shows "a_packages s' = a_packages s \<and> (r = Inr [] \<or> (\<exists>e. r = Inl e)) \<or>
    (\<exists>p meta. decode_payload env (Payload j) = Inr p \<and>
       FetchPackage env (ap_name p) (ap_version p) = Inr meta \<and>
       key (m_name meta) (m_version meta) \<notin> set (map fst (a_packages s)) \<and>
       a_packages s' = a_packages s @ [(key (m_name meta) (m_version meta),
         \<lparr>pk_name = m_name meta, pk_version = m_version meta, pk_license = m_license meta,
          pk_verdict = Check meta\<rparr>)] \<and>
       r = Inr (child_jobs env newID meta 0 (m_dependencies meta)))"
  using assms
  by (auto simp: AuditHandler_Handle_def PackageStore_Add_def Let_def split: sum.splits if_splits)

end
