(* ===== verification/Audit_Report.thy ===== *)
theory Audit_Report
  imports Auditor
begin

text \<open>
  The report of a finished audit (\<^verbatim>\<open>src/internal/auditor/report.go\<close>). \<^verbatim>\<open>findPath\<close> walks the
  reverse edges breadth-first from a package to the root project; the map \<^verbatim>\<open>parents\<close> is an
  association list whose values keep the order of the edges.
\<close>

section \<open>Reverse edges\<close>

type_synonym parents = "(string \<times> string list) list"

definition lookup :: "parents \<Rightarrow> string \<Rightarrow> string list" where
  "lookup ps k = (case map_of ps k of None \<Rightarrow> [] | Some xs \<Rightarrow> xs)"

fun add_parent :: "string \<Rightarrow> string \<Rightarrow> parents \<Rightarrow> parents" where
  "add_parent child parent [] = [(child, [parent])]"
| "add_parent child parent ((k, xs) # ps) =
     (if k = child then (k, xs @ [parent]) # ps else (k, xs) # add_parent child parent ps)"

definition build_parents :: "dependency_edge list \<Rightarrow> parents" where
  "build_parents edges = fold (\<lambda>e. add_parent (key (ToName e) (ToVersion e)) (key (FromName e) (FromVersion e))) edges []"

section \<open>Breadth-first search\<close>

type_synonym search_state = "string \<times> string list"

text \<open>The inner loop over the parents of the current node: \<open>Inl\<close> is the \<^verbatim>\<open>return\<close> of the
  full path, \<open>Inr\<close> the visited set and queue after the loop.\<close>

fun scan_parents ::
    "string \<Rightarrow> string list \<Rightarrow> string list \<Rightarrow> string list \<Rightarrow> search_state list
     \<Rightarrow> string list + string list \<times> search_state list" where
  "scan_parents root path [] visited queue = Inr (visited, queue)"
| "scan_parents root path (p # ps) visited queue =
     (if p = root \<or> p = root @ ''@'' then Inl (root # rev path)
      else if p \<in> set visited then scan_parents root path ps visited queue
      else scan_parents root path ps (visited @ [p]) (queue @ [(p, path @ [p])]))"

definition universe :: "parents \<Rightarrow> string set" where
  "universe ps = \<Union> (set ` snd ` set ps)"

lemma finite_universe [simp]: "finite (universe ps)"
  by (simp add: universe_def)

lemma lookup_universe: "set (lookup ps k) \<subseteq> universe ps"
  by (cases "map_of ps k") (auto simp: lookup_def universe_def dest!: map_of_SomeD intro: bexI)

text \<open>The nodes the loop adds.\<close>

fun fresh_of :: "string list \<Rightarrow> string list \<Rightarrow> string list" where
  "fresh_of [] visited = []"
| "fresh_of (p # ps) visited =
     (if p \<in> set visited then fresh_of ps visited else p # fresh_of ps (visited @ [p]))"

lemma fresh_of_props:
  "distinct (fresh_of ps visited)" "set (fresh_of ps visited) = set ps - set visited"
proof -
  have "distinct (fresh_of ps visited) \<and> set (fresh_of ps visited) = set ps - set visited"
    by (induction ps visited rule: fresh_of.induct) auto
  then show "distinct (fresh_of ps visited)" "set (fresh_of ps visited) = set ps - set visited" by simp_all
qed

lemma scan_parents_Inl:
  "scan_parents root path ps visited queue = Inl full \<Longrightarrow>
   full = root # rev path \<and> (root \<in> set ps \<or> root @ ''@'' \<in> set ps)"
  by (induction root path ps visited queue rule: scan_parents.induct) (auto split: if_splits)

lemma scan_parents_Inr:
  "scan_parents root path ps visited queue = Inr (visited', queue') \<Longrightarrow>
   root \<notin> set ps \<and> root @ ''@'' \<notin> set ps \<and> visited' = visited @ fresh_of ps visited \<and>
   queue' = queue @ map (\<lambda>p. (p, path @ [p])) (fresh_of ps visited)"
  by (induction root path ps visited queue rule: scan_parents.induct) (auto split: if_splits)

lemma scan_parents_smaller:
  assumes "scan_parents root path (lookup ps n) visited queue = Inr (visited', queue')"
  shows "2 * card (universe ps - set visited') + length queue' \<le>
    2 * card (universe ps - set visited) + length queue"
proof -
  let ?f = "fresh_of (lookup ps n) visited"
  from scan_parents_Inr [OF assms] have v: "set visited' = set visited \<union> set ?f"
    and q: "length queue' = length queue + length ?f" by auto
  have sub: "set ?f \<subseteq> universe ps - set visited"
    using lookup_universe [of ps n] fresh_of_props(2) [of "lookup ps n" visited] by auto
  have "universe ps - set visited' = (universe ps - set visited) - set ?f" using v by auto
  then have "card (universe ps - set visited') = card (universe ps - set visited) - length ?f"
    using sub fresh_of_props(1) [of "lookup ps n" visited]
    by (simp add: card_Diff_subset distinct_card)
  moreover have "length ?f \<le> card (universe ps - set visited)"
    using sub fresh_of_props(1) by (metis card_mono distinct_card finite_Diff finite_universe)
  ultimately show ?thesis using q by simp
qed

function search :: "string \<Rightarrow> parents \<Rightarrow> string list \<Rightarrow> search_state list \<Rightarrow> string list option" where
  "search root ps visited [] = None"
| "search root ps visited ((n, path) # queue) =
     (case scan_parents root path (lookup ps n) visited queue of
        Inl full \<Rightarrow> Some full
      | Inr (visited', queue') \<Rightarrow> search root ps visited' queue')"
  by pat_completeness auto
termination
  by (relation "measure (\<lambda>(root, ps, visited, queue). 2 * card (universe ps - set visited) + length queue)")
    (auto intro: le_imp_less_Suc scan_parents_smaller)

definition findPath :: "string \<Rightarrow> string \<Rightarrow> parents \<Rightarrow> string list" where
  "findPath node root ps =
     (case search root ps [node] [(node, [node])] of None \<Rightarrow> [node] | Some full \<Rightarrow> full)"

section \<open>The report\<close>

record package_violation =
  v_package :: package
  v_path :: "string list"

record report =
  TotalPackages :: nat
  PolicyViolations :: "package_violation list"
  DependencyPaths :: "(string \<times> string list) list"
  Summary :: string

definition licenseViolationReason :: "string \<Rightarrow> string" where
  "licenseViolationReason license =
     (if license = [] then ''no license declared'' else ''license not in allowlist'')"

text \<open>The characters of the summary outside ASCII, as the bytes of their UTF-8 encoding: ballot
  cross, em dash and arrow.\<close>

definition cross_utf8 :: string where "cross_utf8 = [CHR 0xE2, CHR 0x9C, CHR 0x97]"
definition dash_utf8 :: string where "dash_utf8 = [CHR 0xE2, CHR 0x80, CHR 0x94]"
definition arrow_utf8 :: string where "arrow_utf8 = [CHR 0xE2, CHR 0x86, CHR 0x92]"

definition newline :: string where "newline = [CHR 0x0A]"

definition summary_violation :: "package_violation \<Rightarrow> string" where
  "summary_violation v =
     (let p = v_package v
      in ''  '' @ cross_utf8 @ '' '' @ pk_name p @ ''@'' @ pk_version p @ '' '' @ dash_utf8 @ '' '' @ pk_license p
         @ '' ('' @ licenseViolationReason (pk_license p) @ '')'' @ newline
         @ ''    Path: '' @ join ('' '' @ arrow_utf8 @ '' '') (v_path v) @ newline)"

definition buildSummary :: "string \<Rightarrow> package list \<Rightarrow> package_violation list \<Rightarrow> nat \<Rightarrow> string" where
  "buildSummary root allPkgs violations clean =
     ''=== Dependency Audit Report ==='' @ newline @ newline
     @ ''Root: '' @ root @ newline @ newline
     @ ''Packages scanned: '' @ nat_text (length allPkgs) @ newline
     @ ''Policy violations: '' @ nat_text (length violations) @ newline
     @ concat (map summary_violation violations)
     @ newline @ ''Clean: '' @ nat_text clean @ '' packages passed all checks.'' @ newline"

definition GenerateReport :: "package list \<Rightarrow> dependency_edge list \<Rightarrow> string \<Rightarrow> report" where
  "GenerateReport allPkgs allEdges root =
     (let parents = build_parents allEdges;
          violating = filter (\<lambda>p. pk_verdict p = VerdictPolicyViolation) allPkgs;
          violations = map (\<lambda>p. \<lparr>v_package = p,
             v_path = findPath (key (pk_name p) (pk_version p)) root parents\<rparr>) violating;
          depPaths = map (\<lambda>v. (key (pk_name (v_package v)) (pk_version (v_package v)), v_path v)) violations;
          clean = length allPkgs - length violations
      in \<lparr>TotalPackages = length allPkgs, PolicyViolations = violations, DependencyPaths = depPaths,
          Summary = buildSummary root allPkgs violations clean\<rparr>)"

section \<open>Paths\<close>

text \<open>A chain from \<open>node\<close> over reverse edges, and a chain that ends in a dependency of the
  root.\<close>

definition chain :: "parents \<Rightarrow> string list \<Rightarrow> bool" where
  "chain ps xs \<longleftrightarrow> xs \<noteq> [] \<and> (\<forall>i. Suc i < length xs \<longrightarrow> xs ! Suc i \<in> set (lookup ps (xs ! i)))"

definition at_root :: "parents \<Rightarrow> string \<Rightarrow> string \<Rightarrow> bool" where
  "at_root ps root n \<longleftrightarrow> root \<in> set (lookup ps n) \<or> root @ ''@'' \<in> set (lookup ps n)"

definition root_chain :: "parents \<Rightarrow> string \<Rightarrow> string \<Rightarrow> string list \<Rightarrow> bool" where
  "root_chain ps root node xs \<longleftrightarrow> chain ps xs \<and> hd xs = node \<and> at_root ps root (last xs)"

lemma chain_snoc:
  assumes "chain ps xs" and "y \<in> set (lookup ps (last xs))"
  shows "chain ps (xs @ [y])"
proof -
  have "(xs @ [y]) ! Suc i \<in> set (lookup ps ((xs @ [y]) ! i))" if "Suc i < length (xs @ [y])" for i
  proof (cases "Suc i < length xs")
    case True
    then show ?thesis using assms(1) by (simp add: chain_def nth_append)
  next
    case False
    with that have "Suc i = length xs" by simp
    then have "last xs = xs ! i" using assms(1) by (metis chain_def diff_Suc_1 last_conv_nth)
    then show ?thesis using assms(2) \<open>Suc i = length xs\<close> by (simp add: nth_append)
  qed
  then show ?thesis by (simp add: chain_def)
qed

text \<open>The loop invariant: \<open>P\<close> are the nodes already expanded, \<open>L\<close> the length of the path each
  visited node was found with.\<close>

definition search_inv ::
    "string \<Rightarrow> string \<Rightarrow> parents \<Rightarrow> string set \<Rightarrow> (string \<Rightarrow> nat) \<Rightarrow> string list \<Rightarrow> search_state list \<Rightarrow> bool" where
  "search_inv node root ps P L visited queue \<longleftrightarrow>
     node \<in> set visited \<and> L node = 1 \<and> set visited = P \<union> fst ` set queue \<and>
     (\<forall>n\<in>P. \<not> at_root ps root n \<and>
        (\<forall>q\<in>set (lookup ps n). q \<in> set visited \<and> L q \<le> Suc (L n))) \<and>
     (\<forall>(n, path)\<in>set queue. chain ps path \<and> hd path = node \<and> last path = n \<and> length path = L n) \<and>
     sorted (map (\<lambda>(n, path). L n) queue) \<and>
     (\<forall>n\<in>set visited. \<forall>m\<in>fst ` set queue. L n \<le> Suc (L m)) \<and>
     (\<forall>n\<in>P. \<forall>m\<in>fst ` set queue. L n \<le> L m)"

lemma search_inv_init: "search_inv node root ps {} (\<lambda>_. 1) [node] [(node, [node])]"
  by (auto simp: search_inv_def chain_def)

lemma search_inv_step:
  assumes inv: "search_inv node root ps P L visited ((n, path) # queue)"
    and scan: "scan_parents root path (lookup ps n) visited queue = Inr (visited', queue')"
  shows "\<exists>L'. search_inv node root ps (insert n P) L' visited' queue'"
proof -
  define new where "new = fresh_of (lookup ps n) visited"
  define L' where "L' = (\<lambda>m. if m \<in> set new then Suc (L n) else L m)"
  from scan_parents_Inr [OF scan] have noroot: "\<not> at_root ps root n"
    and v': "set visited' = set visited \<union> set new"
    and q': "queue' = queue @ map (\<lambda>p. (p, path @ [p])) new"
    by (auto simp: at_root_def new_def)
  have new: "set new = set (lookup ps n) - set visited" "distinct new"
    unfolding new_def by (simp_all add: fresh_of_props)
  note I = inv [unfolded search_inv_def]
  have old: "L' m = L m" if "m \<in> set visited" for m using that new(1) by (simp add: L'_def)
  have qv: "fst ` set queue \<subseteq> set visited" "n \<in> set visited" "P \<subseteq> set visited" using I by auto
  have Ln: "length path = L n" "chain ps path" "hd path = node" "last path = n" using I by auto
  have le_hd: "L m \<le> Suc (L n)" if "m \<in> set visited" for m using I that by simp
  have hd_le: "L n \<le> L m" if "m \<in> fst ` set queue" for m using I that by auto
  have P_le: "L m \<le> L n" if "m \<in> P" for m using I that by simp
  have q'_nodes: "fst ` set queue' = fst ` set queue \<union> set new" by (simp add: q' image_Un image_image)
  have lenL: "map (\<lambda>(n, path). L' n) queue' = map (\<lambda>(n, path). L n) queue @ replicate (length new) (Suc (L n))"
  proof -
    have "map (\<lambda>(n, path). L' n) queue = map (\<lambda>(n, path). L n) queue"
      using qv(1) old by (auto simp: image_iff split: prod.splits)
    moreover have "map (\<lambda>p. L' p) new = replicate (length new) (Suc (L n))"
      by (rule replicate_eqI) (auto simp: L'_def)
    ultimately show ?thesis by (simp add: q' comp_def)
  qed
  have sorted': "sorted (map (\<lambda>(n, path). L' n) queue')"
  proof -
    have "sorted (map (\<lambda>(n, path). L n) queue)" using I by simp
    moreover have "x \<le> Suc (L n)" if "x \<in> set (map (\<lambda>(n, path). L n) queue)" for x
    proof -
      from that obtain m xs where "(m, xs) \<in> set queue" "x = L m" by auto
      then show ?thesis using qv(1) le_hd [of m] by force
    qed
    ultimately show ?thesis unfolding lenL sorted_append by simp
  qed
  have queue_ok: "\<forall>(m, xs)\<in>set queue'. chain ps xs \<and> hd xs = node \<and> last xs = m \<and> length xs = L' m"
  proof
    fix e assume "e \<in> set queue'"
    then consider "e \<in> set queue" | p where "p \<in> set new" "e = (p, path @ [p])" by (auto simp: q')
    then show "case e of (m, xs) \<Rightarrow> chain ps xs \<and> hd xs = node \<and> last xs = m \<and> length xs = L' m"
    proof cases
      case 1
      obtain m xs where e: "e = (m, xs)" by fastforce
      have "m \<in> set visited" using qv(1) 1 e by force
      with 1 e I old show ?thesis by auto
    next
      case 2
      then have "p \<in> set (lookup ps (last path))" using new(1) Ln(4) by simp
      with chain_snoc [OF Ln(2) this] 2 Ln show ?thesis by (simp add: L'_def chain_def)
    qed
  qed
  have expanded: "\<forall>m\<in>insert n P. \<not> at_root ps root m \<and> (\<forall>q\<in>set (lookup ps m). q \<in> set visited' \<and> L' q \<le> Suc (L' m))"
  proof
    fix m assume m: "m \<in> insert n P"
    then have mv: "m \<in> set visited" using qv by auto
    have "q \<in> set visited' \<and> L' q \<le> Suc (L' m)" if q: "q \<in> set (lookup ps m)" for q
    proof (cases "m = n")
      case True
      with q new(1) v' have "q \<in> set visited'" by auto
      moreover have "L' q \<le> Suc (L n)" using le_hd True q new(1) by (auto simp: L'_def)
      ultimately show ?thesis using True old [OF mv] by simp
    next
      case False
      with m have "m \<in> P" by simp
      then have "q \<in> set visited" "L q \<le> Suc (L m)" using I q by auto
      then show ?thesis using v' old mv by simp
    qed
    moreover have "\<not> at_root ps root m" using m noroot I by auto
    ultimately show "\<not> at_root ps root m \<and> (\<forall>q\<in>set (lookup ps m). q \<in> set visited' \<and> L' q \<le> Suc (L' m))" by blast
  qed
  have below: "L' m \<le> Suc (L n)" if "m \<in> set visited'" for m using that v' le_hd by (auto simp: L'_def)
  have above: "L n \<le> L' m" if "m \<in> fst ` set queue'" for m
    using that q'_nodes hd_le by (auto simp: L'_def)
  have "search_inv node root ps (insert n P) L' visited' queue'"
    unfolding search_inv_def
  proof (intro conjI)
    have node: "node \<in> set visited" using I by (elim conjE)
    then show "node \<in> set visited'" using v' by blast
    have "L node = 1" using I by (elim conjE)
    then show "L' node = 1" using old [OF node] by simp
    have "set visited = P \<union> fst ` set ((n, path) # queue)" using I by (elim conjE)
    then show "set visited' = insert n P \<union> fst ` set queue'" unfolding v' q'_nodes by auto
    show "\<forall>x\<in>set visited'. \<forall>m\<in>fst ` set queue'. L' x \<le> Suc (L' m)" using below above by (meson Suc_le_mono le_trans)
    show "\<forall>x\<in>insert n P. \<forall>m\<in>fst ` set queue'. L' x \<le> L' m"
      using P_le old qv above by (metis insert_iff le_trans order_refl subsetD)
  qed (fact expanded queue_ok sorted')+
  then show ?thesis by blast
qed

text \<open>No chain to the root is shorter than the path at the head of the queue: its first
  unexpanded node is in the queue.\<close>

lemma shortest_bound:
  assumes inv: "search_inv node root ps P L visited ((n, path) # queue)" and rc: "root_chain ps root node ys"
  shows "length path \<le> length ys"
proof -
  note I = inv [unfolded search_inv_def]
  have ne: "ys \<noteq> []" using rc by (simp add: root_chain_def chain_def)
  have bound: "ys ! i \<in> set visited \<and> L (ys ! i) \<le> Suc i" if "i < length ys" "\<forall>j<i. ys ! j \<in> P" for i
    using that
  proof (induction i)
    case 0
    have "node \<in> set visited" using I by (elim conjE)
    moreover have "L node = 1" using I by (elim conjE)
    ultimately show ?case using rc ne by (simp add: root_chain_def hd_conv_nth)
  next
    case (Suc i)
    then have IH: "L (ys ! i) \<le> Suc i" and P: "ys ! i \<in> P" by auto
    have "ys ! Suc i \<in> set (lookup ps (ys ! i))" using rc Suc.prems(1) by (simp add: root_chain_def chain_def)
    moreover have "\<forall>n\<in>P. \<not> at_root ps root n \<and> (\<forall>q\<in>set (lookup ps n). q \<in> set visited \<and> L q \<le> Suc (L n))"
      using I by (elim conjE)
    ultimately have "ys ! Suc i \<in> set visited" "L (ys ! Suc i) \<le> Suc (L (ys ! i))" using P by blast+
    with IH show ?case by simp
  qed
  have "\<exists>i<length ys. ys ! i \<notin> P"
  proof (rule ccontr)
    assume "\<not> ?thesis"
    then have "last ys \<in> P" using ne by (simp add: last_conv_nth)
    then show False using I rc by (auto simp: root_chain_def)
  qed
  then have ex: "\<exists>i. i < length ys \<and> ys ! i \<notin> P" by blast
  define i where "i = (LEAST i. i < length ys \<and> ys ! i \<notin> P)"
  have i12: "i < length ys" "ys ! i \<notin> P" using LeastI_ex [OF ex] by (simp_all add: i_def)
  have "ys ! j \<in> P" if "j < i" for j
    using not_less_Least [of j] that i12(1) unfolding i_def by fastforce
  then have i: "i < length ys" "ys ! i \<notin> P" "\<forall>j<i. ys ! j \<in> P" using i12 by blast+
  have "set visited = P \<union> fst ` set ((n, path) # queue)" using I by (elim conjE)
  then have "ys ! i = n \<or> ys ! i \<in> fst ` set queue" using bound [OF i(1,3)] i(2) by auto
  moreover have "\<forall>x\<in>set queue. L n \<le> L (fst x)" using I by (simp add: case_prod_beta)
  ultimately have "L n \<le> L (ys ! i)" by auto
  moreover have "length path = L n" using I by simp
  ultimately show ?thesis using bound [OF i(1,3)] i(1) by simp
qed

lemma search_correct:
  assumes "search_inv node root ps P L visited queue"
  shows "case search root ps visited queue of
      None \<Rightarrow> \<nexists>xs. root_chain ps root node xs
    | Some full \<Rightarrow> \<exists>xs. full = root # rev xs \<and> root_chain ps root node xs \<and>
        (\<forall>ys. root_chain ps root node ys \<longrightarrow> length xs \<le> length ys)"
  using assms
proof (induction root ps visited queue arbitrary: P L rule: search.induct)
  case (1 root ps visited)
  have "\<not> root_chain ps root node xs" for xs
  proof
    assume rc: "root_chain ps root node xs"
    have "xs ! i \<in> P" if "i < length xs" for i
      using that
    proof (induction i)
      case 0
      then show ?case using 1 rc by (auto simp: search_inv_def root_chain_def hd_conv_nth)
    next
      case (Suc i)
      then show ?case using 1 rc by (auto simp: search_inv_def root_chain_def chain_def)
    qed
    then have "last xs \<in> P" using rc by (simp add: root_chain_def chain_def last_conv_nth)
    then show False using 1 rc by (auto simp: search_inv_def root_chain_def)
  qed
  then show ?case by simp
next
  case (2 root ps visited n path queue)
  show ?case
  proof (cases "scan_parents root path (lookup ps n) visited queue")
    case (Inr vq)
    obtain visited' queue' where vq: "vq = (visited', queue')" by fastforce
    from search_inv_step [OF 2(2) Inr [unfolded vq]] obtain L' where
      "search_inv node root ps (insert n P) L' visited' queue'" by blast
    from 2(1) [OF Inr vq [symmetric] this] show ?thesis using Inr vq by simp
  next
    case (Inl full)
    note I = 2(2) [unfolded search_inv_def]
    from scan_parents_Inl [OF Inl] have full: "full = root # rev path" and at: "at_root ps root n"
      by (auto simp: at_root_def)
    have "root_chain ps root node path" using I at by (simp add: root_chain_def)
    moreover have "length path \<le> length ys" if ys: "root_chain ps root node ys" for ys
      by (rule shortest_bound [OF 2(2) ys])
    ultimately show ?thesis using Inl full by auto
  qed
qed

end
