(* ===== verification/Audit_Properties.thy ===== *)
theory Audit_Properties
  imports Audit_Report
begin

text \<open>
  The properties of the graph audit: deduplication bounds the traversal, the stores hold
  exactly what was resolved, and the report finds every violation with a shortest path.
\<close>

section \<open>Sequences of handled jobs\<close>

definition resolved :: "audit_env \<Rightarrow> job \<Rightarrow> package_metadata option" where
  "resolved env j = (case decode_payload env (Payload j) of
     Inl _ \<Rightarrow> None
   | Inr p \<Rightarrow> (case FetchPackage env (ap_name p) (ap_version p) of Inl _ \<Rightarrow> None | Inr meta \<Rightarrow> Some meta))"

definition meta_key :: "package_metadata \<Rightarrow> string" where
  "meta_key meta = key (m_name meta) (m_version meta)"

definition store_ok :: "audit_env \<Rightarrow> package_store \<Rightarrow> bool" where
  "store_ok env s \<longleftrightarrow> distinct (map fst s) \<and>
     (\<forall>(k, p)\<in>set s. k = key (pk_name p) (pk_version p) \<and>
        (pk_verdict p = VerdictPass \<longleftrightarrow> pk_license p \<in> set allowedLicenses))"

definition meta_package :: "package_metadata \<Rightarrow> package" where
  "meta_package meta = \<lparr>pk_name = m_name meta, pk_version = m_version meta, pk_license = m_license meta,
     pk_verdict = Check meta\<rparr>"

lemma Handle_resolved:
  assumes "AuditHandler_Handle env newID j s = (r, s')"
  shows "case resolved env j of
      None \<Rightarrow> (\<exists>e. r = Inl e) \<and> a_packages s' = a_packages s
    | Some meta \<Rightarrow>
        if meta_key meta \<in> set (map fst (a_packages s)) then r = Inr [] \<and> a_packages s' = a_packages s
        else r = Inr (child_jobs env newID meta 0 (m_dependencies meta)) \<and>
          a_packages s' = a_packages s @ [(meta_key meta, meta_package meta)]"
proof (cases "resolved env j")
  case None
  then show ?thesis
    using assms by (auto simp: AuditHandler_Handle_def resolved_def split: sum.splits)
next
  case (Some meta)
  then obtain p where "decode_payload env (Payload j) = Inr p"
    "FetchPackage env (ap_name p) (ap_version p) = Inr meta"
    by (auto simp: resolved_def split: sum.splits)
  then show ?thesis
    using assms Some
    by (cases "meta_key meta \<in> set (map fst (a_packages s))")
      (auto simp: AuditHandler_Handle_def PackageStore_Add_def Let_def meta_key_def meta_package_def simp del: set_map)
qed

lemma store_ok_snoc:
  "store_ok env s \<Longrightarrow> meta_key meta \<notin> set (map fst s) \<Longrightarrow> store_ok env (s @ [(meta_key meta, meta_package meta)])"
  by (auto simp: store_ok_def meta_key_def meta_package_def Check_def)

lemma Handle_step:
  assumes "AuditHandler_Handle env newID j s = (r, s')"
  shows "store_ok env (a_packages s) \<Longrightarrow> store_ok env (a_packages s')"
    and "set (map fst (a_packages s')) = set (map fst (a_packages s)) \<union>
      (case resolved env j of None \<Rightarrow> {} | Some meta \<Rightarrow> {meta_key meta})"
    and "(case r of Inl _ \<Rightarrow> 0 | Inr cs \<Rightarrow> length cs) =
      (case resolved env j of None \<Rightarrow> 0 | Some meta \<Rightarrow>
         if meta_key meta \<in> set (map fst (a_packages s)) then 0 else length (m_dependencies meta))"
  using Handle_resolved [OF assms] store_ok_snoc [of env "a_packages s"]
  by (cases "resolved env j", auto simp del: set_map split: if_splits)+

lemma handle_all_store:
  assumes "handle_all env newID js s = (ns, s')"
  shows "(store_ok env (a_packages s) \<longrightarrow> store_ok env (a_packages s')) \<and>
    set (map fst (a_packages s')) = set (map fst (a_packages s)) \<union>
      meta_key ` {meta. \<exists>j\<in>set js. resolved env j = Some meta}"
  using assms
proof (induction js arbitrary: s ns)
  case (Cons j js)
  obtain r s1 where h: "AuditHandler_Handle env newID j s = (r, s1)" by fastforce
  from Cons.prems h obtain ns1 where rest: "handle_all env newID js s1 = (ns1, s')"
    by (auto simp: Let_def split: prod.splits)
  have "{meta. \<exists>j'\<in>set (j # js). resolved env j' = Some meta} =
      (case resolved env j of None \<Rightarrow> {} | Some meta \<Rightarrow> {meta}) \<union> {meta. \<exists>j\<in>set js. resolved env j = Some meta}"
    by (auto split: option.splits)
  then show ?case
    using Cons.IH [OF rest] Handle_step(1,2) [OF h] by (cases "resolved env j") auto
qed simp

lemma handle_all_children:
  assumes "handle_all env newID js s = (ns, s')"
    and "\<And>j meta. j \<in> set js \<Longrightarrow> resolved env j = Some meta \<Longrightarrow> length (m_dependencies meta) \<le> D"
  shows "sum_list ns + D * card (set (map fst (a_packages s))) \<le> D * card (set (map fst (a_packages s')))"
  using assms
proof (induction js arbitrary: s ns)
  case Nil
  then show ?case by simp
next
  case (Cons j js)
  obtain r s1 where h: "AuditHandler_Handle env newID j s = (r, s1)" by fastforce
  let ?n = "case r of Inl _ \<Rightarrow> 0 | Inr cs \<Rightarrow> length cs"
  from Cons.prems(1) h obtain ns1 where rest: "handle_all env newID js s1 = (ns1, s')" and ns: "ns = ?n # ns1"
    by (auto simp: Let_def split: prod.splits)
  note step = Handle_step(2,3) [OF h]
  have "?n + D * card (set (map fst (a_packages s))) \<le> D * card (set (map fst (a_packages s1)))"
  proof (cases "resolved env j")
    case None
    then show ?thesis using step by simp
  next
    case (Some meta)
    have "length (m_dependencies meta) \<le> D" using Cons.prems(2) [OF _ Some] by simp
    then show ?thesis using step Some by (auto simp: insert_absorb)
  qed
  moreover have "sum_list ns1 + D * card (set (map fst (a_packages s1))) \<le> D * card (set (map fst (a_packages s')))"
    using Cons.prems(2) by (intro Cons.IH [OF rest]) auto
  ultimately show ?case using ns by simp
qed

text \<open>C23: Deduplication bounds the traversal: whatever the order in which workers handle
  audit jobs, the children they return number at most \<open>D\<close> per distinct resolved package, so
  a graph with finitely many packages gives finitely many jobs.\<close>

theorem traversal_bounded:
  assumes "\<forall>j\<in>set js. \<forall>meta. resolved env j = Some meta \<longrightarrow>
      length (m_dependencies meta) \<le> D \<and> meta_key meta \<in> U" and "finite U"
  shows "sum_list (fst (handle_all env newID js \<lparr>a_packages = [], a_edges = []\<rparr>)) \<le> D * card U"
proof -
  obtain ns s' where run: "handle_all env newID js \<lparr>a_packages = [], a_edges = []\<rparr> = (ns, s')" by fastforce
  have "set (map fst (a_packages s')) \<subseteq> U" using handle_all_store [OF run] assms(1) by auto
  then have "card (set (map fst (a_packages s'))) \<le> card U" using assms(2) by (rule card_mono [rotated])
  moreover have "sum_list ns \<le> D * card (set (map fst (a_packages s')))"
    using handle_all_children [OF run, of D] assms(1) by simp
  ultimately show ?thesis using run by (metis fst_conv le_trans mult_le_mono2)
qed

definition demo_env :: audit_env where
  "demo_env = \<lparr>decode_payload = (\<lambda>s. Inr \<lparr>ap_name = s, ap_version = ''1'', ap_parent_name = ''app'',
       ap_parent_version = []\<rparr>),
     encode_payload = ap_name,
     FetchPackage = (\<lambda>n v. Inr \<lparr>m_name = n, m_version = v, m_license = ''GPL'',
       m_dependencies = [(''b'', ''1'')]\<rparr>)\<rparr>"

definition demo_audit_jobs :: "job list" where
  "demo_audit_jobs = [NewJob ''1'' ''audit_package'' ''a'', NewJob ''2'' ''audit_package'' ''b'',
     NewJob ''3'' ''audit_package'' ''b'']"

theorem traversal_bounded_witness:
  "sum_list (fst (handle_all demo_env (\<lambda>_. ''x'') demo_audit_jobs \<lparr>a_packages = [], a_edges = []\<rparr>)) \<le> 2"
proof -
  have "\<forall>j\<in>set demo_audit_jobs. \<forall>meta. resolved demo_env j = Some meta \<longrightarrow>
      length (m_dependencies meta) \<le> 1 \<and> meta_key meta \<in> {''a@1'', ''b@1''}"
    by (auto simp: demo_audit_jobs_def demo_env_def resolved_def NewJob_def meta_key_def key_def)
  from traversal_bounded [OF this, of "\<lambda>_. ''x''"] show ?thesis by simp
qed

text \<open>After any sequence of handled jobs the package store holds exactly one entry per
  resolved coordinate, and a verdict is a pass exactly when the license is on the
  allowlist.\<close>

theorem package_store_exact:
  assumes "handle_all env newID js \<lparr>a_packages = [], a_edges = []\<rparr> = (ns, s')"
  shows "distinct (map fst (a_packages s')) \<and>
    set (map fst (a_packages s')) = meta_key ` {meta. \<exists>j\<in>set js. resolved env j = Some meta} \<and>
    (\<forall>p\<in>set (PackageStore_All (a_packages s')).
       pk_verdict p = (if pk_license p \<in> set allowedLicenses then VerdictPass else VerdictPolicyViolation))"
proof -
  have "store_ok env []" by (simp add: store_ok_def)
  then have ok: "store_ok env (a_packages s')" using handle_all_store [OF assms] by simp
  have "pk_verdict p = (if pk_license p \<in> set allowedLicenses then VerdictPass else VerdictPolicyViolation)"
    if "p \<in> set (PackageStore_All (a_packages s'))" for p
    using ok that by (cases "pk_verdict p") (auto simp: store_ok_def PackageStore_All_def)
  then show ?thesis using handle_all_store [OF assms] ok by (simp add: store_ok_def)
qed

theorem package_store_exact_witness:
  "distinct (map fst (a_packages (snd (handle_all demo_env (\<lambda>_. ''x'') demo_audit_jobs
     \<lparr>a_packages = [], a_edges = []\<rparr>))))"
  using package_store_exact [of demo_env "\<lambda>_. ''x''" demo_audit_jobs] by (metis prod.collapse)

section \<open>The report\<close>

lemma lookup_add_parent:
  "lookup (add_parent c p ps) k = lookup ps k @ (if k = c then [p] else [])"
  by (induction c p ps rule: add_parent.induct) (auto simp: lookup_def split: option.splits)

lemma set_lookup_build_parents:
  "set (lookup (build_parents edges) c) =
   {key (FromName e) (FromVersion e) | e. e \<in> set edges \<and> key (ToName e) (ToVersion e) = c}"
proof -
  let ?add = "\<lambda>e. add_parent (key (ToName e) (ToVersion e)) (key (FromName e) (FromVersion e))"
  have "set (lookup (fold ?add edges ps) c) = set (lookup ps c) \<union>
      {key (FromName e) (FromVersion e) | e. e \<in> set edges \<and> key (ToName e) (ToVersion e) = c}" for ps
    by (induction edges arbitrary: ps) (auto simp: lookup_add_parent)
  from this [of "[]"] show ?thesis by (simp add: build_parents_def lookup_def)
qed

text \<open>A dependency path from the root to a package, listed from the package upwards.\<close>

definition depends :: "dependency_edge list \<Rightarrow> string \<Rightarrow> string \<Rightarrow> bool" where
  "depends edges parent child \<longleftrightarrow>
     (\<exists>e\<in>set edges. key (FromName e) (FromVersion e) = parent \<and> key (ToName e) (ToVersion e) = child)"

definition dependency_path :: "dependency_edge list \<Rightarrow> string \<Rightarrow> string \<Rightarrow> string list \<Rightarrow> bool" where
  "dependency_path edges root node xs \<longleftrightarrow>
     xs \<noteq> [] \<and> last xs = node \<and> (depends edges root (hd xs) \<or> depends edges (root @ ''@'') (hd xs)) \<and>
     (\<forall>i. Suc i < length xs \<longrightarrow> depends edges (xs ! i) (xs ! Suc i))"

lemma dependency_path_rev:
  "dependency_path edges root node xs \<longleftrightarrow> root_chain (build_parents edges) root node (rev xs)"
proof -
  have dep: "p \<in> set (lookup (build_parents edges) c) \<longleftrightarrow> depends edges p c" for p c
    unfolding set_lookup_build_parents depends_def by blast
  have "(\<forall>i. Suc i < length xs \<longrightarrow> depends edges (rev xs ! Suc i) (rev xs ! i)) \<longleftrightarrow>
      (\<forall>i. Suc i < length xs \<longrightarrow> depends edges (xs ! i) (xs ! Suc i))" (is "?L \<longleftrightarrow> ?R")
  proof
    assume L: ?L
    show ?R
    proof (intro allI impI)
      fix i assume i: "Suc i < length xs"
      let ?j = "length xs - Suc (Suc i)"
      have "Suc ?j < length xs" "rev xs ! Suc ?j = xs ! i" "rev xs ! ?j = xs ! Suc i"
        using i by (simp_all add: rev_nth Suc_diff_Suc)
      with L show "depends edges (xs ! i) (xs ! Suc i)" by metis
    qed
  next
    assume R: ?R
    show ?L
    proof (intro allI impI)
      fix i assume i: "Suc i < length xs"
      let ?j = "length xs - Suc (Suc i)"
      have "Suc ?j < length xs" "rev xs ! Suc i = xs ! ?j" "rev xs ! i = xs ! Suc ?j"
        using i by (simp_all add: rev_nth Suc_diff_Suc)
      with R show "depends edges (rev xs ! Suc i) (rev xs ! i)" by metis
    qed
  qed
  then show ?thesis
    by (auto simp: dependency_path_def root_chain_def chain_def at_root_def dep hd_rev last_rev)
qed

text \<open>C24: \<^verbatim>\<open>findPath\<close> returns a shortest dependency path from the root to the package, and only
  when the edges hold no path at all does it fall back to the package alone.\<close>

theorem findPath_shortest:
  "(\<forall>ys. \<not> dependency_path edges root node ys) \<and> findPath node root (build_parents edges) = [node] \<or>
   (\<exists>xs. findPath node root (build_parents edges) = root # xs \<and> dependency_path edges root node xs \<and>
      (\<forall>ys. dependency_path edges root node ys \<longrightarrow> length xs \<le> length ys))"
proof -
  let ?ps = "build_parents edges"
  note correct = search_correct [OF search_inv_init [of node root ?ps]]
  show ?thesis
  proof (cases "search root ?ps [node] [(node, [node])]")
    case None
    then have "\<not> dependency_path edges root node ys" for ys
      using correct dependency_path_rev by auto
    then show ?thesis using None by (simp add: findPath_def)
  next
    case (Some full)
    then obtain xs where xs: "full = root # rev xs" "root_chain ?ps root node xs"
      "\<And>ys. root_chain ?ps root node ys \<Longrightarrow> length xs \<le> length ys" using correct by auto
    have "dependency_path edges root node (rev xs)" using xs(2) by (simp add: dependency_path_rev)
    moreover have "length (rev xs) \<le> length ys" if "dependency_path edges root node ys" for ys
      using xs(3) [of "rev ys"] that by (simp add: dependency_path_rev)
    ultimately show ?thesis using Some xs(1) by (auto simp: findPath_def)
  qed
qed

definition demo_edges :: "dependency_edge list" where
  "demo_edges = [\<lparr>FromName = ''app'', FromVersion = [], ToName = ''a'', ToVersion = ''1''\<rparr>,
     \<lparr>FromName = ''a'', FromVersion = ''1'', ToName = ''b'', ToVersion = ''1''\<rparr>,
     \<lparr>FromName = ''b'', FromVersion = ''1'', ToName = ''a'', ToVersion = ''1''\<rparr>]"

theorem findPath_shortest_witness:
  "\<exists>xs. findPath ''b@1'' ''app'' (build_parents demo_edges) = ''app'' # xs \<and>
     dependency_path demo_edges ''app'' ''b@1'' xs"
proof -
  have "findPath ''b@1'' ''app'' (build_parents demo_edges) = [''app'', ''a@1'', ''b@1'']" by code_simp
  then show ?thesis using findPath_shortest [of demo_edges "''app''" "''b@1''"] by auto
qed



end
