(* ===== verification/Audit_Service.thy ===== *)
theory Audit_Service
  imports Auditor Store_Properties
begin

text \<open>
  The service handlers that audit one package as a durable job
  (\<^verbatim>\<open>src/internal/auditor/service_handler.go\<close>, \<^verbatim>\<open>src/internal/handlers\<close>): the result and the
  child submissions of a job, their idempotency keys, and the classification of registry
  errors. \<open>sha\<close> is the hexadecimal SHA-256 digest, \<open>is_network\<close> is \<^verbatim>\<open>errors.As\<close> with
  \<^verbatim>\<open>net.Error\<close>, \<open>retryable\<close> is \<^verbatim>\<open>errors.As\<close> with an error whose \<^verbatim>\<open>Retryable\<close> method
  returns true; the JSON codec and the registries are parameters.
\<close>

section \<open>Error classification\<close>

definition classifyServiceError :: "(go_error \<Rightarrow> bool) \<Rightarrow> go_error \<Rightarrow> go_error" where
  "classifyServiceError is_network err =
     (let m = error_text err
      in if contains (to_lower m) ''rate limit'' \<or> contains m ''status 429'' \<or> contains m ''status 502''
            \<or> contains m ''status 503'' \<or> contains m ''status 504''
         then ClassifiedError ErrorTransient err
         else if is_network err then ClassifiedError ErrorTransient err
         else ClassifiedError ErrorPermanent err)"

definition classifyError :: "(go_error \<Rightarrow> bool) \<Rightarrow> go_error \<Rightarrow> go_error" where
  "classifyError is_network err =
     (let message = to_lower (error_text err)
      in if contains message ''rate limit'' \<or> contains message ''status 429'' \<or> contains message ''status 502''
            \<or> contains message ''status 503'' \<or> contains message ''status 504'' \<or> is_network err
         then ClassifiedError ErrorTransient err
         else ClassifiedError ErrorPermanent err)"

section \<open>Child submissions\<close>

definition child_hash_input :: "string \<Rightarrow> string \<Rightarrow> string \<Rightarrow> string \<Rightarrow> string" where
  "child_hash_input rootID ecosystem name version =
     rootID @ [CHR 0x00] @ ecosystem @ [CHR 0x00] @ name @ [CHR 0x00] @ version"

definition auditChild ::
    "(string \<Rightarrow> string) \<Rightarrow> string \<Rightarrow> string \<Rightarrow> string \<Rightarrow> string \<Rightarrow> string \<Rightarrow> string \<Rightarrow> string \<Rightarrow> int \<Rightarrow> submission" where
  "auditChild sha rootID parentID payload jobType ecosystem name version maxAttempts =
     empty_submission\<lparr>SubType := jobType, SubPayload := payload, SubMaxAttempts := maxAttempts,
       SubRootJobID := rootID, SubParentJobID := parentID, SubInternal := True,
       SubIdempotencyKey := ''audit-child:'' @ sha (child_hash_input rootID ecosystem name version)\<rparr>"

section \<open>Package handler\<close>

record audit_package_result =
  apr_Ecosystem :: string
  apr_Name :: string
  apr_Version :: string
  apr_License :: string
  apr_Verdict :: verdict
  apr_ParentName :: string
  apr_ParentVersion :: string

record service_env =
  sv_decode :: "string \<Rightarrow> go_error + audit_payload"
  sv_encode :: "audit_payload \<Rightarrow> go_error + string"
  sv_encode_result :: "audit_package_result \<Rightarrow> go_error + string"
  sv_fetch :: "string \<Rightarrow> string \<Rightarrow> go_error + package_metadata"
  sv_network :: "go_error \<Rightarrow> bool"
  sv_sha :: "string \<Rightarrow> string"
  sv_job_type :: string
  sv_ecosystem :: string

fun service_children ::
    "service_env \<Rightarrow> job \<Rightarrow> package_metadata \<Rightarrow> (string \<times> string) list \<Rightarrow> go_error + submission list" where
  "service_children env value metadata [] = Inr []"
| "service_children env value metadata ((name, version) # deps) =
     (case sv_encode env \<lparr>ap_name = name, ap_version = version, ap_parent_name = m_name metadata,
             ap_parent_version = m_version metadata\<rparr> of
        Inl err \<Rightarrow> Inl (ClassifiedError ErrorPermanent err)
      | Inr body \<Rightarrow>
          bindE (service_children env value metadata deps) (\<lambda>rest.
            Inr (auditChild (sv_sha env) (RootJobID value) (ID value) body (sv_job_type env) (sv_ecosystem env)
                   name version (MaxAttempts value) # rest)))"

definition AuditPackageService_Handle :: "service_env \<Rightarrow> job \<Rightarrow> go_error + handler_result" where
  "AuditPackageService_Handle env value =
     (case sv_decode env (Payload value) of
        Inl err \<Rightarrow> Inl (ClassifiedError ErrorPermanent (Wrapped ''invalid audit package payload'' err))
      | Inr payload \<Rightarrow>
          (case sv_fetch env (ap_name payload) (ap_version payload) of
             Inl err \<Rightarrow> Inl (classifyServiceError (sv_network env) err)
           | Inr metadata \<Rightarrow>
               (case sv_encode_result env
                       \<lparr>apr_Ecosystem = sv_ecosystem env, apr_Name = m_name metadata,
                        apr_Version = m_version metadata, apr_License = m_license metadata,
                        apr_Verdict = Check metadata, apr_ParentName = ap_parent_name payload,
                        apr_ParentVersion = ap_parent_version payload\<rparr> of
                  Inl err \<Rightarrow> Inl (ClassifiedError ErrorPermanent err)
                | Inr result \<Rightarrow>
                    bindE (service_children env value metadata (m_dependencies metadata)) (\<lambda>children.
                      Inr \<lparr>Result = result, Children = children\<rparr>))))"

section \<open>Go module handler\<close>

record go_module_payload =
  gp_Name :: string
  gp_Version :: string
  gp_ParentName :: string
  gp_ParentVersion :: string

record go_metadata =
  gm_ModulePath :: string
  gm_Requirements :: "(string \<times> string) list"

record go_service_env =
  gs_decode :: "string \<Rightarrow> go_error + go_module_payload"
  gs_encode :: "go_module_payload \<Rightarrow> string"
  gs_encode_result :: "audit_package_result \<Rightarrow> string"
  gs_fetch :: "string \<Rightarrow> string \<Rightarrow> go_error + go_metadata"
  gs_retryable :: "go_error \<Rightarrow> bool"
  gs_sha :: "string \<Rightarrow> string"

definition GoModuleService_Handle :: "go_service_env \<Rightarrow> job \<Rightarrow> go_error + handler_result" where
  "GoModuleService_Handle env value =
     (case gs_decode env (Payload value) of
        Inl err \<Rightarrow> Inl (ClassifiedError ErrorPermanent (Wrapped ''invalid Go module payload'' err))
      | Inr payload \<Rightarrow>
          (case gs_fetch env (gp_Name payload) (gp_Version payload) of
             Inl err \<Rightarrow> Inl (ClassifiedError
                (if gs_retryable env err then ErrorTransient else ErrorPermanent) err)
           | Inr metadata \<Rightarrow>
               Inr \<lparr>Result = gs_encode_result env
                       \<lparr>apr_Ecosystem = ''go'', apr_Name = gm_ModulePath metadata,
                        apr_Version = gp_Version payload, apr_License = ''UNKNOWN'',
                        apr_Verdict = VerdictPolicyViolation, apr_ParentName = gp_ParentName payload,
                        apr_ParentVersion = gp_ParentVersion payload\<rparr>,
                    Children = map (\<lambda>(path, version).
                       auditChild (gs_sha env) (RootJobID value) (ID value)
                         (gs_encode env \<lparr>gp_Name = path, gp_Version = version,
                            gp_ParentName = gm_ModulePath metadata, gp_ParentVersion = gp_Version payload\<rparr>)
                         ''audit_go_module'' ''go'' path version (MaxAttempts value))
                       (gm_Requirements metadata)\<rparr>))"

section \<open>Lemmas\<close>

lemma has_prefix_lower: "has_prefix s p \<Longrightarrow> has_prefix (to_lower s) (to_lower p)"
  by (simp add: has_prefix_def to_lower_def take_map)

lemma contains_mono_lower: "contains m p \<Longrightarrow> contains (to_lower m) (to_lower p)"
proof (induction m p rule: contains.induct)
  case (2 c s p)
  then have "has_prefix (to_lower (c # s)) (to_lower p) \<or> contains (to_lower s) (to_lower p)"
    using has_prefix_lower by (metis contains.simps(2))
  then show ?case by (simp add: to_lower_def)
qed (simp add: to_lower_def)

lemma service_children_Inr:
  "service_children env value metadata deps = Inr cs \<Longrightarrow>
   length cs = length deps \<and>
   (\<forall>i<length deps. \<exists>body. cs ! i = auditChild (sv_sha env) (RootJobID value) (ID value) body (sv_job_type env)
      (sv_ecosystem env) (fst (deps ! i)) (snd (deps ! i)) (MaxAttempts value))"
proof (induction env "value" metadata deps arbitrary: cs rule: service_children.induct)
  case (2 env val metadata name version deps)
  then obtain body rest where rest: "service_children env val metadata deps = Inr rest"
    and cs: "cs = auditChild (sv_sha env) (RootJobID val) (ID val) body (sv_job_type env) (sv_ecosystem env)
                   name version (MaxAttempts val) # rest"
    and "sv_encode env \<lparr>ap_name = name, ap_version = version, ap_parent_name = m_name metadata,
             ap_parent_version = m_version metadata\<rparr> = Inr body"
    by (auto simp: bindE_simps split: sum.splits)
  from 2(1) [OF this(3) rest] cs show ?case by (auto simp: nth_Cons split: nat.splits)
qed simp

lemma append_sep_inj:
  assumes "a @ [x] @ b = c @ [x] @ d" and "x \<notin> set a" and "x \<notin> set c"
  shows "a = c \<and> b = d"
  using assms
proof (induction a arbitrary: c)
  case Nil
  then show ?case by (cases c) auto
next
  case (Cons y a)
  then show ?case by (cases c) auto
qed

lemma child_hash_input_inj:
  assumes "child_hash_input r e n v = child_hash_input r' e' n' v'"
    and "CHR 0x00 \<notin> set (r @ e @ n)" and "CHR 0x00 \<notin> set (r' @ e' @ n')"
  shows "r = r' \<and> e = e' \<and> n = n' \<and> v = v'"
proof -
  note sep = append_sep_inj [where x = "CHR 0x00"]
  have 1: "r = r' \<and> e @ [CHR 0x00] @ n @ [CHR 0x00] @ v = e' @ [CHR 0x00] @ n' @ [CHR 0x00] @ v'"
    by (rule sep) (use assms in \<open>auto simp: child_hash_input_def\<close>)
  then have "e @ [CHR 0x00] @ n @ [CHR 0x00] @ v = e' @ [CHR 0x00] @ n' @ [CHR 0x00] @ v'" ..
  then have 2: "e = e' \<and> n @ [CHR 0x00] @ v = n' @ [CHR 0x00] @ v'" by (rule sep) (use assms in auto)
  then have "n @ [CHR 0x00] @ v = n' @ [CHR 0x00] @ v'" ..
  then have "n = n' \<and> v = v'" by (rule sep) (use assms in auto)
  with 1 2 show ?thesis by simp
qed

text \<open>Every child of a completed job has a row with its idempotency key.\<close>

lemma only_inserts_has_key: "only_inserts root d d' \<Longrightarrow> has_key d k \<Longrightarrow> has_key d' k"
  by (auto simp: only_inserts_def has_key_iff)

lemma insert_children_keys:
  assumes "insert_children ext now newID v n cs d = Inr d'" and "\<forall>c\<in>set cs. 0 \<le> SubMaxAttempts c"
    and "c \<in> set cs"
  shows "has_key d' (SubIdempotencyKey c)"
  using assms
proof (induction cs arbitrary: n d)
  case (Cons x cs)
  let ?child = "x\<lparr>SubRootJobID := RootJobID v, SubParentJobID := ID v, SubInternal := True\<rparr>"
  from Cons.prems(1) obtain d1 d2 where
    2: "insertSubmission ext now (newID n) ?child d1 = Inr d2"
    and 3: "insert_children ext now newID v (Suc n) cs d2 = Inr d'"
    by (auto simp: bindE_simps Let_def)
  have key: "has_key d2 (SubIdempotencyKey x)"
    using 2
  proof (cases rule: insertSubmission_cases)
    case (inserted row)
    then show ?thesis using insert_job_frame(1) [OF inserted(1)] by (simp add: has_key_iff)
  qed simp
  show ?case
  proof (cases "c = x")
    case True
    then show ?thesis
      using key only_inserts_has_key [OF insert_children_only_inserts [OF 3]] Cons.prems(2) by simp
  next
    case False
    then show ?thesis using Cons.IH [OF 3] Cons.prems(2,3) by simp
  qed
qed simp

lemma evolves_has_key:
  assumes "evolves d d'" and "has_key d k"
  shows "has_key d' k"
proof -
  from assms(2) obtain r where r: "r \<in> set (t_jobs d)" "r_idempotency_key r = Some k"
    by (force simp: has_key_iff)
  from evolves_row [OF assms(1) r(1)] obtain r' where "r' \<in> set (t_jobs d')" "job_edge\<^sup>*\<^sup>* r r'" ..
  moreover from this(2) have "r_idempotency_key r' = Some k"
    using job_path_same_job r(2) by (metis same_jobD(4))
  ultimately show ?thesis by (force simp: has_key_iff)
qed

lemma Complete_keys:
  assumes com: "Complete ext now newID v res d = Inr d'"
    and max: "\<forall>c\<in>set (Children res). 0 \<le> SubMaxAttempts c" and c: "c \<in> set (Children res)"
  shows "has_key d' (SubIdempotencyKey c)"
proof -
  let ?st = "complete_status v res"
  have "count_where (lease_held v) (t_jobs d) = 1"
    by (rule ccontr) (use com in \<open>simp add: Complete_def\<close>)
  with com obtain d2 d3 d4 d5 d6 where
    3: "insert_children ext now newID v 0 (Children res) d2 = Inr d3"
    and 4: "(if Result res \<noteq> [] \<and> Result res \<noteq> ''null'' \<and> ?st = StatusCompleted
             then insert_result ext (ID v) (Result res) d3 else Inr d3) = Inr d4"
    and 5: "insert_audit_result ext v res d4 = Inr d5"
    and 6: "insert_event now (ID v) (status_text ?st) (Some (Attempts v)) (Some (LockedBy v))
              NoDetails d5 = Inr d6"
    and 7: "(if ?st = StatusCompleted \<and> ID v \<noteq> RootJobID v
             then finalizeRoot ext now (RootJobID v) d6 else Inr d6) = Inr d'"
    by (auto simp: Complete_def Let_def bindE_eq_Inr split del: if_split)
  have "t_jobs d4 = t_jobs d3" using 4 insert_result_frame(1) by (auto split: if_splits)
  then have "t_jobs d6 = t_jobs d3"
    using insert_audit_result_frame(1) [OF 5] insert_event_frame(1) [OF 6] by simp
  then have "has_key d6 (SubIdempotencyKey c)"
    using insert_children_keys [OF 3 max c] by (simp add: has_key_def)
  moreover have "evolves d6 d'"
    using 7 finalizeRoot_evolves by (auto intro: evolves_same split: if_splits)
  ultimately show ?thesis by (rule evolves_has_key [rotated])
qed

section \<open>Properties\<close>

text \<open>Child keys identify coordinates: with a digest that does not collide and names
  without NUL bytes, two child submissions share an idempotency key exactly when root,
  ecosystem, name and version range agree.\<close>

theorem child_keys_injective:
  assumes "inj sha" and "CHR 0x00 \<notin> set (r @ e @ n)" and "CHR 0x00 \<notin> set (r' @ e' @ n')"
  shows "SubIdempotencyKey (auditChild sha r p b t e n v m) = SubIdempotencyKey (auditChild sha r' p' b' t' e' n' v' m')
    \<longleftrightarrow> (r, e, n, v) = (r', e', n', v')"
  using assms child_hash_input_inj [OF _ assms(2,3)] by (auto simp: auditChild_def dest: injD)

theorem child_keys_injective_witness:
  "SubIdempotencyKey (auditChild (\<lambda>s. s) ''r'' ''p'' ''{}'' ''t'' ''npm'' ''a'' ''1'' 5) \<noteq>
   SubIdempotencyKey (auditChild (\<lambda>s. s) ''r'' ''p'' ''{}'' ''t'' ''npm'' ''a'' ''2'' 5)"
  using child_keys_injective [of "\<lambda>s. s" "''r''" "''npm''" "''a''" "''r''" "''npm''" "''a''"] by simp


definition demo_service :: service_env where
  "demo_service = \<lparr>sv_decode = (\<lambda>s. Inr \<lparr>ap_name = ''a'', ap_version = ''1'', ap_parent_name = ''app'', ap_parent_version = []\<rparr>),
     sv_encode = (\<lambda>p. Inr (ap_name p)), sv_encode_result = (\<lambda>r. Inr ''{}''),
     sv_fetch = (\<lambda>n v. Inr \<lparr>m_name = n, m_version = v, m_license = ''MIT'', m_dependencies = [(''b'', ''^1'')]\<rparr>),
     sv_network = (\<lambda>_. False), sv_sha = (\<lambda>s. s), sv_job_type = ''audit_npm_package'', sv_ecosystem = ''npm''\<rparr>"

definition demo_service_result :: handler_result where
  "demo_service_result = (case AuditPackageService_Handle demo_service demo_job2 of
     Inr res \<Rightarrow> res | Inl _ \<Rightarrow> \<lparr>Result = [], Children = []\<rparr>)"

definition demo_audited :: db where
  "demo_audited = (case Complete demo_ext 45 (\<lambda>_. ''job-3'') demo_job2 demo_service_result demo_db4 of
     Inr d \<Rightarrow> d | Inl _ \<Rightarrow> empty_db)"


text \<open>Registry errors are retried exactly when they are rate limits, gateway or
  unavailability statuses, or network errors; everything else, and every malformed payload,
  is permanent, and the two classifiers of the sources agree on every message in lower
  case.\<close>

theorem registry_errors_classified:
  "(KindOf (classifyServiceError net err) = ErrorTransient \<longleftrightarrow>
      contains (to_lower (error_text err)) ''rate limit'' \<or>
      (\<exists>code\<in>set [''429'', ''502'', ''503'', ''504'']. contains (error_text err) (''status '' @ code)) \<or> net err) \<and>
   (KindOf (classifyServiceError net err) \<noteq> ErrorTransient \<longrightarrow>
      KindOf (classifyServiceError net err) = ErrorPermanent) \<and>
   (KindOf (classifyServiceError net err) = ErrorTransient \<longrightarrow> KindOf (classifyError net err) = ErrorTransient) \<and>
   (to_lower (error_text err) = error_text err \<longrightarrow> classifyError net err = classifyServiceError net err)"
proof -
  have lower: "contains (to_lower (error_text err)) (to_lower p)" if "contains (error_text err) p" for p
    using that by (rule contains_mono_lower)
  have "to_lower ''status 429'' = ''status 429''" "to_lower ''status 502'' = ''status 502''"
    "to_lower ''status 503'' = ''status 503''" "to_lower ''status 504'' = ''status 504''" by code_simp+
  with lower [of "''status 429''"] lower [of "''status 502''"] lower [of "''status 503''"] lower [of "''status 504''"]
  show ?thesis by (auto simp: classifyServiceError_def classifyError_def Let_def)
qed

theorem registry_errors_classified_witness:
  "KindOf (classifyServiceError (\<lambda>_. False) (PlainError ''GET: unexpected status 503'')) = ErrorTransient"
proof -
  have "contains (error_text (PlainError ''GET: unexpected status 503'')) (''status '' @ ''503'')" by code_simp
  then show ?thesis
    using registry_errors_classified [of "\<lambda>_. False" "PlainError ''GET: unexpected status 503''"] by auto
qed

end
