(* ===== verification/Store_Metrics.thy ===== *)
theory Store_Metrics
  imports Store_Queries Complex_Main
begin

text \<open>
  The aggregate queries behind \<^verbatim>\<open>Metrics\<close> in \<^verbatim>\<open>src/internal/store/postgres/service.go\<close>, and how
  their figures agree with the tables they summarise. \<open>AVG\<close> of seconds is a rational number
  here; its rounding to a \<^verbatim>\<open>float64\<close> is not modelled.
\<close>

record metric_key =
  JobType :: string
  Outcome :: string

record metrics =
  m_Counts :: "(status \<times> nat) list"
  Submissions :: nat
  m_Attempts :: "(metric_key \<times> nat) list"
  AverageQueueWaitSeconds :: rat
  AverageHandlerSeconds :: rat
  Retries :: nat
  LeaseExpirations :: nat
  DLQEntries :: nat
  DLQReplays :: nat
  WorkersFresh :: nat

text \<open>\<open>COALESCE(AVG(EXTRACT(EPOCH FROM ...)), 0)\<close> over intervals in nanoseconds.\<close>

definition average_seconds :: "duration list \<Rightarrow> rat" where
  "average_seconds ds = (if ds = [] then 0 else of_int (sum_list ds) / (of_nat (length ds) * 1000000000))"

definition queue_waits :: "db \<Rightarrow> duration list" where
  "queue_waits d = concat (map (\<lambda>r. case r_started_at r of Some t \<Rightarrow> [t - r_created_at r] | None \<Rightarrow> []) (t_jobs d))"

definition handler_times :: "db \<Rightarrow> duration list" where
  "handler_times d = concat (map (\<lambda>a. case at_finished_at a of Some t \<Rightarrow> [t - at_started_at a] | None \<Rightarrow> []) (t_attempts d))"

definition events_of_type :: "string \<Rightarrow> db \<Rightarrow> nat" where
  "events_of_type ty d = count_where (\<lambda>e. ev_type e = ty) (t_events d)"

text \<open>\<open>dlq d JOIN jobs j ON j.id=d.job_id WHERE j.internal=FALSE\<close>: one entry per pair.\<close>

definition public_dlq :: "db \<Rightarrow> dlq_row list" where
  "public_dlq d = concat (map (\<lambda>e. map (\<lambda>j. e)
     (filter (\<lambda>j. r_id j = dl_job_id e \<and> \<not> r_internal j) (t_jobs d))) (t_dlq d))"

text \<open>\<open>job_attempts a JOIN jobs j ON j.id=a.job_id GROUP BY j.type,a.status\<close>\<close>

definition attempt_keys :: "db \<Rightarrow> metric_key list" where
  "attempt_keys d = concat (map (\<lambda>a. map (\<lambda>j. \<lparr>JobType = r_type j, Outcome = at_status a\<rparr>)
     (filter (\<lambda>j. r_id j = at_job_id a) (t_jobs d))) (t_attempts d))"

definition group_counts :: "'k list \<Rightarrow> ('k \<times> nat) list" where
  "group_counts ks = map (\<lambda>k. (k, count_list ks k)) (remdups ks)"

definition freshness :: duration where
  "freshness = 30000000000"

definition Metrics :: "gotime \<Rightarrow> db \<Rightarrow> store_error + metrics" where
  "Metrics now d = Inr
     \<lparr>m_Counts = Counts d, Submissions = events_of_type ''submitted'' d, m_Attempts = group_counts (attempt_keys d),
      AverageQueueWaitSeconds = average_seconds (queue_waits d), AverageHandlerSeconds = average_seconds (handler_times d),
      Retries = events_of_type ''retry_scheduled'' d, LeaseExpirations = events_of_type ''lease_expired'' d,
      DLQEntries = length (public_dlq d), DLQReplays = count_where (\<lambda>e. dl_replayed_at e \<noteq> None) (public_dlq d),
      WorkersFresh = count_where (\<lambda>w. now - freshness < w_heartbeat_at w) (t_workers d)\<rparr>"

text \<open>The value of a Go map of counts at a key: zero when the key is absent.\<close>

definition count_at :: "('k \<times> nat) list \<Rightarrow> 'k \<Rightarrow> nat" where
  "count_at m k = (case map_of m k of Some n \<Rightarrow> n | None \<Rightarrow> 0)"

section \<open>Lemmas on joins and groups\<close>

lemma join_length:
  "length (concat (map (\<lambda>x. map (f x) (filter (P x) ys)) xs)) = sum_list (map (\<lambda>y. count_where (\<lambda>x. P x y) xs) ys)"
proof (induction xs)
  case (Cons x xs)
  have "sum_list (map (\<lambda>y. count_where (\<lambda>x. P x y) (x # xs)) ys) =
      length (filter (P x) ys) + sum_list (map (\<lambda>y. count_where (\<lambda>x. P x y) xs) ys)"
    by (induction ys) auto
  with Cons show ?case by simp
qed simp

lemma group_counts_total: "sum_list (map snd (group_counts ks)) = length ks"
proof -
  have "sum_list (map snd (group_counts ks)) = sum (count_list ks) (set ks)"
    by (simp add: group_counts_def comp_def flip: sum.distinct_set_conv_list [OF distinct_remdups, of "count_list ks"])
  then show ?thesis by (simp add: sum_count_set)
qed

lemma group_counts_at: "count_at (group_counts ks) k = count_list ks k"
proof (cases "k \<in> set ks")
  case True
  then have "map_of (group_counts ks) k = Some (count_list ks k)"
    by (simp add: group_counts_def map_of_map_restrict)
  then show ?thesis by (simp add: count_at_def)
next
  case False
  then have "map_of (group_counts ks) k = None" by (simp add: group_counts_def map_of_map_restrict)
  with False show ?thesis by (simp add: count_at_def)
qed

lemma Counts_at: "count_at (Counts d) s = count_where (\<lambda>r. \<not> r_internal r \<and> r_status r = s) (t_jobs d)"
proof -
  have "map_of (filter (\<lambda>(s, n). n \<noteq> 0) (map (\<lambda>s. (s, f s)) ss)) s = (if s \<in> set ss \<and> f s \<noteq> 0 then Some (f s) else None)"
    for f :: "status \<Rightarrow> nat" and ss
    by (induction ss) auto
  moreover have "s \<in> set all_statuses" by (cases s) (simp_all add: all_statuses_def)
  ultimately show ?thesis by (simp add: Counts_def count_at_def)
qed

lemma sum_indicator: "sum_list (map (\<lambda>x. if p x then 1 else 0) xs) = count_where p xs"
  by (induction xs) auto

section \<open>The figures agree with the tables\<close>

lemma public_dlq_length:
  assumes "tables_ok d"
  shows "length (public_dlq d) = count_where (\<lambda>r. \<not> r_internal r \<and> r_status r = StatusDeadLettered) (t_jobs d)"
proof -
  have "count_where (\<lambda>e. r_id j = dl_job_id e \<and> \<not> r_internal j) (t_dlq d) =
      (if \<not> r_internal j \<and> r_status j = StatusDeadLettered then 1 else 0)" if j: "j \<in> set (t_jobs d)" for j
  proof -
    have "count_where (\<lambda>r. r_id r = r_id j \<and> r_status r = StatusDeadLettered) (t_jobs d) \<le> 1"
      using assms by (intro count_where_distinct_key [where k = r_id and a = "r_id j"]) (auto simp: tables_ok_def unique_keys_def)
    moreover have "0 < count_where (\<lambda>r. r_id r = r_id j \<and> r_status r = StatusDeadLettered) (t_jobs d) \<longleftrightarrow>
        r_status j = StatusDeadLettered"
    proof -
      have "unique_keys d" using assms by (simp add: tables_ok_def)
      then have "r = j" if "r \<in> set (t_jobs d)" "r_id r = r_id j" for r using that j unique_row by blast
      then show ?thesis using j unfolding count_where_pos_iff by blast
    qed
    moreover have "count_where (\<lambda>e. r_id j = dl_job_id e) (t_dlq d) =
        count_where (\<lambda>r. r_id r = r_id j \<and> r_status r = StatusDeadLettered) (t_jobs d)"
      using assms unfolding tables_ok_def dlq_ok_def dlq_count_def dead_count_def eq_commute [of "r_id j" "dl_job_id _"] by blast
    ultimately have "count_where (\<lambda>e. r_id j = dl_job_id e) (t_dlq d) = (if r_status j = StatusDeadLettered then 1 else 0)"
      by (cases "r_status j = StatusDeadLettered") simp_all
    then show ?thesis by (cases "r_internal j") (simp_all add: count_where_0_iff)
  qed
  then show ?thesis unfolding public_dlq_def join_length sum_indicator [symmetric]
    by (intro arg_cong [where f = sum_list] map_cong refl) simp
qed

lemma attempt_keys_length:
  assumes "tables_ok d"
  shows "int (length (attempt_keys d)) = sum_list (map r_attempts (t_jobs d))"
proof -
  have fst_key: "count_where (\<lambda>k. fst k = i) (map at_key xs) = count_where (\<lambda>a. i = at_job_id a) xs" for i xs
    by (induction xs) (auto simp: at_key_def)
  have "int (count_where (\<lambda>a. r_id j = at_job_id a) (t_attempts d)) = r_attempts j" if "j \<in> set (t_jobs d)" for j
    using assms that fst_key by (simp add: tables_ok_def attempts_ok_def)
  then have "map (\<lambda>j. int (count_where (\<lambda>a. r_id j = at_job_id a) (t_attempts d))) (t_jobs d) = map r_attempts (t_jobs d)"
    by simp
  moreover have "int (sum_list (map f xs)) = sum_list (map (\<lambda>x. int (f x)) xs)" for f and xs :: "job_row list"
    by (induction xs) simp_all
  ultimately show ?thesis unfolding attempt_keys_def join_length eq_commute [of "r_id _"] by metis
qed



end
