(* ===== verification/Http_API.thy ===== *)
theory Http_API
  imports Store_Metrics Worker_Service
begin

text \<open>
  The HTTP interface (\<^verbatim>\<open>src/internal/httpapi/jobs.go\<close>) and the repository URLs it accepts
  (\<^verbatim>\<open>src/internal/github/client.go\<close>). A handler takes the request and the database and
  returns the response and the database; the JSON decoders, \<^verbatim>\<open>url.Parse\<close>, SHA-256, the
  readiness probe and the text of a floating-point number are parameters (\<open>api_env\<close>).
\<close>

section \<open>Repository URLs and manifest paths\<close>

record repository =
  Owner :: string
  RepoName :: string

record parsed_url =
  u_Scheme :: string
  u_Hostname :: string
  u_Port :: string
  u_HasUser :: bool
  u_RawQuery :: string
  u_Fragment :: string
  u_Path :: string

definition ParseRepositoryURL :: "(string \<Rightarrow> go_error + parsed_url) \<Rightarrow> string \<Rightarrow> go_error + repository" where
  "ParseRepositoryURL url_parse raw =
     (case url_parse raw of
        Inl err \<Rightarrow> Inl (Wrapped (''invalid GitHub repository URL '' @ quote raw) err)
      | Inr parsed \<Rightarrow>
          if u_Scheme parsed \<noteq> ''https'' then Inl (PlainError ''GitHub repository URL must use https'')
          else if \<not> equal_fold (u_Hostname parsed) ''github.com'' \<or> u_Port parsed \<noteq> []
          then Inl (PlainError ''GitHub repository URL host must be github.com'')
          else if u_HasUser parsed then Inl (PlainError ''GitHub repository URL must not contain credentials'')
          else if u_RawQuery parsed \<noteq> [] \<or> u_Fragment parsed \<noteq> []
          then Inl (PlainError ''GitHub repository URL must not contain a query or fragment'')
          else
            let path = trim_suffix (trim_prefix (u_Path parsed) ''/'') ''/'';
                segments = split_on CHR ''/'' path
            in if length segments \<noteq> 2 \<or> segments ! 0 = [] \<or> segments ! 1 = []
               then Inl (PlainError ''GitHub repository URL must have the form https://github.com/owner/repository'')
               else let repositoryName = trim_suffix (segments ! 1) ''.git''
                    in if repositoryName = []
                       then Inl (PlainError ''GitHub repository URL must include a repository name'')
                       else Inr \<lparr>Owner = segments ! 0, RepoName = repositoryName\<rparr>)"

definition ValidateManifestPath :: "string \<Rightarrow> go_error option" where
  "ValidateManifestPath manifestPath =
     (if manifestPath = [] then Some (PlainError ''manifest path must be non-empty'')
      else if has_prefix manifestPath ''/'' then Some (PlainError ''manifest path must be repository-relative'')
      else map_option (\<lambda>segment. PlainError (''manifest path contains invalid segment '' @ quote segment))
             (find (\<lambda>segment. segment = [] \<or> segment = ''.'' \<or> segment = ''..'') (split_on CHR ''/'' manifestPath)))"

section \<open>Requests and responses\<close>

record submit_request =
  rq_Type :: string
  rq_Payload :: string
  rq_MaxAttempts :: int

record retry_request =
  rt_MaxAttempts :: int

datatype api_body =
    ErrorBody string string
  | JobBody job
  | DetailBody detail
  | PageBody list_page
  | DLQBody dlq_page
  | StatusBody string
  | TextBody string

record response =
  rsp_status :: int
  rsp_body :: api_body

text \<open>
  \<open>decode_submit\<close> and \<open>decode_retry\<close> are one call of \<^verbatim>\<open>Decoder.Decode\<close> with unknown fields
  disallowed: the value and the rest of the text. \<open>decode_audit\<close> is \<^verbatim>\<open>json.Unmarshal\<close> into
  the struct of \<^verbatim>\<open>validateSubmission\<close> (its \<open>repositoryUrl\<close>), \<open>canonical\<close> is
  \<^verbatim>\<open>json.Unmarshal\<close> followed by \<^verbatim>\<open>json.Marshal\<close> where both succeed, and \<open>format_g\<close> the verb
  \<^verbatim>\<open>%g\<close> on the \<^verbatim>\<open>float64\<close> nearest to a number.
\<close>

record api_env =
  decode_submit :: "string \<Rightarrow> (submit_request \<times> string) option"
  decode_retry :: "string \<Rightarrow> (retry_request \<times> string) option"
  decode_demo :: "string \<Rightarrow> go_error + demo_payload"
  decode_audit :: "string \<Rightarrow> string option"
  url_parse :: "string \<Rightarrow> go_error + parsed_url"
  canonical :: "string \<Rightarrow> string option"
  api_sha :: "string \<Rightarrow> string"
  api_codec :: cursor_codec
  api_ready :: bool
  format_g :: "rat \<Rightarrow> string"

definition maxJobRequestBytes :: int where
  "maxJobRequestBytes = 65536"

definition writeAPIError :: "int \<Rightarrow> string \<Rightarrow> string \<Rightarrow> response" where
  "writeAPIError code kind message = \<lparr>rsp_status = code, rsp_body = ErrorBody kind message\<rparr>"

definition json_space :: "char \<Rightarrow> bool" where
  "json_space c \<longleftrightarrow> c \<in> {CHR 0x20, CHR 0x09, CHR 0x0A, CHR 0x0D}"

text \<open>One JSON value within the size limit and nothing but white space after it. A longer body
  fails in the first or the second \<^verbatim>\<open>Decode\<close>.\<close>

definition decodeBody :: "(string \<Rightarrow> ('a \<times> string) option) \<Rightarrow> string \<Rightarrow> 'a option" where
  "decodeBody decode body =
     (if maxJobRequestBytes < int (length body) then None
      else case decode body of
        None \<Rightarrow> None
      | Some (value, rest) \<Rightarrow> if list_all json_space rest then Some value else None)"

definition handleStoreError :: "store_error \<Rightarrow> response" where
  "handleStoreError err =
     (case err of
        ErrNotFound \<Rightarrow> writeAPIError 404 ''job_not_found'' ''The requested resource does not exist.''
      | ErrConflict \<Rightarrow> writeAPIError 409 ''job_conflict'' ''The requested transition is not allowed.''
      | _ \<Rightarrow> writeAPIError 500 ''internal_error'' ''The request could not be completed.'')"

definition validStatus :: "string \<Rightarrow> status option" where
  "validStatus s = find (\<lambda>x. status_text x = s) all_statuses"

section \<open>Submitting\<close>

definition validateSubmission :: "api_env \<Rightarrow> submit_request \<Rightarrow> string option" where
  "validateSubmission env input0 =
     (let input = (if rq_MaxAttempts input0 = 0 then input0\<lparr>rq_MaxAttempts := DefaultMaxAttempts\<rparr> else input0)
      in if rq_MaxAttempts input < 1 \<or> rq_MaxAttempts input > 20
         then Some ''maxAttempts must be between 1 and 20''
         else if rq_Type input = ''demo'' then
           (case (if rq_Payload input = [] then Inl (PlainError []) else decode_demo env (rq_Payload input)) of
              Inl _ \<Rightarrow> Some ''payload must be a valid demo object''
            | Inr payload \<Rightarrow>
                if DurationMS payload < 0 \<or> DurationMS payload > 120000 \<or>
                   TransientFailures payload < 0 \<or> TransientFailures payload > 20
                then Some ''demo controls are outside allowed bounds'' else None)
         else if rq_Type input = ''dependency_audit'' then
           (case (if rq_Payload input = [] then None else decode_audit env (rq_Payload input)) of
              None \<Rightarrow> Some ''payload must be a valid dependency audit object''
            | Some repositoryURL \<Rightarrow>
                (case ParseRepositoryURL (url_parse env) (trim_space repositoryURL) of
                   Inl _ \<Rightarrow> Some ''repositoryUrl must be https://github.com/owner/repository''
                 | Inr _ \<Rightarrow> None))
         else Some ''type must be demo or dependency_audit'')"

definition requestHash :: "api_env \<Rightarrow> submit_request \<Rightarrow> string" where
  "requestHash env input =
     api_sha env (rq_Type input @ [CHR 0x00] @ int_text (rq_MaxAttempts input) @ [CHR 0x00]
       @ (case canonical env (rq_Payload input) of Some c \<Rightarrow> c | None \<Rightarrow> rq_Payload input))"

definition api_submission :: "api_env \<Rightarrow> submit_request \<Rightarrow> string \<Rightarrow> submission" where
  "api_submission env input idempotencyKey =
     empty_submission\<lparr>SubType := rq_Type input, SubPayload := rq_Payload input,
       SubMaxAttempts := rq_MaxAttempts input, SubIdempotencyKey := idempotencyKey,
       SubRequestHash := requestHash env input\<rparr>"

definition api_submit ::
    "externals \<Rightarrow> api_env \<Rightarrow> gotime \<Rightarrow> string \<Rightarrow> string \<Rightarrow> string \<Rightarrow> db \<Rightarrow> response \<times> db" where
  "api_submit ext env now newID body header d =
     (case decodeBody (decode_submit env) body of
        None \<Rightarrow> (writeAPIError 400 ''invalid_request'' ''Enter one valid JSON request object.'', d)
      | Some input0 \<Rightarrow>
          (let input = (if rq_MaxAttempts input0 = 0 then input0\<lparr>rq_MaxAttempts := DefaultMaxAttempts\<rparr> else input0)
           in case validateSubmission env input of
             Some message \<Rightarrow> (writeAPIError 400 ''invalid_job'' message, d)
           | None \<Rightarrow>
               (let idempotencyKey = trim_space header
                in if 128 < length idempotencyKey
                   then (writeAPIError 400 ''invalid_idempotency_key''
                           ''Idempotency-Key must be at most 128 characters.'', d)
                   else case Submit ext now newID (api_submission env input idempotencyKey) d of
                     Inl ErrIdempotencyConflict \<Rightarrow>
                       (writeAPIError 409 ''idempotency_conflict''
                          ''idempotency key reused with different input'', d)
                   | Inl _ \<Rightarrow> (writeAPIError 500 ''internal_error'' ''The job could not be submitted.'', d)
                   | Inr (value, created, d') \<Rightarrow>
                       (\<lparr>rsp_status = (if created then 202 else 200), rsp_body = JobBody value\<rparr>, d'))))"

section \<open>The other handlers\<close>

definition limit_param :: "string \<Rightarrow> int" where
  "limit_param s = (case atoi s of Some n \<Rightarrow> n | None \<Rightarrow> 0)"

definition api_list :: "api_env \<Rightarrow> string \<Rightarrow> string \<Rightarrow> string \<Rightarrow> string \<Rightarrow> string \<Rightarrow> db \<Rightarrow> response" where
  "api_list env limit status0 type query cursor d =
     (if status0 \<noteq> [] \<and> validStatus status0 = None
      then writeAPIError 400 ''invalid_query'' ''The job status is invalid.''
      else if 128 < length query
      then writeAPIError 400 ''invalid_query'' ''The search query must be at most 128 characters.''
      else case List_page (api_codec env)
             \<lparr>f_Status = (if status0 = [] then None else validStatus status0), f_Type = type, f_Query = query,
              f_Limit = limit_param limit, f_Cursor = cursor\<rparr> d of
        Inl _ \<Rightarrow> writeAPIError 400 ''invalid_query'' ''The job filters or cursor are invalid.''
      | Inr page \<Rightarrow> \<lparr>rsp_status = 200, rsp_body = PageBody page\<rparr>)"

definition api_get :: "string \<Rightarrow> db \<Rightarrow> response" where
  "api_get i d = (case Get i d of
     Inl err \<Rightarrow> handleStoreError err | Inr detail \<Rightarrow> \<lparr>rsp_status = 200, rsp_body = DetailBody detail\<rparr>)"

definition api_cancel :: "gotime \<Rightarrow> string \<Rightarrow> db \<Rightarrow> response \<times> db" where
  "api_cancel now i d = (case Cancel now i d of
     Inl err \<Rightarrow> (handleStoreError err, d)
   | Inr (value, d') \<Rightarrow> (\<lparr>rsp_status = 200, rsp_body = JobBody value\<rparr>, d'))"

text \<open>The optional body of \<^verbatim>\<open>retry\<close> and \<^verbatim>\<open>replayDLQ\<close>.\<close>

definition decode_attempts :: "api_env \<Rightarrow> string \<Rightarrow> response + int" where
  "decode_attempts env body =
     (case (if body = [] then Some \<lparr>rt_MaxAttempts = 0\<rparr> else decodeBody (decode_retry env) body) of
        None \<Rightarrow> Inl (writeAPIError 400 ''invalid_request'' ''Enter one valid JSON request object.'')
      | Some input \<Rightarrow>
          if rt_MaxAttempts input < 0 \<or> rt_MaxAttempts input > 20
          then Inl (writeAPIError 400 ''invalid_job'' ''maxAttempts must be between 1 and 20.'')
          else Inr (rt_MaxAttempts input))"

definition api_retry :: "externals \<Rightarrow> api_env \<Rightarrow> gotime \<Rightarrow> string \<Rightarrow> string \<Rightarrow> string \<Rightarrow> db \<Rightarrow> response \<times> db" where
  "api_retry ext env now newID i body d =
     (case decode_attempts env body of
        Inl rsp \<Rightarrow> (rsp, d)
      | Inr maxAttempts \<Rightarrow>
          (case Retry ext now newID i maxAttempts d of
             Inl err \<Rightarrow> (handleStoreError err, d)
           | Inr (value, d') \<Rightarrow> (\<lparr>rsp_status = 202, rsp_body = JobBody value\<rparr>, d')))"

definition api_listDLQ :: "api_env \<Rightarrow> string \<Rightarrow> string \<Rightarrow> db \<Rightarrow> response" where
  "api_listDLQ env limit cursor d =
     (case ListDLQ (api_codec env) (limit_param limit) cursor d of
        Inl _ \<Rightarrow> writeAPIError 400 ''invalid_query'' ''The DLQ cursor is invalid.''
      | Inr page \<Rightarrow> \<lparr>rsp_status = 200, rsp_body = DLQBody page\<rparr>)"

definition api_replayDLQ :: "externals \<Rightarrow> api_env \<Rightarrow> gotime \<Rightarrow> string \<Rightarrow> string \<Rightarrow> string \<Rightarrow> db \<Rightarrow> response \<times> db" where
  "api_replayDLQ ext env now newID i body d =
     (case atoi i of
        None \<Rightarrow> (writeAPIError 400 ''invalid_request'' ''The DLQ entry ID is invalid.'', d)
      | Some entryID \<Rightarrow>
          (case decode_attempts env body of
             Inl rsp \<Rightarrow> (rsp, d)
           | Inr maxAttempts \<Rightarrow>
               (case ReplayDLQ ext now newID entryID maxAttempts d of
                  Inl err \<Rightarrow> (handleStoreError err, d)
                | Inr (value, d') \<Rightarrow> (\<lparr>rsp_status = 202, rsp_body = JobBody value\<rparr>, d'))))"

definition api_health :: response where
  "api_health = \<lparr>rsp_status = 200, rsp_body = StatusBody ''ok''\<rparr>"

definition api_readiness :: "api_env \<Rightarrow> response" where
  "api_readiness env = (if \<not> api_ready env
     then writeAPIError 503 ''not_ready'' ''PostgreSQL is unavailable.''
     else \<lparr>rsp_status = 200, rsp_body = StatusBody ''ready''\<rparr>)"

text \<open>The lines of \<^verbatim>\<open>metrics\<close>: a name, its labels and a value. The lines of the map \<^verbatim>\<open>Attempts\<close>
  come in the order of its list here, in any order in Go.\<close>

definition metric_line :: "string \<Rightarrow> string \<Rightarrow> string" where
  "metric_line name value = name @ '' '' @ value @ [CHR 0x0A]"

definition metrics_text :: "(rat \<Rightarrow> string) \<Rightarrow> metrics \<Rightarrow> string" where
  "metrics_text fmt m =
     concat (map (\<lambda>status. metric_line (''job_queue_jobs{status='' @ quote (status_text status) @ ''}'')
       (nat_text (count_at (m_Counts m) status))) all_statuses) @
     metric_line ''job_queue_submissions_total'' (nat_text (Submissions m)) @
     concat (map (\<lambda>(key, count). metric_line
       (''job_queue_attempts_total{type='' @ quote (JobType key) @ '',outcome='' @ quote (Outcome key) @ ''}'')
       (nat_text count)) (m_Attempts m)) @
     metric_line ''job_queue_wait_seconds_avg'' (fmt (AverageQueueWaitSeconds m)) @
     metric_line ''job_queue_handler_seconds_avg'' (fmt (AverageHandlerSeconds m)) @
     metric_line ''job_queue_retries_total'' (nat_text (Retries m)) @
     metric_line ''job_queue_lease_expirations_total'' (nat_text (LeaseExpirations m)) @
     metric_line ''job_queue_dlq_entries_total'' (nat_text (DLQEntries m)) @
     metric_line ''job_queue_dlq_replays_total'' (nat_text (DLQReplays m)) @
     metric_line ''job_queue_workers_fresh'' (nat_text (WorkersFresh m))"

definition api_metrics :: "api_env \<Rightarrow> gotime \<Rightarrow> db \<Rightarrow> response" where
  "api_metrics env now d = (case Metrics now d of
     Inl _ \<Rightarrow> writeAPIError 503 ''metrics_unavailable'' ''Metrics are unavailable.''
   | Inr m \<Rightarrow> \<lparr>rsp_status = 200, rsp_body = TextBody (metrics_text (format_g env) m)\<rparr>)"

section \<open>Routes\<close>

text \<open>The routes with their path values, query parameters, header and body.\<close>

datatype api_request =
    HealthRequest
  | ReadyRequest
  | MetricsRequest
  | SubmitRequest string string
  | ListRequest string string string string string
  | GetRequest string
  | CancelRequest string
  | RetryRequest string string
  | ListDLQRequest string string
  | ReplayRequest string string

fun serve :: "externals \<Rightarrow> api_env \<Rightarrow> gotime \<Rightarrow> string \<Rightarrow> api_request \<Rightarrow> db \<Rightarrow> response \<times> db" where
  "serve ext env now newID HealthRequest d = (api_health, d)"
| "serve ext env now newID ReadyRequest d = (api_readiness env, d)"
| "serve ext env now newID MetricsRequest d = (api_metrics env now d, d)"
| "serve ext env now newID (SubmitRequest body header) d = api_submit ext env now newID body header d"
| "serve ext env now newID (ListRequest limit status0 type query cursor) d =
     (api_list env limit status0 type query cursor d, d)"
| "serve ext env now newID (GetRequest i) d = (api_get i d, d)"
| "serve ext env now newID (CancelRequest i) d = api_cancel now i d"
| "serve ext env now newID (RetryRequest i body) d = api_retry ext env now newID i body d"
| "serve ext env now newID (ListDLQRequest limit cursor) d = (api_listDLQ env limit cursor d, d)"
| "serve ext env now newID (ReplayRequest i body) d = api_replayDLQ ext env now newID i body d"

section \<open>Lemmas\<close>

text \<open>What a handler may do to the database: nothing when it answers with an error, otherwise
  one step of the store.\<close>

definition request_step :: "externals \<Rightarrow> sys \<Rightarrow> response \<times> db \<Rightarrow> bool" where
  "request_step ext s r \<longleftrightarrow> snd r = s_db s \<or>
     (rsp_status (fst r) < 400 \<and> sys_step ext s (s\<lparr>s_db := snd r\<rparr>))"

lemma writeAPIError_status [simp]: "rsp_status (writeAPIError code kind message) = code"
  by (simp add: writeAPIError_def)

lemma validateSubmission_attempts:
  "validateSubmission env input = None \<Longrightarrow>
   (if rq_MaxAttempts input = 0 then DefaultMaxAttempts else rq_MaxAttempts input) \<in> {1..20}"
  by (auto simp: validateSubmission_def Let_def split: if_splits)

lemma validateSubmission_type:
  "validateSubmission env input = None \<Longrightarrow> rq_Type input = ''demo'' \<or> rq_Type input = ''dependency_audit''"
  by (rule ccontr) (simp add: validateSubmission_def Let_def split: if_splits)

lemma api_submit_step: "request_step ext s (api_submit ext env now newID body header (s_db s))"
proof (cases "decodeBody (decode_submit env) body")
  case None
  then show ?thesis by (simp add: api_submit_def request_step_def)
next
  case (Some input0)
  define input where "input = (if rq_MaxAttempts input0 = 0 then input0\<lparr>rq_MaxAttempts := DefaultMaxAttempts\<rparr> else input0)"
  define sub where "sub = api_submission env input (trim_space header)"
  have sub: "SubMaxAttempts sub = rq_MaxAttempts input" "SubRootJobID sub = []"
    by (simp_all add: sub_def api_submission_def empty_submission_def)
  show ?thesis
  proof (cases "validateSubmission env input = None \<and> length (trim_space header) \<le> 128 \<and>
      (\<exists>value created d'. Submit ext now newID sub (s_db s) = Inr (value, created, d'))")
    case True
    then obtain "value" created d' where ok: "validateSubmission env input = None" "length (trim_space header) \<le> 128"
      and d': "Submit ext now newID sub (s_db s) = Inr (value, created, d')" by blast
    have "0 \<le> SubMaxAttempts sub"
      using validateSubmission_attempts [OF ok(1)] by (auto simp: sub split: if_splits)
    from sys_step.submit [OF this sub(2) d'] show ?thesis
      using Some ok d' by (simp add: api_submit_def request_step_def Let_def input_def [symmetric] sub_def [symmetric])
  next
    case False
    then show ?thesis
      using Some by (auto simp: api_submit_def request_step_def Let_def input_def [symmetric] sub_def [symmetric]
        split: option.split sum.split store_error.split)
  qed
qed

lemma decode_attempts_range: "decode_attempts env body = Inr n \<Longrightarrow> 0 \<le> n \<and> n \<le> 20"
  by (auto simp: decode_attempts_def split: option.splits if_splits)

lemma api_cancel_step: "request_step ext s (api_cancel now i (s_db s))"
  using sys_step.cancel [of now i s] by (auto simp: api_cancel_def request_step_def split: sum.split)

lemma api_retry_step: "request_step ext s (api_retry ext env now newID i body (s_db s))"
  using sys_step.retry [of _ ext now newID i s] decode_attempts_range [of env body]
  by (auto simp: api_retry_def request_step_def split: sum.split)

lemma api_replayDLQ_step: "request_step ext s (api_replayDLQ ext env now newID i body (s_db s))"
  using sys_step.replay [of _ ext now newID _ s] decode_attempts_range [of env body]
  by (auto simp: api_replayDLQ_def request_step_def split: sum.split option.split)

lemmas request_steps = api_submit_step api_cancel_step api_retry_step api_replayDLQ_step

lemma serve_step: "request_step ext s (serve ext env now newID req (s_db s))"
  by (cases req) (simp_all add: request_steps request_step_def [of ext s "(_, s_db s)"])

end
