(* ===== verification/Http_Properties.thy ===== *)
theory Http_Properties
  imports Http_API
begin

text \<open>
  The properties of the HTTP interface: it drives the store only through operations that keep
  the store's invariants, and a client may repeat a submission safely.
\<close>


definition demo_decode :: "string \<Rightarrow> (submit_request \<times> string) option" where
  "demo_decode b = (if b = ''submit'' then
     Some (\<lparr>rq_Type = ''demo'', rq_Payload = ''{}'', rq_MaxAttempts = 0\<rparr>, []) else None)"

definition demo_api_env :: api_env where
  "demo_api_env = \<lparr>decode_submit = demo_decode,
     decode_retry = (\<lambda>b. None),
     decode_demo = (\<lambda>p. Inr \<lparr>DurationMS = 10, TransientFailures = 1, PermanentFailure = False, DemoResult = []\<rparr>),
     decode_audit = (\<lambda>p. None), url_parse = (\<lambda>u. Inl (PlainError u)), canonical = Some, api_sha = (\<lambda>x. x),
     api_codec = \<lparr>b64_encode = (\<lambda>s. s), b64_decode = Some, time_format = int_text, time_parse = atoi, scan_int = atoi\<rparr>,
     api_ready = True, format_g = (\<lambda>x. ''0'')\<rparr>"

definition demo_request :: api_request where
  "demo_request = SubmitRequest ''submit'' '' key-7 ''"


lemma Submit_created:
  assumes "Submit ext now newID sub d = Inr (j, True, d')" and "SubIdempotencyKey sub \<noteq> []"
  shows "\<exists>r payload. r \<in> set (t_jobs d') \<and> j = scanServiceJob r \<and> r_idempotency_key r = Some (SubIdempotencyKey sub) \<and>
    r_request_hash r = Some (submissionHash ext (default_attempts sub)) \<and> jsonValue ext (SubPayload sub) = Inr payload"
proof -
  let ?row = "\<lambda>payload. submission_row ext now newID payload (default_attempts sub)"
  obtain payload d1 where p: "jsonValue ext (SubPayload sub) = Inr payload"
    and d1: "insert_job (?row payload) d = Inr d1"
    and e: "insert_event now newID ''submitted'' None None NoDetails d1 = Inr d'"
    and j: "j = scanServiceJob (?row payload)"
    using assms(1) by (auto simp: Submit_def Let_def bindE_simps split: option.splits if_splits)
  have "?row payload \<in> set (t_jobs d')"
    using insert_event_frame(1) [OF e] insert_job_frame(1) [OF d1] by simp
  then show ?thesis
    using p j assms(2) by (intro exI [of _ "?row payload"] exI [of _ payload])
      (simp add: submission_row_def nullif_empty_def)
qed

lemma api_submit_accepted:
  assumes "api_submit ext env now newID body header d = (rsp, d')" and "rsp_status rsp = 202"
  obtains input "value" where "rsp_body rsp = JobBody value"
    "Submit ext now newID (api_submission env input (trim_space header)) d = Inr (value, True, d')"
    "validateSubmission env input = None"
    "\<forall>now' newID' d1 v b d2. Submit ext now' newID' (api_submission env input (trim_space header)) d1 = Inr (v, b, d2) \<longrightarrow>
      api_submit ext env now' newID' body header d1 =
        (\<lparr>rsp_status = (if b then 202 else 200), rsp_body = JobBody v\<rparr>, d2)"
proof -
  obtain input0 where dec: "decodeBody (decode_submit env) body = Some input0"
    using assms by (cases "decodeBody (decode_submit env) body") (auto simp: api_submit_def)
  define input where "input = (if rq_MaxAttempts input0 = 0 then input0\<lparr>rq_MaxAttempts := DefaultMaxAttempts\<rparr> else input0)"
  note unf = api_submit_def dec option.case Let_def input_def [symmetric]
  have valid: "validateSubmission env input = None" and len: "\<not> 128 < length (trim_space header)"
    using assms by (auto simp: unf split: option.splits if_splits)
  then obtain v where "Submit ext now newID (api_submission env input (trim_space header)) d = Inr (v, True, d')"
    "rsp_body rsp = JobBody v"
    using assms by (auto simp: unf split: sum.splits store_error.splits if_splits)
  then show ?thesis using that [of v input] valid len by (simp add: unf)
qed

text \<open>A client may repeat a submission: once a request with an idempotency key was accepted
  with 202, sending it again in any later state answers 200 with the same job and changes
  nothing, however far the job has come and whatever else the system did.\<close>

theorem api_submit_idempotent:
  assumes "reachable ext s" and "api_submit ext env now newID body header (s_db s) = (rsp, d1)"
    and "rsp_status rsp = 202" and "trim_space header \<noteq> []"
    and "(sys_step ext)\<^sup>*\<^sup>* (s\<lparr>s_db := d1\<rparr>) t"
  shows "\<exists>first again. rsp_body rsp = JobBody first \<and>
    api_submit ext env later newID2 body header (s_db t) = (\<lparr>rsp_status = 200, rsp_body = JobBody again\<rparr>, s_db t) \<and>
    ID again = ID first \<and> Type again = Type first \<and> MaxAttempts again = MaxAttempts first"
proof -
  from assms(2,3) obtain input first where first: "rsp_body rsp = JobBody first"
    and sub: "Submit ext now newID (api_submission env input (trim_space header)) (s_db s) = Inr (first, True, d1)"
    and valid: "validateSubmission env input = None"
    and again: "\<forall>now' newID' d1 v b d2. Submit ext now' newID' (api_submission env input (trim_space header)) d1 = Inr (v, b, d2) \<longrightarrow>
      api_submit ext env now' newID' body header d1 =
        (\<lparr>rsp_status = (if b then 202 else 200), rsp_body = JobBody v\<rparr>, d2)"
    by (rule api_submit_accepted) (rule that)
  define sb where "sb = api_submission env input (trim_space header)"
  have key: "SubIdempotencyKey sb = trim_space header" "SubRootJobID sb = []" "0 \<le> SubMaxAttempts sb"
    using validateSubmission_attempts [OF valid]
    by (auto simp: sb_def api_submission_def empty_submission_def split: if_splits)
  from Submit_created [OF sub [folded sb_def]] key assms(4) obtain r payload where
    r: "r \<in> set (t_jobs d1)" "first = scanServiceJob r" "r_idempotency_key r = Some (SubIdempotencyKey sb)"
    "r_request_hash r = Some (submissionHash ext (default_attempts sb))"
    and pay: "jsonValue ext (SubPayload sb) = Inr payload" by (metis (no_types))
  have "sys_step ext s (s\<lparr>s_db := d1\<rparr>)"
    using sys_step.submit [OF key(3,2) sub [folded sb_def]] .
  then have "sys_ok (s\<lparr>s_db := d1\<rparr>)" using reachable_ok assms(1) reachable.step by blast
  from steps_row [OF assms(5) this, of r] r(1) obtain r' where
    r': "r' \<in> set (t_jobs (s_db t))" "same_job r r'" "sys_ok t" by auto
  have "r_idempotency_key r' = Some (SubIdempotencyKey sb)"
    "r_request_hash r' = Some (submissionHash ext (default_attempts sb))"
    using r(3,4) r'(2) by (simp_all add: same_job_def)
  from Submit_existing_key [OF r'(3,1) this(1) _ this(2) pay, of later newID2] key(1) assms(4)
  have "Submit ext later newID2 sb (s_db t) = Inr (scanServiceJob r', False, s_db t)" by simp
  from again [rule_format, OF this [unfolded sb_def]] first r(2) r'(2) show ?thesis
    by (auto simp: scanServiceJob_def same_job_def)
qed

definition demo_posted :: "response \<times> db" where
  "demo_posted = api_submit demo_ext demo_api_env 50 ''job-7'' ''submit'' '' key-7 '' (s_db demo_sys3)"

theorem api_submit_idempotent_witness:
  "rsp_status (fst demo_posted) = 202 \<and>
   rsp_status (fst (api_submit demo_ext demo_api_env 90 ''job-8'' ''submit'' '' key-7 '' (snd demo_posted))) = 200"
proof -
  have run: "api_submit demo_ext demo_api_env 50 ''job-7'' ''submit'' '' key-7 '' (s_db demo_sys3) =
      (fst demo_posted, snd demo_posted)" by (simp add: demo_posted_def)
  have code: "rsp_status (fst demo_posted) = 202" by code_simp
  have key: "trim_space '' key-7 '' \<noteq> []" by code_simp
  have "(sys_step demo_ext)\<^sup>*\<^sup>* (demo_sys3\<lparr>s_db := snd demo_posted\<rparr>) (demo_sys3\<lparr>s_db := snd demo_posted\<rparr>)" by simp
  from api_submit_idempotent [OF demo_reachable(2) run code key this, of 90 "''job-8''"] code
  show ?thesis by auto
qed

end
