(* ===== verification/Gomod_Selection.thy ===== *)
theory Gomod_Selection
  imports Job_Store Auditor Go_Sort "HOL-Library.AList"
begin

text \<open>
  Minimal version selection for Go modules (\<^verbatim>\<open>src/internal/gomod/version.go\<close>,
  \<^verbatim>\<open>selection.go\<close>, \<^verbatim>\<open>graph.go\<close>). Go maps are association lists with distinct keys; the sources
  sort before they iterate wherever the order could show. The packages
  \<^verbatim>\<open>golang.org/x/mod/semver\<close> and \<^verbatim>\<open>module\<close> are parameters (\<open>module_env\<close>), and so is the
  fetcher of one round.
\<close>

section \<open>Versions\<close>

record module_env =
  semver_compare :: "string \<Rightarrow> string \<Rightarrow> int"
  semver_valid :: "string \<Rightarrow> bool"
  canonical_version :: "string \<Rightarrow> string"
  is_pseudo_version :: "string \<Rightarrow> bool"
  pseudo_version_time :: "string \<Rightarrow> go_error option"
  pseudo_version_base :: "string \<Rightarrow> go_error option"
  check_path :: "string \<Rightarrow> go_error option"
  module_check :: "string \<Rightarrow> string \<Rightarrow> go_error option"

definition ValidateVersion :: "module_env \<Rightarrow> string \<Rightarrow> go_error option" where
  "ValidateVersion env version =
     (if \<not> semver_valid env version then Some (PlainError (''invalid Go module version '' @ quote version))
      else if canonical_version env version \<noteq> version
      then Some (PlainError (''Go module version '' @ quote version @ '' must be canonical''))
      else if is_pseudo_version env version then
        (case pseudo_version_time env version of
           Some err \<Rightarrow> Some (Wrapped (''invalid Go pseudo-version '' @ quote version) err)
         | None \<Rightarrow> (case pseudo_version_base env version of
             Some err \<Rightarrow> Some (Wrapped (''invalid Go pseudo-version '' @ quote version) err)
           | None \<Rightarrow> None))
      else None)"

definition ValidateCoordinate :: "module_env \<Rightarrow> string \<Rightarrow> string \<Rightarrow> go_error option" where
  "ValidateCoordinate env modulePath version =
     (case ValidateVersion env version of Some err \<Rightarrow> Some err | None \<Rightarrow> module_check env modulePath version)"

definition CompareVersions :: "module_env \<Rightarrow> string \<Rightarrow> string \<Rightarrow> go_error + int" where
  "CompareVersions env left right =
     (case ValidateVersion env left of
        Some err \<Rightarrow> Inl (Wrapped ''left version'' err)
      | None \<Rightarrow> (case ValidateVersion env right of
          Some err \<Rightarrow> Inl (Wrapped ''right version'' err)
        | None \<Rightarrow> Inr (semver_compare env left right)))"

section \<open>Coordinates and metadata\<close>

record coordinate =
  co_path :: string
  co_version :: string

record requirement =
  rm_path :: string
  rm_version :: string
  rm_indirect :: bool

record metadata =
  md_path :: string
  md_go :: string
  md_requirements :: "requirement list"

record selected_edge =
  se_from :: coordinate
  se_to :: coordinate

record selection =
  sl_modules :: "coordinate list"
  sl_edges :: "selected_edge list"

type_synonym cache = "(coordinate \<times> metadata) list"
type_synonym versions = "(string \<times> string) list"

definition target :: "requirement \<Rightarrow> coordinate" where
  "target r = \<lparr>co_path = rm_path r, co_version = rm_version r\<rparr>"

definition compareCoordinates :: "module_env \<Rightarrow> coordinate \<Rightarrow> coordinate \<Rightarrow> int" where
  "compareCoordinates env a b =
     (if co_path a < co_path b then -1
      else if co_path b < co_path a then 1
      else let comparison = semver_compare env (co_version a) (co_version b)
           in if comparison \<noteq> 0 then comparison
              else if co_version a < co_version b then -1
              else if co_version b < co_version a then 1 else 0)"

definition coordinate_before :: "module_env \<Rightarrow> coordinate \<Rightarrow> coordinate \<Rightarrow> bool" where
  "coordinate_before env a b \<longleftrightarrow> compareCoordinates env a b < 0"

definition sortCoordinates :: "module_env \<Rightarrow> coordinate list \<Rightarrow> coordinate list" where
  "sortCoordinates env = sort_by (coordinate_before env)"

definition sortedMetadataCoordinates :: "module_env \<Rightarrow> cache \<Rightarrow> coordinate list" where
  "sortedMetadataCoordinates env c = sortCoordinates env (map fst c)"

section \<open>Load modes\<close>

datatype load_mode = LoadNone | LoadDirect | LoadFull

fun mode_level :: "load_mode \<Rightarrow> nat" where
  "mode_level LoadNone = 0"
| "mode_level LoadDirect = 1"
| "mode_level LoadFull = 2"

type_synonym modes = "(coordinate \<times> load_mode) list"

definition mode_of :: "modes \<Rightarrow> coordinate \<Rightarrow> load_mode" where
  "mode_of ms c = (case map_of ms c of None \<Rightarrow> LoadNone | Some m \<Rightarrow> m)"

definition promoteLoadMode :: "coordinate \<Rightarrow> load_mode \<Rightarrow> modes \<Rightarrow> bool \<times> modes" where
  "promoteLoadMode c m ms =
     (if mode_level m \<le> mode_level (mode_of ms c) then (False, ms) else (True, AList.update c m ms))"

definition pruningEnabled :: "module_env \<Rightarrow> string \<Rightarrow> bool" where
  "pruningEnabled env goVersion =
     (if trim_space goVersion = [] then False else 0 \<le> semver_compare env (''v'' @ goVersion) ''v1.17'')"

definition validateGoDirective :: "module_env \<Rightarrow> string \<Rightarrow> go_error option" where
  "validateGoDirective env goVersion =
     (if trim_space goVersion = [] \<or> \<not> semver_valid env (''v'' @ goVersion)
      then Some (PlainError (''invalid Go version '' @ quote goVersion)) else None)"

text \<open>The body of the inner loop of \<^verbatim>\<open>propagateLoadModes\<close> for one cached coordinate, on the pair
  of the \<open>changed\<close> flag and the modes.\<close>

fun promote_children :: "requirement list \<Rightarrow> bool \<times> modes \<Rightarrow> bool \<times> modes" where
  "promote_children [] s = s"
| "promote_children (r # rs) (changed, ms) =
     (let (up, ms') = promoteLoadMode (target r) LoadFull ms in promote_children rs (changed \<or> up, ms'))"

definition propagate_one :: "module_env \<Rightarrow> cache \<Rightarrow> coordinate \<Rightarrow> bool \<times> modes \<Rightarrow> bool \<times> modes" where
  "propagate_one env c coord s =
     (case map_of c coord of
        None \<Rightarrow> s
      | Some md \<Rightarrow>
          (let mode = mode_of (snd s) coord;
               lift = mode = LoadNone \<and> \<not> pruningEnabled env (md_go md);
               (up, ms) = (if lift then promoteLoadMode coord LoadFull (snd s) else (False, snd s));
               mode' = (if lift then LoadFull else mode);
               changed = (fst s \<or> up)
           in if mode' = LoadNone then (changed, ms)
              else if mode' = LoadFull \<or> \<not> pruningEnabled env (md_go md)
              then promote_children (md_requirements md) (changed, ms)
              else (changed, ms)))"

definition propagate_pass :: "module_env \<Rightarrow> cache \<Rightarrow> modes \<Rightarrow> bool \<times> modes" where
  "propagate_pass env c ms = fold (propagate_one env c) (sortedMetadataCoordinates env c) (False, ms)"

text \<open>The coordinates whose mode a pass may change, and how far they are from \<open>LoadFull\<close>.\<close>

definition mode_universe :: "cache \<Rightarrow> coordinate list" where
  "mode_universe c = remdups (map fst c @ concat (map (\<lambda>(x, md). map target (md_requirements md)) c))"

definition mode_gap :: "cache \<Rightarrow> modes \<Rightarrow> nat" where
  "mode_gap c ms = sum_list (map (\<lambda>x. 2 - mode_level (mode_of ms x)) (mode_universe c))"

lemma mode_of_update: "mode_of (AList.update c m ms) x = (if x = c then m else mode_of ms x)"
  by (simp add: mode_of_def update_conv')

lemma mode_level_le: "mode_level m \<le> 2"
  by (cases m) simp_all

lemma promote_level:
  "promoteLoadMode c m ms = (up, ms') \<Longrightarrow> mode_level (mode_of ms x) \<le> mode_level (mode_of ms' x)"
  by (auto simp: promoteLoadMode_def mode_of_update split: if_splits)

lemma promote_gap:
  assumes "promoteLoadMode c m ms = (up, ms')" and "c \<in> set xs" and "distinct xs"
  shows "sum_list (map (\<lambda>x. 2 - mode_level (mode_of ms' x)) xs) + (if up then 1 else 0)
    \<le> sum_list (map (\<lambda>x. 2 - mode_level (mode_of ms x)) xs)"
proof (cases up)
  case True
  then have up: "mode_level (mode_of ms c) < mode_level m" "ms' = AList.update c m ms"
    using assms(1) by (auto simp: promoteLoadMode_def split: if_splits)
  let ?f = "\<lambda>x. 2 - mode_level (mode_of ms x)" and ?g = "\<lambda>x. 2 - mode_level (mode_of ms' x)"
  have "sum ?g (set xs) < sum ?f (set xs)"
  proof (rule sum_strict_mono_ex1)
    show "\<forall>x\<in>set xs. ?g x \<le> ?f x" using promote_level [OF assms(1)] by (auto intro: diff_le_mono2)
    have "?g c < ?f c" using up mode_level_le [of m] by (simp add: mode_of_update)
    then show "\<exists>x\<in>set xs. ?g x < ?f x" using assms(2) by blast
  qed simp
  then show ?thesis using True assms(3) by (simp add: sum_list_distinct_conv_sum_set)
next
  case False
  then show ?thesis using assms(1) by (auto simp: promoteLoadMode_def split: if_splits)
qed

text \<open>What a piece of the loop guarantees: a raised \<open>changed\<close> flag means a smaller gap, and no
  mode is ever lowered.\<close>

definition mode_progress :: "coordinate list \<Rightarrow> bool \<times> modes \<Rightarrow> bool \<times> modes \<Rightarrow> bool" where
  "mode_progress xs s t \<longleftrightarrow>
     (\<forall>x. mode_level (mode_of (snd s) x) \<le> mode_level (mode_of (snd t) x)) \<and> (fst s \<longrightarrow> fst t) \<and>
     sum_list (map (\<lambda>x. 2 - mode_level (mode_of (snd t) x)) xs) + (if fst t \<and> \<not> fst s then 1 else 0)
       \<le> sum_list (map (\<lambda>x. 2 - mode_level (mode_of (snd s) x)) xs)"

lemma mode_progress_refl [simp]: "mode_progress xs s s"
  by (simp add: mode_progress_def)

lemma mode_progress_trans: "mode_progress xs s t \<Longrightarrow> mode_progress xs t u \<Longrightarrow> mode_progress xs s u"
proof -
  assume st: "mode_progress xs s t" and tu: "mode_progress xs t u"
  have "mode_level (mode_of (snd s) x) \<le> mode_level (mode_of (snd u) x)" for x
    using st tu unfolding mode_progress_def by (meson order_trans)
  moreover have "fst s \<longrightarrow> fst u" using st tu by (simp add: mode_progress_def)
  moreover have comb: "gap u + (if fst u \<and> \<not> fst s then 1 else 0) \<le> gap s"
    if "gap t + (if fst t \<and> \<not> fst s then 1 else 0) \<le> gap s" "gap u + (if fst u \<and> \<not> fst t then 1 else 0) \<le> gap t"
      "fst s \<longrightarrow> fst t" for gap :: "bool \<times> modes \<Rightarrow> nat"
    using that by (cases "fst s"; cases "fst t"; cases "fst u") simp_all
  ultimately show ?thesis
    using st tu comb [of "\<lambda>s. sum_list (map (\<lambda>x. 2 - mode_level (mode_of (snd s) x)) xs)"]
    unfolding mode_progress_def by blast
qed

lemma promote_progress:
  assumes "promoteLoadMode c m ms = (up, ms')" and "c \<in> set xs" and "distinct xs"
  shows "mode_progress xs (changed, ms) (changed \<or> up, ms')"
  using promote_gap [OF assms] promote_level [OF assms(1)] by (auto simp: mode_progress_def split: if_splits)

lemma promote_children_progress:
  assumes "target ` set rs \<subseteq> set xs" and "distinct xs"
  shows "mode_progress xs s (promote_children rs s)"
  using assms(1)
proof (induction rs s rule: promote_children.induct)
  case (2 r rs changed ms)
  obtain up ms' where p: "promoteLoadMode (target r) LoadFull ms = (up, ms')" by fastforce
  have "mode_progress xs (changed, ms) (changed \<or> up, ms')"
    using 2(2) promote_progress [OF p _ assms(2)] by simp
  moreover have "mode_progress xs (changed \<or> up, ms') (promote_children rs (changed \<or> up, ms'))"
    using 2 p by simp
  ultimately have "mode_progress xs (changed, ms) (promote_children rs (changed \<or> up, ms'))"
    by (rule mode_progress_trans)
  then show ?case using p by simp
qed simp

lemma propagate_one_progress: "mode_progress (mode_universe c) s (propagate_one env c coord s)"
proof (cases "map_of c coord")
  case None
  then show ?thesis by (simp add: propagate_one_def)
next
  case (Some md)
  let ?xs = "mode_universe c"
  have in_c: "(coord, md) \<in> set c" using Some by (rule map_of_SomeD)
  then have mem: "coord \<in> set ?xs" "target ` set (md_requirements md) \<subseteq> set ?xs"
    by (force simp: mode_universe_def)+
  have dist: "distinct ?xs" by (simp add: mode_universe_def)
  define lift where "lift \<longleftrightarrow> mode_of (snd s) coord = LoadNone \<and> \<not> pruningEnabled env (md_go md)"
  obtain up ms where p: "(if lift then promoteLoadMode coord LoadFull (snd s) else (False, snd s)) = (up, ms)" by fastforce
  have 1: "mode_progress ?xs s (fst s \<or> up, ms)"
    using p promote_progress [OF _ mem(1) dist, of LoadFull "snd s" up ms "fst s"]
    by (cases s) (auto split: if_splits)
  have 2: "mode_progress ?xs (fst s \<or> up, ms) (promote_children (md_requirements md) (fst s \<or> up, ms))"
    by (rule promote_children_progress [OF mem(2) dist])
  show ?thesis
    using 1 mode_progress_trans [OF 1 2] Some p
    by (simp add: propagate_one_def Let_def lift_def [symmetric] split del: if_split) (simp split: if_split)
qed

lemma propagate_pass_progress: "mode_progress (mode_universe c) (False, ms) (propagate_pass env c ms)"
proof -
  have "mode_progress (mode_universe c) s (fold (propagate_one env c) xs s)" for xs s
  proof (induction xs arbitrary: s)
    case (Cons x xs)
    show ?case using mode_progress_trans [OF propagate_one_progress Cons.IH] by simp
  qed simp
  then show ?thesis by (simp add: propagate_pass_def)
qed

function propagateLoadModes :: "module_env \<Rightarrow> cache \<Rightarrow> modes \<Rightarrow> modes" where
  "propagateLoadModes env c ms =
     (let s = propagate_pass env c ms in if fst s then propagateLoadModes env c (snd s) else snd s)"
  by pat_completeness auto
termination
proof (relation "measure (\<lambda>(env, c, ms). mode_gap c ms)")
  fix env c ms s
  assume "s = propagate_pass env c ms" "fst s"
  then show "((env, c, snd s), env, c, ms) \<in> measure (\<lambda>(env, c, ms). mode_gap c ms)"
    using propagate_pass_progress [of c ms env] by (simp add: mode_progress_def mode_gap_def)
qed simp

declare propagateLoadModes.simps [simp del]

section \<open>Selection\<close>

definition selectHigher :: "module_env \<Rightarrow> requirement \<Rightarrow> versions \<Rightarrow> go_error + versions" where
  "selectHigher env r selected =
     (case map_of selected (rm_path r) of
        None \<Rightarrow> Inr (AList.update (rm_path r) (rm_version r) selected)
      | Some current \<Rightarrow>
          (case CompareVersions env (rm_version r) current of
             Inl err \<Rightarrow> Inl (Wrapped (''MVS compare '' @ rm_path r @ '' versions'') err)
           | Inr comparison \<Rightarrow>
               Inr (if 0 < comparison \<or> (comparison = 0 \<and> current < rm_version r)
                    then AList.update (rm_path r) (rm_version r) selected else selected)))"

definition cached_requirements :: "cache \<Rightarrow> coordinate \<Rightarrow> requirement list" where
  "cached_requirements c x = (case map_of c x of None \<Rightarrow> [] | Some md \<Rightarrow> md_requirements md)"

definition computeSelected :: "module_env \<Rightarrow> requirement list \<Rightarrow> cache \<Rightarrow> modes \<Rightarrow> go_error + versions" where
  "computeSelected env roots c ms =
     bindE (foldE (selectHigher env) roots []) (\<lambda>selected.
       foldE (\<lambda>x selected. if mode_of ms x = LoadNone then Inr selected
                           else foldE (selectHigher env) (cached_requirements c x) selected)
         (sortedMetadataCoordinates env c) selected)"

definition coordinates_of :: "versions \<Rightarrow> coordinate list" where
  "coordinates_of selected = map (\<lambda>(p, v). \<lparr>co_path = p, co_version = v\<rparr>) selected"

definition missingCoordinates :: "module_env \<Rightarrow> versions \<Rightarrow> cache \<Rightarrow> coordinate list" where
  "missingCoordinates env selected c =
     sortCoordinates env (filter (\<lambda>x. map_of c x = None) (coordinates_of selected))"

fun validateRequirements :: "module_env \<Rightarrow> string \<Rightarrow> requirement list \<Rightarrow> go_error option" where
  "validateRequirements env owner [] = None"
| "validateRequirements env owner (r # rs) =
     (case ValidateCoordinate env (rm_path r) (rm_version r) of
        Some err \<Rightarrow> Some (Wrapped (''MVS '' @ owner @ '' requirement '' @ rm_path r @ ''@'' @ rm_version r) err)
      | None \<Rightarrow> validateRequirements env owner rs)"

definition coordinate_text :: "coordinate \<Rightarrow> string" where
  "coordinate_text x = co_path x @ ''@'' @ co_version x"

text \<open>The two loops of \<^verbatim>\<open>addFetchRound\<close>: everything returned was requested and is well-formed, and
  everything requested was returned.\<close>

definition check_fetched :: "module_env \<Rightarrow> coordinate list \<Rightarrow> cache \<Rightarrow> coordinate \<Rightarrow> unit \<Rightarrow> go_error + unit" where
  "check_fetched env requested fetched x u =
     (if x \<notin> set requested
      then Inl (PlainError (''MVS fetch round returned unexpected metadata for '' @ coordinate_text x))
      else case map_of fetched x of
        None \<Rightarrow> Inr ()
      | Some md \<Rightarrow>
          if md_path md \<noteq> co_path x
          then Inl (PlainError (''MVS metadata for '' @ coordinate_text x @ '' declares module '' @ quote (md_path md)))
          else case validateRequirements env (coordinate_text x) (md_requirements md) of
            Some err \<Rightarrow> Inl err | None \<Rightarrow> Inr ())"

definition add_fetched :: "cache \<Rightarrow> coordinate \<Rightarrow> cache \<Rightarrow> go_error + cache" where
  "add_fetched fetched x c =
     (case map_of fetched x of
        None \<Rightarrow> Inl (PlainError (''MVS fetch round did not return metadata for '' @ coordinate_text x))
      | Some md \<Rightarrow> Inr (AList.update x md c))"

definition addFetchRound :: "module_env \<Rightarrow> coordinate list \<Rightarrow> cache \<Rightarrow> cache \<Rightarrow> go_error + cache" where
  "addFetchRound env requested fetched c =
     bindE (foldE (check_fetched env requested fetched) (sortCoordinates env (map fst fetched)) ())
       (\<lambda>_. foldE (add_fetched fetched) requested c)"

definition selected_edges :: "versions \<Rightarrow> coordinate \<Rightarrow> requirement list \<Rightarrow> selected_edge list" where
  "selected_edges selected from rs =
     map (\<lambda>r. \<lparr>se_from = from,
              se_to = \<lparr>co_path = rm_path r,
                       co_version = (case map_of selected (rm_path r) of Some v \<Rightarrow> v | None \<Rightarrow> [])\<rparr>\<rparr>) rs"

definition edge_before :: "module_env \<Rightarrow> (coordinate \<Rightarrow> bool) \<Rightarrow> selected_edge \<Rightarrow> selected_edge \<Rightarrow> bool" where
  "edge_before env from_root a b =
     (if from_root (se_from a) \<noteq> from_root (se_from b) then from_root (se_from a)
      else let comparison = compareCoordinates env (se_from a) (se_from b)
           in if comparison \<noteq> 0 then comparison < 0
              else compareCoordinates env (se_to a) (se_to b) < 0)"

definition buildSelection :: "module_env \<Rightarrow> string \<Rightarrow> requirement list \<Rightarrow> versions \<Rightarrow> cache \<Rightarrow> modes \<Rightarrow> selection" where
  "buildSelection env rootPath roots selected c ms =
     (let modules = sortCoordinates env (coordinates_of selected);
          root = \<lparr>co_path = rootPath, co_version = []\<rparr>;
          edges = selected_edges selected root roots @
            concat (map (\<lambda>x. if mode_of ms x = LoadNone then []
                             else selected_edges selected x (cached_requirements c x)) modules)
      in \<lparr>sl_modules = modules, sl_edges = sort_by (edge_before env (\<lambda>x. x = root)) (remdups edges)\<rparr>)"

text \<open>The rounds of \<^verbatim>\<open>Select\<close> on the cache and the modes, for at most \<open>n\<close> rounds: \<open>None\<close> when the
  rounds do not suffice.\<close>

fun select_rounds :: "nat \<Rightarrow> module_env \<Rightarrow> (coordinate list \<Rightarrow> go_error + cache) option \<Rightarrow> string \<Rightarrow> requirement list
    \<Rightarrow> cache \<Rightarrow> modes \<Rightarrow> (go_error + selection) option" where
  "select_rounds 0 env fetcher rootPath roots c ms0 = None"
| "select_rounds (Suc n) env fetcher rootPath roots c ms0 =
     (let ms = propagateLoadModes env c ms0
      in case computeSelected env roots c ms of
        Inl err \<Rightarrow> Some (Inl err)
      | Inr selected \<Rightarrow>
          (let missing = missingCoordinates env selected c
           in if missing = [] then Some (Inr (buildSelection env rootPath roots selected c ms))
              else case fetcher of
                None \<Rightarrow> Some (Inl (PlainError ''MVS metadata fetcher is required''))
              | Some FetchRound \<Rightarrow>
                  (case FetchRound missing of
                     Inl err \<Rightarrow> Some (Inl (Wrapped ''MVS fetch round'' err))
                   | Inr fetched \<Rightarrow>
                       (case addFetchRound env missing fetched c of
                          Inl err \<Rightarrow> Some (Inl err)
                        | Inr c' \<Rightarrow> select_rounds n env fetcher rootPath roots c' ms))))"

definition root_modes :: "module_env \<Rightarrow> string \<Rightarrow> requirement list \<Rightarrow> modes" where
  "root_modes env rootGo roots =
     (let mode = (if pruningEnabled env rootGo then LoadDirect else LoadFull)
      in fold (\<lambda>r ms. snd (promoteLoadMode (target r) mode ms)) roots [])"

definition Select :: "nat \<Rightarrow> module_env \<Rightarrow> string \<Rightarrow> string \<Rightarrow> requirement list
    \<Rightarrow> (coordinate list \<Rightarrow> go_error + cache) option \<Rightarrow> (go_error + selection) option" where
  "Select n env rootPath rootGo roots fetcher =
     (case check_path env rootPath of
        Some err \<Rightarrow> Some (Inl (Wrapped (''MVS root module '' @ quote rootPath) err))
      | None \<Rightarrow> (case validateGoDirective env rootGo of
          Some err \<Rightarrow> Some (Inl (Wrapped ''MVS root go directive'' err))
        | None \<Rightarrow> (case validateRequirements env ''root'' roots of
            Some err \<Rightarrow> Some (Inl err)
          | None \<Rightarrow> select_rounds n env fetcher rootPath roots [] (root_modes env rootGo roots))))"

section \<open>Mapping into the audit stores\<close>

definition UnknownLicense :: string where
  "UnknownLicense = ''UNKNOWN''"

definition MapSelection :: "module_env \<Rightarrow> selection \<Rightarrow> audit_state \<Rightarrow> audit_state" where
  "MapSelection env sel st =
     (let packages = fold (\<lambda>x ps. snd (PackageStore_Add
            \<lparr>pk_name = co_path x, pk_version = co_version x, pk_license = UnknownLicense,
             pk_verdict = Check \<lparr>m_name = co_path x, m_version = co_version x, m_license = UnknownLicense,
                                m_dependencies = []\<rparr>\<rparr> ps))
          (sortCoordinates env (sl_modules sel)) (a_packages st);
          edges = sort_by (edge_before env (\<lambda>x. co_version x = [])) (remdups (sl_edges sel))
      in \<lparr>a_packages = packages,
          a_edges = fold (\<lambda>e. EdgeStore_Add \<lparr>FromName = co_path (se_from e), FromVersion = co_version (se_from e),
                        ToName = co_path (se_to e), ToVersion = co_version (se_to e)\<rparr>) edges (a_edges st)\<rparr>)"

end
