(* ===== verification/Gomod_Properties.thy ===== *)
theory Gomod_Properties
  imports Gomod_Selection
begin

text \<open>
  The properties of module selection: the selected versions are the greatest required ones
  (minimal version selection), the loop over fetch rounds ends, and the outcome is sorted and
  does not depend on the order of the maps.
\<close>

section \<open>The order of versions\<close>

text \<open>What the sources rely on of \<^verbatim>\<open>semver.Compare\<close>: the sign of a total preorder.\<close>

definition semver_order :: "module_env \<Rightarrow> bool" where
  "semver_order env \<longleftrightarrow>
     (\<forall>a b. semver_compare env a b = - semver_compare env b a) \<and>
     (\<forall>a b c. semver_compare env a b \<le> 0 \<longrightarrow> semver_compare env b c \<le> 0 \<longrightarrow> semver_compare env a c \<le> 0)"

definition version_le :: "module_env \<Rightarrow> string \<Rightarrow> string \<Rightarrow> bool" where
  "version_le env a b \<longleftrightarrow> semver_compare env a b < 0 \<or> (semver_compare env a b = 0 \<and> a \<le> b)"

lemma semver_neg: "semver_order env \<Longrightarrow> semver_compare env a b = - semver_compare env b a"
  unfolding semver_order_def by blast

lemma semver_trans:
  "semver_order env \<Longrightarrow> semver_compare env a b \<le> 0 \<Longrightarrow> semver_compare env b c \<le> 0 \<Longrightarrow> semver_compare env a c \<le> 0"
  unfolding semver_order_def by blast

lemma semver_self [simp]: "semver_order env \<Longrightarrow> semver_compare env a a = 0"
  using semver_neg [of env a a] by simp

lemma semver_strict_trans:
  assumes "semver_order env" and "semver_compare env a b < 0" and "semver_compare env b c \<le> 0"
  shows "semver_compare env a c < 0"
proof (rule ccontr)
  assume "\<not> semver_compare env a c < 0"
  then have "semver_compare env c a \<le> 0" using semver_neg [OF assms(1), of a c] by simp
  from semver_trans [OF assms(1,3) this] semver_neg [OF assms(1), of a b] assms(2) show False by simp
qed

lemma semver_strict_trans':
  assumes "semver_order env" and "semver_compare env a b \<le> 0" and "semver_compare env b c < 0"
  shows "semver_compare env a c < 0"
proof (rule ccontr)
  assume "\<not> semver_compare env a c < 0"
  then have "semver_compare env c a \<le> 0" using semver_neg [OF assms(1), of a c] by simp
  from semver_trans [OF assms(1) this assms(2)] semver_neg [OF assms(1), of b c] assms(3) show False by simp
qed

lemma semver_zero_trans:
  assumes "semver_order env" and "semver_compare env a b = 0" and "semver_compare env b c = 0"
  shows "semver_compare env a c = 0"
  using semver_trans [OF assms(1), of a b c] semver_trans [OF assms(1), of c b a]
    semver_neg [OF assms(1), of a b] semver_neg [OF assms(1), of b c] semver_neg [OF assms(1), of a c] assms(2,3) by simp

lemma version_le_refl: "semver_order env \<Longrightarrow> version_le env a a"
  by (simp add: version_le_def)

lemma version_le_trans:
  assumes o: "semver_order env" and ab: "version_le env a b" and bc: "version_le env b c"
  shows "version_le env a c"
proof (cases "semver_compare env a b < 0 \<or> semver_compare env b c < 0")
  case True
  then have "semver_compare env a c < 0"
    using ab bc semver_strict_trans [OF o, of a b c] semver_strict_trans' [OF o, of a b c]
    by (auto simp: version_le_def)
  then show ?thesis by (simp add: version_le_def)
next
  case False
  then show ?thesis using ab bc semver_zero_trans [OF o, of a b c] by (auto simp: version_le_def)
qed

lemma version_le_total: "semver_order env \<Longrightarrow> version_le env a b \<or> version_le env b a"
  using semver_neg [of env a b] by (auto simp: version_le_def)

lemma version_le_antisym: "semver_order env \<Longrightarrow> version_le env a b \<Longrightarrow> version_le env b a \<Longrightarrow> a = b"
  using semver_neg [of env a b] by (auto simp: version_le_def)

lemma coordinate_before_iff:
  assumes "semver_order env"
  shows "coordinate_before env a b \<longleftrightarrow> co_path a < co_path b \<or>
    (co_path a = co_path b \<and> version_le env (co_version a) (co_version b) \<and> co_version a \<noteq> co_version b)"
  using assms by (auto simp: coordinate_before_def compareCoordinates_def version_le_def Let_def)

lemma coordinate_order:
  assumes o: "semver_order env"
  shows "slice_order (coordinate_before env) (\<lambda>x. (co_path x, co_version x))"
proof
  fix x y z
  show "\<not> coordinate_before env x x" by (simp add: coordinate_before_iff [OF o])
  show "coordinate_before env x y \<or> coordinate_before env y x \<or> (co_path x, co_version x) = (co_path y, co_version y)"
    using version_le_total [OF o, of "co_version x" "co_version y"] less_linear [of "co_path x" "co_path y"]
    unfolding coordinate_before_iff [OF o] by metis
  show "(co_path x, co_version x) = (co_path y, co_version y) \<Longrightarrow> \<not> coordinate_before env x y"
    by (simp add: coordinate_before_iff [OF o])
  assume xy: "coordinate_before env x y" and yz: "coordinate_before env y z"
  have "co_path x \<le> co_path y" "co_path y \<le> co_path z"
    using xy yz by (auto simp: coordinate_before_iff [OF o])
  then consider "co_path x < co_path z" | "co_path x = co_path y" "co_path y = co_path z" by fastforce
  then show "coordinate_before env x z"
  proof cases
    case 2
    then have "version_le env (co_version x) (co_version y)" "co_version x \<noteq> co_version y"
      "version_le env (co_version y) (co_version z)"
      using xy yz by (auto simp: coordinate_before_iff [OF o])
    then show ?thesis
      using 2 version_le_trans [OF o] version_le_antisym [OF o] unfolding coordinate_before_iff [OF o] by metis
  qed (simp add: coordinate_before_iff [OF o])
qed

lemma sorted_coordinates:
  assumes o: "semver_order env" and "distinct (map co_path xs)"
  shows "sorted_wrt (coordinate_before env) (sortCoordinates env xs)"
proof -
  have s: "sorted_wrt (\<lambda>a b. \<not> coordinate_before env b a) (sort_by (coordinate_before env) xs)"
    using coordinate_order [OF o] by (rule slice_order.sorted)
  have "distinct (map co_path (sort_by (coordinate_before env) xs))"
    using assms(2) by (metis mset_map mset_sort_by mset_eq_imp_distinct_iff)
  then have "sorted_wrt (\<lambda>a b. co_path a \<noteq> co_path b) (sort_by (coordinate_before env) xs)"
    by (simp add: sorted_wrt_iff_nth_less nth_eq_iff_index_eq distinct_conv_nth)
  with s have "sorted_wrt (\<lambda>a b. \<not> coordinate_before env b a \<and> co_path a \<noteq> co_path b) (sort_by (coordinate_before env) xs)"
    by (simp add: sorted_wrt_iff_nth_less)
  then show ?thesis
    unfolding sortCoordinates_def by (rule sorted_wrt_mono_rel [rotated]) (auto simp: coordinate_before_iff [OF o])
qed

section \<open>Greatest required versions\<close>

definition is_greatest :: "module_env \<Rightarrow> requirement set \<Rightarrow> string \<Rightarrow> string \<Rightarrow> bool" where
  "is_greatest env S p v \<longleftrightarrow> (\<exists>r\<in>S. rm_path r = p \<and> rm_version r = v) \<and>
     (\<forall>r\<in>S. rm_path r = p \<longrightarrow> version_le env (rm_version r) v)"

definition selects_greatest :: "module_env \<Rightarrow> requirement set \<Rightarrow> versions \<Rightarrow> bool" where
  "selects_greatest env S selected \<longleftrightarrow> distinct (map fst selected) \<and>
     (\<forall>p v. map_of selected p = Some v \<longleftrightarrow> is_greatest env S p v) \<and>
     (\<forall>r\<in>S. map_of selected (rm_path r) \<noteq> None)"

lemma is_greatest_insert_le:
  assumes o: "semver_order env" and cur: "is_greatest env S (rm_path r) current"
    and le: "version_le env (rm_version r) current"
  shows "is_greatest env (insert r S) p v = is_greatest env S p v"
proof (cases "p = rm_path r")
  case True
  have "is_greatest env (insert r S) (rm_path r) v \<longleftrightarrow> v = current"
    using cur le version_le_antisym [OF o] unfolding is_greatest_def by (metis insert_iff)
  moreover have "is_greatest env S (rm_path r) v \<longleftrightarrow> v = current"
    using cur version_le_antisym [OF o] unfolding is_greatest_def by metis
  ultimately show ?thesis using True by simp
qed (auto simp: is_greatest_def)

lemma is_greatest_insert_gt:
  assumes o: "semver_order env" and cur: "is_greatest env S (rm_path r) current"
    and gt: "\<not> version_le env (rm_version r) current"
  shows "is_greatest env (insert r S) p v = (if p = rm_path r then v = rm_version r else is_greatest env S p v)"
proof (cases "p = rm_path r")
  case True
  have "version_le env current (rm_version r)" using gt version_le_total [OF o] by blast
  then have "\<forall>r'\<in>S. rm_path r' = rm_path r \<longrightarrow> version_le env (rm_version r') (rm_version r)"
    using cur version_le_trans [OF o] unfolding is_greatest_def by blast
  then have "is_greatest env (insert r S) (rm_path r) v \<longleftrightarrow> v = rm_version r"
    using version_le_antisym [OF o] version_le_refl [OF o] unfolding is_greatest_def by (metis insert_iff)
  then show ?thesis using True by simp
qed (auto simp: is_greatest_def)

lemma selectHigher_greatest:
  assumes o: "semver_order env" and sel: "selectHigher env r selected = Inr selected'"
    and inv: "selects_greatest env S selected"
  shows "selects_greatest env (insert r S) selected'"
proof (cases "map_of selected (rm_path r)")
  case None
  then have s': "selected' = AList.update (rm_path r) (rm_version r) selected"
    using sel by (simp add: selectHigher_def)
  have "rm_path r' \<noteq> rm_path r" if "r' \<in> S" for r' using inv that None by (auto simp: selects_greatest_def)
  then show ?thesis
    using inv None version_le_refl [OF o] unfolding selects_greatest_def s' is_greatest_def
    by (auto simp: update_conv' distinct_update)
next
  case (Some current)
  then have cur: "is_greatest env S (rm_path r) current" using inv by (simp add: selects_greatest_def)
  obtain comparison where cmp: "CompareVersions env (rm_version r) current = Inr comparison"
    using sel Some by (cases "CompareVersions env (rm_version r) current") (simp_all add: selectHigher_def)
  then have "comparison = semver_compare env (rm_version r) current"
    by (auto simp: CompareVersions_def split: option.splits)
  then have up: "(0 < comparison \<or> (comparison = 0 \<and> current < rm_version r)) \<longleftrightarrow> \<not> version_le env (rm_version r) current"
    by (auto simp: version_le_def)
  show ?thesis
  proof (cases "version_le env (rm_version r) current")
    case True
    then have "selected' = selected" using sel Some cmp up by (simp add: selectHigher_def)
    moreover have "is_greatest env (insert r S) p v = is_greatest env S p v" for p v
      by (rule is_greatest_insert_le [OF o cur True])
    ultimately show ?thesis using inv Some by (auto simp: selects_greatest_def)
  next
    case False
    then have s': "selected' = AList.update (rm_path r) (rm_version r) selected"
      using sel Some cmp up by (simp add: selectHigher_def)
    note new = is_greatest_insert_gt [OF o cur False]
    show ?thesis
      unfolding selects_greatest_def s'
    proof (intro conjI allI ballI)
      show "distinct (map fst (AList.update (rm_path r) (rm_version r) selected))"
        using inv by (simp add: selects_greatest_def distinct_update)
      show "map_of (AList.update (rm_path r) (rm_version r) selected) p = Some v \<longleftrightarrow> is_greatest env (insert r S) p v" for p v
        using inv unfolding selects_greatest_def new by (auto simp: update_conv')
      show "map_of (AList.update (rm_path r) (rm_version r) selected) (rm_path r') \<noteq> None" if "r' \<in> insert r S" for r'
        using inv that by (auto simp: selects_greatest_def update_conv')
    qed
  qed
qed

lemma fold_greatest:
  assumes "semver_order env" and "foldE (selectHigher env) rs selected = Inr selected'"
    and "selects_greatest env S selected"
  shows "selects_greatest env (S \<union> set rs) selected'"
  using assms(2,3)
proof (induction rs arbitrary: selected S)
  case (Cons r rs)
  then obtain s1 where "selectHigher env r selected = Inr s1" "foldE (selectHigher env) rs s1 = Inr selected'"
    by (auto simp: bindE_simps)
  with Cons.IH [of s1 "insert r S"] selectHigher_greatest [OF assms(1)] Cons.prems(2) show ?case by simp
qed simp

text \<open>The requirements that count: those of the root and of every loaded module version.\<close>

definition active :: "requirement list \<Rightarrow> cache \<Rightarrow> modes \<Rightarrow> requirement set" where
  "active roots c ms = set roots \<union> \<Union> (set ` cached_requirements c ` {x \<in> set (map fst c). mode_of ms x \<noteq> LoadNone})"

lemma computeSelected_greatest:
  assumes o: "semver_order env" and "computeSelected env roots c ms = Inr selected"
  shows "selects_greatest env (active roots c ms) selected"
proof -
  from assms(2) obtain s0 where s0: "foldE (selectHigher env) roots [] = Inr s0"
    and fold: "foldE (\<lambda>x selected. if mode_of ms x = LoadNone then Inr selected
         else foldE (selectHigher env) (cached_requirements c x) selected) (sortedMetadataCoordinates env c) s0 = Inr selected"
    by (auto simp: computeSelected_def bindE_simps)
  have "selects_greatest env {} []" by (simp add: selects_greatest_def is_greatest_def)
  from fold_greatest [OF o s0 this] have "selects_greatest env (set roots) s0" by simp
  moreover have step: "selects_greatest env (S \<union> \<Union> (set ` cached_requirements c ` {x \<in> set xs. mode_of ms x \<noteq> LoadNone})) t"
    if "foldE (\<lambda>x selected. if mode_of ms x = LoadNone then Inr selected
         else foldE (selectHigher env) (cached_requirements c x) selected) xs s = Inr t" "selects_greatest env S s" for xs s t S
    using that
  proof (induction xs arbitrary: s S)
    case (Cons x xs)
    let ?U = "\<Union> (set ` cached_requirements c ` {x \<in> set xs. mode_of ms x \<noteq> LoadNone})"
    show ?case
    proof (cases "mode_of ms x = LoadNone")
      case True
      then have "{y \<in> set (x # xs). mode_of ms y \<noteq> LoadNone} = {y \<in> set xs. mode_of ms y \<noteq> LoadNone}" by auto
      then show ?thesis using Cons True by simp
    next
      case False
      with Cons.prems(1) obtain s1 where s1: "foldE (selectHigher env) (cached_requirements c x) s = Inr s1"
        and rest: "foldE (\<lambda>x selected. if mode_of ms x = LoadNone then Inr selected
         else foldE (selectHigher env) (cached_requirements c x) selected) xs s1 = Inr t"
        by (auto simp: bindE_simps)
      have "{y \<in> set (x # xs). mode_of ms y \<noteq> LoadNone} = insert x {y \<in> set xs. mode_of ms y \<noteq> LoadNone}"
        using False by auto
      then show ?thesis
        using Cons.IH [OF rest fold_greatest [OF o s1 Cons.prems(2)]] by (simp add: Un_assoc)
    qed
  qed simp
  ultimately show ?thesis
    using step [OF fold] by (simp add: active_def sortedMetadataCoordinates_def sortCoordinates_def)
qed

section \<open>Rounds\<close>

lemma missing_empty: "missingCoordinates env selected c = [] \<longleftrightarrow> set (coordinates_of selected) \<subseteq> dom (map_of c)"
proof -
  have "missingCoordinates env selected c = [] \<longleftrightarrow> filter (\<lambda>x. map_of c x = None) (coordinates_of selected) = []"
    unfolding missingCoordinates_def sortCoordinates_def by (metis length_0_conv length_sort_by)
  then show ?thesis by (auto simp: filter_empty_conv)
qed

lemma addFetchRound_cache:
  assumes "addFetchRound env requested fetched c = Inr c'"
  shows "\<forall>x. map_of c' x = (if x \<in> set requested then map_of fetched x else map_of c x)"
    and "\<forall>x\<in>set requested. map_of fetched x \<noteq> None" and "distinct (map fst c) \<Longrightarrow> distinct (map fst c')"
proof -
  have "foldE (add_fetched fetched) requested c = Inr c'"
    using assms by (auto simp: addFetchRound_def bindE_simps)
  then have "(\<forall>x. map_of c' x = (if x \<in> set requested then map_of fetched x else map_of c x)) \<and>
      (\<forall>x\<in>set requested. map_of fetched x \<noteq> None) \<and> (distinct (map fst c) \<longrightarrow> distinct (map fst c'))"
  proof (induction requested arbitrary: c)
    case (Cons x xs)
    from Cons.prems obtain c1 where c1: "add_fetched fetched x c = Inr c1" "foldE (add_fetched fetched) xs c1 = Inr c'"
      by (auto simp: bindE_simps)
    then obtain md where md: "map_of fetched x = Some md" "foldE (add_fetched fetched) xs (AList.update x md c) = Inr c'"
      by (cases "map_of fetched x") (auto simp: add_fetched_def)
    with Cons.IH [OF md(2)] show ?case by (auto simp: update_conv' distinct_update)
  qed simp
  then show "\<forall>x. map_of c' x = (if x \<in> set requested then map_of fetched x else map_of c x)"
    and "\<forall>x\<in>set requested. map_of fetched x \<noteq> None" and "distinct (map fst c) \<Longrightarrow> distinct (map fst c')" by blast+
qed

text \<open>A fetcher is consistent when it always returns the same metadata for a coordinate.\<close>

definition fetches :: "(coordinate \<Rightarrow> metadata) \<Rightarrow> (coordinate list \<Rightarrow> go_error + cache) option \<Rightarrow> bool" where
  "fetches meta fetcher \<longleftrightarrow> (\<forall>f cs y x md. fetcher = Some f \<longrightarrow> f cs = Inr y \<longrightarrow> (x, md) \<in> set y \<longrightarrow> md = meta x)"

definition cache_of :: "(coordinate \<Rightarrow> metadata) \<Rightarrow> cache \<Rightarrow> bool" where
  "cache_of meta c \<longleftrightarrow> distinct (map fst c) \<and> (\<forall>x md. map_of c x = Some md \<longrightarrow> md = meta x)"

text \<open>The pruning rules have nothing left to add.\<close>

definition modes_closed :: "module_env \<Rightarrow> cache \<Rightarrow> modes \<Rightarrow> bool" where
  "modes_closed env c ms \<longleftrightarrow> (\<forall>x md. map_of c x = Some md \<longrightarrow>
     (\<not> pruningEnabled env (md_go md) \<longrightarrow> mode_of ms x \<noteq> LoadNone) \<and>
     (mode_of ms x = LoadFull \<or> \<not> pruningEnabled env (md_go md) \<longrightarrow>
        (\<forall>r\<in>set (md_requirements md). mode_of ms (target r) = LoadFull)))"

lemma promote_children_quiet:
  "\<not> fst (promote_children rs s) \<Longrightarrow> promote_children rs s = s \<and> (\<forall>r\<in>set rs. mode_of (snd s) (target r) = LoadFull)"
proof (induction rs s rule: promote_children.induct)
  case (2 r rs changed ms)
  obtain up ms' where p: "promoteLoadMode (target r) LoadFull ms = (up, ms')" by fastforce
  with 2 have IH: "promote_children rs (changed \<or> up, ms') = (changed \<or> up, ms')"
    "\<forall>r\<in>set rs. mode_of ms' (target r) = LoadFull" by auto
  with 2(2) p have "\<not> up" "\<not> changed" by auto
  then have "ms' = ms" "mode_of ms (target r) = LoadFull"
    using p by (cases "mode_of ms (target r)"; auto simp: promoteLoadMode_def split: if_splits)+
  with IH p \<open>\<not> up\<close> show ?case by simp
qed simp

lemma propagate_one_flag: "fst s \<Longrightarrow> fst (propagate_one env c x s)"
  using propagate_one_progress [of c s env x] by (simp add: mode_progress_def)

lemma propagate_fold_flag: "fst s \<Longrightarrow> fst (fold (propagate_one env c) xs s)"
proof (induction xs arbitrary: s)
  case (Cons x xs)
  from Cons.IH [OF propagate_one_flag [OF Cons.prems]] show ?case by simp
qed simp

lemma propagate_one_quiet:
  assumes "\<not> fst (propagate_one env c x s)" and "map_of c x = Some md"
  shows "propagate_one env c x s = s" and "\<not> pruningEnabled env (md_go md) \<Longrightarrow> mode_of (snd s) x \<noteq> LoadNone"
    and "mode_of (snd s) x = LoadFull \<or> \<not> pruningEnabled env (md_go md) \<Longrightarrow>
      \<forall>r\<in>set (md_requirements md). mode_of (snd s) (target r) = LoadFull"
proof -
  have lift: "\<not> (mode_of (snd s) x = LoadNone \<and> \<not> pruningEnabled env (md_go md))"
  proof
    assume a: "mode_of (snd s) x = LoadNone \<and> \<not> pruningEnabled env (md_go md)"
    then have "promoteLoadMode x LoadFull (snd s) = (True, AList.update x LoadFull (snd s))"
      by (simp add: promoteLoadMode_def)
    moreover have "fst (promote_children rs (True, ms))" for rs ms
      using promote_children_progress [of rs "remdups (map target rs)" "(True, ms)"] by (simp add: mode_progress_def)
    ultimately show False using assms a by (simp add: propagate_one_def Let_def)
  qed
  then show "\<not> pruningEnabled env (md_go md) \<Longrightarrow> mode_of (snd s) x \<noteq> LoadNone" by blast
  have s: "(fst s, snd s) = s" by simp
  have one: "propagate_one env c x s =
      (if mode_of (snd s) x \<noteq> LoadNone \<and> (mode_of (snd s) x = LoadFull \<or> \<not> pruningEnabled env (md_go md))
       then promote_children (md_requirements md) s else s)"
    using lift assms(2) by (auto simp: propagate_one_def Let_def)
  show "propagate_one env c x s = s"
    using assms(1) promote_children_quiet [of "md_requirements md" s] unfolding one by (auto split: if_splits)
  show "mode_of (snd s) x = LoadFull \<or> \<not> pruningEnabled env (md_go md) \<Longrightarrow>
      \<forall>r\<in>set (md_requirements md). mode_of (snd s) (target r) = LoadFull"
    using lift assms(1) promote_children_quiet [of "md_requirements md" s] unfolding one by (auto split: if_splits)
qed

lemma propagate_pass_quiet:
  assumes "\<not> fst (propagate_pass env c ms)"
  shows "snd (propagate_pass env c ms) = ms \<and> modes_closed env c ms"
proof -
  have "fold (propagate_one env c) xs s = s \<and> (\<forall>x\<in>set xs. \<not> fst (propagate_one env c x s))"
    if "\<not> fst (fold (propagate_one env c) xs s)" "set xs \<subseteq> dom (map_of c)" for xs s
    using that
  proof (induction xs arbitrary: s)
    case (Cons x xs)
    then obtain md where md: "map_of c x = Some md" by auto
    have quiet: "\<not> fst (propagate_one env c x s)"
      using Cons.prems(1) propagate_fold_flag [of "propagate_one env c x s" env c xs] by simp blast
    note same = propagate_one_quiet(1) [OF quiet md]
    with Cons quiet show ?case by simp
  qed simp
  from this [of "sortedMetadataCoordinates env c" "(False, ms)"] assms
  have q: "propagate_pass env c ms = (False, ms)" "\<forall>x\<in>fst ` set c. \<not> fst (propagate_one env c x (False, ms))"
    by (auto simp: propagate_pass_def sortedMetadataCoordinates_def sortCoordinates_def dom_map_of_conv_image_fst)
  have "modes_closed env c ms"
    unfolding modes_closed_def
  proof (intro allI impI)
    fix x md assume md: "map_of c x = Some md"
    then have "\<not> fst (propagate_one env c x (False, ms))" using q(2) map_of_SomeD by force
    from propagate_one_quiet(2,3) [OF this md]
    show "(\<not> pruningEnabled env (md_go md) \<longrightarrow> mode_of ms x \<noteq> LoadNone) \<and>
      (mode_of ms x = LoadFull \<or> \<not> pruningEnabled env (md_go md) \<longrightarrow>
        (\<forall>r\<in>set (md_requirements md). mode_of ms (target r) = LoadFull))" by simp
  qed
  with q(1) show ?thesis by simp
qed

lemma propagateLoadModes_closed: "modes_closed env c (propagateLoadModes env c ms)"
proof (induction env c ms rule: propagateLoadModes.induct)
  case (1 env c ms)
  show ?case
  proof (cases "fst (propagate_pass env c ms)")
    case True
    then show ?thesis using 1 by (subst propagateLoadModes.simps) simp
  next
    case False
    then show ?thesis
      using propagate_pass_quiet [OF False] by (subst propagateLoadModes.simps) (simp add: Let_def)
  qed
qed

lemma propagateLoadModes_mono: "mode_level (mode_of ms x) \<le> mode_level (mode_of (propagateLoadModes env c ms) x)"
proof (induction env c ms rule: propagateLoadModes.induct)
  case (1 env c ms)
  have "mode_level (mode_of ms x) \<le> mode_level (mode_of (snd (propagate_pass env c ms)) x)"
    using propagate_pass_progress [of c ms env] by (simp add: mode_progress_def)
  then show ?case using 1 by (subst propagateLoadModes.simps) (auto simp: Let_def intro: order_trans)
qed

lemma root_modes_loaded:
  assumes "r \<in> set roots"
  shows "mode_level (if pruningEnabled env rootGo then LoadDirect else LoadFull) \<le> mode_level (mode_of (root_modes env rootGo roots) (target r))"
proof -
  define m where "m = (if pruningEnabled env rootGo then LoadDirect else LoadFull)"
  let ?f = "\<lambda>r ms. snd (promoteLoadMode (target r) m ms)"
  have mono: "mode_level (mode_of ms x) \<le> mode_level (mode_of (?f r ms) x)" for ms x r
    using promote_level [of "target r" m ms _ "?f r ms" x] by (metis prod.collapse)
  have fold_mono: "mode_level (mode_of ms x) \<le> mode_level (mode_of (fold ?f rs ms) x)" for rs ms x
    by (induction rs arbitrary: ms) (auto intro: order_trans [OF mono])
  have "mode_level m \<le> mode_level (mode_of (?f r ms) (target r))" for ms
    by (auto simp: promoteLoadMode_def mode_of_update)
  then have "mode_level m \<le> mode_level (mode_of (fold ?f rs ms) (target r))" if "r \<in> set rs" for rs ms
    using that by (induction rs arbitrary: ms) (auto intro: order_trans [OF _ fold_mono])
  with assms show ?thesis by (simp add: root_modes_def m_def [symmetric])
qed

lemma cache_of_round:
  assumes "fetches meta (Some f)" and "f requested = Inr fetched" and "addFetchRound env requested fetched c = Inr c'"
    and "cache_of meta c"
  shows "cache_of meta c'"
  unfolding cache_of_def
proof (intro conjI allI impI)
  show "distinct (map fst c')" using addFetchRound_cache(3) [OF assms(3)] assms(4) by (simp add: cache_of_def)
  fix x md assume md: "map_of c' x = Some md"
  then have "map_of fetched x = Some md \<or> map_of c x = Some md"
    using addFetchRound_cache(1) [OF assms(3)] by (auto split: if_splits)
  then show "md = meta x"
    using assms(1,2,4) map_of_SomeD [of fetched x md] unfolding fetches_def cache_of_def by blast
qed

lemma select_rounds_fixpoint:
  assumes "fetches meta fetcher" and "cache_of meta c"
    and "select_rounds n env fetcher rootPath roots c ms0 = Some (Inr sel)"
  shows "\<exists>c' ms selected. cache_of meta c' \<and> modes_closed env c' ms \<and>
    (\<forall>x. mode_level (mode_of ms0 x) \<le> mode_level (mode_of ms x)) \<and>
    computeSelected env roots c' ms = Inr selected \<and> missingCoordinates env selected c' = [] \<and>
    sel = buildSelection env rootPath roots selected c' ms"
  using assms(2,3)
proof (induction n arbitrary: c ms0)
  case (Suc n)
  define ms where "ms = propagateLoadModes env c ms0"
  have closed: "modes_closed env c ms" "\<forall>x. mode_level (mode_of ms0 x) \<le> mode_level (mode_of ms x)"
    using propagateLoadModes_closed propagateLoadModes_mono by (auto simp: ms_def)
  obtain selected where sel: "computeSelected env roots c ms = Inr selected"
    using Suc.prems(2) by (cases "computeSelected env roots c ms") (simp_all add: ms_def [symmetric])
  show ?case
  proof (cases "missingCoordinates env selected c = []")
    case True
    then have "sel = buildSelection env rootPath roots selected c ms"
      using Suc.prems(2) sel by (simp add: ms_def [symmetric])
    then show ?thesis using Suc.prems(1) closed sel True by blast
  next
    case False
    then obtain f fetched c' where "fetcher = Some f" "f (missingCoordinates env selected c) = Inr fetched"
      "addFetchRound env (missingCoordinates env selected c) fetched c = Inr c'"
      and rest: "select_rounds n env fetcher rootPath roots c' ms = Some (Inr sel)"
      using Suc.prems(2) sel by (auto simp: ms_def [symmetric] Let_def split: option.splits sum.splits)
    then have "cache_of meta c'" using cache_of_round assms(1) Suc.prems(1) by blast
    from Suc.IH [OF this rest] obtain c2 ms2 selected2 where fin: "cache_of meta c2" "modes_closed env c2 ms2"
      "\<forall>x. mode_level (mode_of ms x) \<le> mode_level (mode_of ms2 x)" "computeSelected env roots c2 ms2 = Inr selected2"
      "missingCoordinates env selected2 c2 = []" "sel = buildSelection env rootPath roots selected2 c2 ms2" by blast
    have "\<forall>x. mode_level (mode_of ms0 x) \<le> mode_level (mode_of ms2 x)"
      using closed(2) fin(3) order_trans by blast
    with fin show ?thesis by blast
  qed
qed simp

section \<open>Properties\<close>

text \<open>C28: \<^verbatim>\<open>Select\<close> computes the minimal version selection: there is a set of loaded module
  versions, with the metadata the proxy gives for them, closed under the pruning rules and
  containing the root's requirements, such that the build list holds exactly the greatest
  version that the root or a loaded module version requires of each module, every one of them
  with its metadata loaded, in strictly ascending order.\<close>

theorem Select_is_minimal_version_selection:
  assumes "semver_order env" and "fetches meta fetcher"
    and "Select n env rootPath rootGo roots fetcher = Some (Inr sel)"
  shows "\<exists>c ms. cache_of meta c \<and> modes_closed env c ms \<and>
    list_all (\<lambda>r. mode_of ms (target r) \<noteq> LoadNone) roots \<and>
    (\<forall>x. x \<in> set (sl_modules sel) \<longleftrightarrow> is_greatest env (active roots c ms) (co_path x) (co_version x)) \<and>
    set (sl_modules sel) \<subseteq> dom (map_of c) \<and> sorted_wrt (coordinate_before env) (sl_modules sel)"
proof -
  have "select_rounds n env fetcher rootPath roots [] (root_modes env rootGo roots) = Some (Inr sel)"
    using assms(3) by (auto simp: Select_def split: option.splits)
  from select_rounds_fixpoint [OF assms(2) _ this] obtain c ms selected where
    c: "cache_of meta c" "modes_closed env c ms" and mono: "\<forall>x. mode_level (mode_of (root_modes env rootGo roots) x) \<le> mode_level (mode_of ms x)"
    and comp: "computeSelected env roots c ms = Inr selected" and none: "missingCoordinates env selected c = []"
    and sel: "sel = buildSelection env rootPath roots selected c ms" by (auto simp: cache_of_def)
  note greatest = computeSelected_greatest [OF assms(1) comp]
  have loaded: "mode_of ms (target r) \<noteq> LoadNone" if "r \<in> set roots" for r
  proof
    assume "mode_of ms (target r) = LoadNone"
    with mono [rule_format, of "target r"] root_modes_loaded [OF that, of env rootGo] show False
      by (simp split: if_splits)
  qed
  have mods: "sl_modules sel = sortCoordinates env (coordinates_of selected)" by (simp add: sel buildSelection_def Let_def)
  have set_mods: "set (sl_modules sel) = set (coordinates_of selected)" by (simp add: mods sortCoordinates_def)
  have mem: "x \<in> set (coordinates_of selected) \<longleftrightarrow> map_of selected (co_path x) = Some (co_version x)" for x :: coordinate
  proof -
    have "x \<in> set (coordinates_of selected) \<longleftrightarrow> (co_path x, co_version x) \<in> set selected"
      by (cases x) (force simp: coordinates_of_def image_iff)
    moreover have "distinct (map fst selected)" using greatest by (simp add: selects_greatest_def)
    ultimately show ?thesis by simp
  qed
  then have iff: "\<forall>x. x \<in> set (sl_modules sel) \<longleftrightarrow> is_greatest env (active roots c ms) (co_path x) (co_version x)"
    using greatest set_mods by (simp add: selects_greatest_def)
  have "distinct (map fst selected)" using greatest by (simp add: selects_greatest_def)
  then have "distinct (map co_path (coordinates_of selected))"
    by (simp add: coordinates_of_def comp_def case_prod_unfold)
  then have "sorted_wrt (coordinate_before env) (sl_modules sel)"
    unfolding mods by (rule sorted_coordinates [OF assms(1)])
  moreover have "set (sl_modules sel) \<subseteq> dom (map_of c)" using none set_mods by (simp add: missing_empty)
  ultimately show ?thesis using c loaded iff by (auto simp: list_all_iff)
qed

text \<open>A small module graph: \<open>a\<close> and \<open>b\<close> are required by the root, \<open>b\<close> requires a higher \<open>a\<close>.
  Versions compare by length, then bytewise.\<close>

definition demo_modules :: module_env where
  "demo_modules = \<lparr>semver_compare = (\<lambda>a b. int (length a) - int (length b)), semver_valid = (\<lambda>v. True),
     canonical_version = (\<lambda>v. v), is_pseudo_version = (\<lambda>v. False), pseudo_version_time = (\<lambda>v. None),
     pseudo_version_base = (\<lambda>v. None), check_path = (\<lambda>p. None), module_check = (\<lambda>p v. None)\<rparr>"

definition demo_meta :: "coordinate \<Rightarrow> metadata" where
  "demo_meta x = \<lparr>md_path = co_path x, md_go = ''1.2'',
     md_requirements = (if co_path x = ''b'' then [\<lparr>rm_path = ''a'', rm_version = ''v1.10.0'', rm_indirect = False\<rparr>] else [])\<rparr>"

definition demo_fetcher :: "(coordinate list \<Rightarrow> go_error + cache) option" where
  "demo_fetcher = Some (\<lambda>cs. Inr (map (\<lambda>x. (x, demo_meta x)) cs))"

definition demo_roots :: "requirement list" where
  "demo_roots = [\<lparr>rm_path = ''b'', rm_version = ''v1.0.0'', rm_indirect = False\<rparr>,
     \<lparr>rm_path = ''a'', rm_version = ''v1.9.0'', rm_indirect = False\<rparr>]"

definition demo_build_list :: "coordinate list" where
  "demo_build_list = [\<lparr>co_path = ''a'', co_version = ''v1.10.0''\<rparr>, \<lparr>co_path = ''b'', co_version = ''v1.0.0''\<rparr>]"

lemma demo_fetches: "fetches demo_meta demo_fetcher"
  by (auto simp: fetches_def demo_fetcher_def)

lemma demo_order: "semver_order demo_modules"
  by (simp add: semver_order_def demo_modules_def)

theorem Select_is_minimal_version_selection_witness:
  "\<exists>sel. Select 4 demo_modules ''root'' ''1.16'' demo_roots demo_fetcher = Some (Inr sel) \<and>
     sl_modules sel = demo_build_list \<and> sorted_wrt (coordinate_before demo_modules) demo_build_list"
proof -
  define out where "out = Select 4 demo_modules ''root'' ''1.16'' demo_roots demo_fetcher"
  have "(case out of Some (Inr sel) \<Rightarrow> sl_modules sel = demo_build_list | _ \<Rightarrow> False)"
    unfolding out_def by code_simp
  then obtain sel where sel: "out = Some (Inr sel)" "sl_modules sel = demo_build_list"
    by (auto split: option.splits sum.splits)
  from Select_is_minimal_version_selection [OF demo_order demo_fetches sel(1) [unfolded out_def]] sel
  show ?thesis unfolding out_def by metis
qed

section \<open>Termination\<close>

lemma update_subset: "set (AList.update k v al) \<subseteq> insert (k, v) (set al)"
  by (induction al) auto

lemma fold_selected_subset:
  assumes "foldE (selectHigher env) rs selected = Inr selected'"
  shows "set (coordinates_of selected') \<subseteq> set (coordinates_of selected) \<union> target ` set rs"
  using assms
proof (induction rs arbitrary: selected)
  case (Cons r rs)
  then obtain s1 where s1: "selectHigher env r selected = Inr s1" "foldE (selectHigher env) rs s1 = Inr selected'"
    by (auto simp: bindE_simps)
  then have "set s1 \<subseteq> insert (rm_path r, rm_version r) (set selected)"
    using update_subset [of "rm_path r" "rm_version r" selected]
    by (auto simp only: selectHigher_def split: option.splits sum.splits if_splits dest!: Inr_inject)
  then have "set (coordinates_of s1) \<subseteq> insert (target r) (set (coordinates_of selected))"
    by (auto simp: coordinates_of_def target_def)
  with Cons.IH [OF s1(2)] show ?case by auto
qed simp

lemma computeSelected_subset:
  assumes "computeSelected env roots c ms = Inr selected" and "target ` set roots \<subseteq> U"
    and "\<And>x. target ` set (cached_requirements c x) \<subseteq> U"
  shows "set (coordinates_of selected) \<subseteq> U"
proof -
  from assms(1) obtain s0 where s0: "foldE (selectHigher env) roots [] = Inr s0"
    and fold: "foldE (\<lambda>x selected. if mode_of ms x = LoadNone then Inr selected
         else foldE (selectHigher env) (cached_requirements c x) selected) (sortedMetadataCoordinates env c) s0 = Inr selected"
    by (auto simp: computeSelected_def bindE_simps)
  show ?thesis
  proof (rule foldE_invariant [OF fold])
    show "set (coordinates_of s0) \<subseteq> U"
      using fold_selected_subset [OF s0] assms(2) by (auto simp: coordinates_of_def)
    fix x s s'
    assume "(if mode_of ms x = LoadNone then Inr s else foldE (selectHigher env) (cached_requirements c x) s) = Inr s'"
      and "set (coordinates_of s) \<subseteq> U"
    then show "set (coordinates_of s') \<subseteq> U"
      using fold_selected_subset [of env "cached_requirements c x" s s'] assms(3) [of x] by (cases "mode_of ms x = LoadNone") auto
  qed
qed

text \<open>Everything the loop meets lies in a finite set: the root's requirements and whatever the
  fetched metadata requires.\<close>

definition closed_universe :: "coordinate set \<Rightarrow> requirement list \<Rightarrow> (coordinate list \<Rightarrow> go_error + cache) option \<Rightarrow> bool" where
  "closed_universe U roots fetcher \<longleftrightarrow> finite U \<and> target ` set roots \<subseteq> U \<and>
     (\<forall>f cs y x md. fetcher = Some f \<longrightarrow> f cs = Inr y \<longrightarrow> (x, md) \<in> set y \<longrightarrow> target ` set (md_requirements md) \<subseteq> U)"

lemma select_rounds_ends:
  assumes "closed_universe U roots fetcher" and "distinct (map fst c)" and "fst ` set c \<subseteq> U"
    and "\<And>x. target ` set (cached_requirements c x) \<subseteq> U" and "card U < n + length c"
  shows "select_rounds n env fetcher rootPath roots c ms0 \<noteq> None"
  using assms(2-5)
proof (induction n arbitrary: c ms0)
  case 0
  have "length c \<le> card U"
    using 0(1,2) assms(1) card_mono [of U "fst ` set c"] distinct_card [of "map fst c"] by (simp add: closed_universe_def)
  with 0 show ?case by simp
next
  case (Suc n)
  define ms where "ms = propagateLoadModes env c ms0"
  show ?case
  proof (cases "\<exists>selected f fetched c'. computeSelected env roots c ms = Inr selected \<and>
      missingCoordinates env selected c \<noteq> [] \<and> fetcher = Some f \<and> f (missingCoordinates env selected c) = Inr fetched \<and>
      addFetchRound env (missingCoordinates env selected c) fetched c = Inr c'")
    case False
    then show ?thesis by (auto simp: ms_def [symmetric] Let_def split: sum.split option.split)
  next
    case True
    then obtain selected f fetched c' where comp: "computeSelected env roots c ms = Inr selected"
      and ne: "missingCoordinates env selected c \<noteq> []" and f: "fetcher = Some f"
      and fetched: "f (missingCoordinates env selected c) = Inr fetched"
      and add: "addFetchRound env (missingCoordinates env selected c) fetched c = Inr c'" by blast
    let ?m = "missingCoordinates env selected c"
    have m: "set ?m \<subseteq> U" "set ?m \<inter> fst ` set c = {}"
      using computeSelected_subset [OF comp _ Suc.prems(3)] assms(1)
      by (auto simp: closed_universe_def missingCoordinates_def sortCoordinates_def map_of_eq_None_iff)
    note round = addFetchRound_cache [OF add]
    have keys: "fst ` set c' = fst ` set c \<union> set ?m"
    proof -
      have "x \<in> dom (map_of c') \<longleftrightarrow> x \<in> dom (map_of c) \<union> set ?m" for x
        using round(1) [rule_format, of x] round(2) by (cases "x \<in> set ?m") (auto simp: domIff)
      then show ?thesis by (simp flip: dom_map_of_conv_image_fst) blast
    qed
    have dist: "distinct (map fst c')" using round(3) Suc.prems(1) .
    obtain y where "y \<in> set ?m" using ne by (cases ?m) auto
    then have "y \<in> fst ` set c'" "y \<notin> fst ` set c" using m(2) keys by blast+
    then have "card (fst ` set c) < card (fst ` set c')" using keys by (intro psubset_card_mono) auto
    then have longer: "length c < length c'"
      using distinct_card [OF Suc.prems(1)] distinct_card [OF dist] by simp
    have reqs: "target ` set (cached_requirements c' x) \<subseteq> U" for x
    proof (cases "x \<in> set ?m")
      case True
      then obtain md where md: "map_of fetched x = Some md" "map_of c' x = Some md"
        using round(1) [rule_format, of x] round(2) by auto
      have "target ` set (md_requirements md) \<subseteq> U"
        using assms(1) f fetched map_of_SomeD [OF md(1)] unfolding closed_universe_def by blast
      then show ?thesis using md(2) by (simp add: cached_requirements_def)
    next
      case False
      then show ?thesis using round(1) Suc.prems(3) [of x] by (simp add: cached_requirements_def)
    qed
    have "fst ` set c' \<subseteq> U" "card U < n + length c'" using keys m(1) Suc.prems(2,4) longer by auto
    from Suc.IH [OF dist this(1) reqs this(2)]
    have "select_rounds n env fetcher rootPath roots c' ms \<noteq> None" .
    then show ?thesis using comp ne f fetched add by (simp add: ms_def [symmetric] Let_def)
  qed
qed

text \<open>C29: The loop of \<^verbatim>\<open>Select\<close> ends: when the module versions reachable through requirements
  form a finite set, as many rounds as there are such versions (and one more) suffice,
  whatever the fetcher answers; running out of rounds is impossible.\<close>

theorem Select_terminates:
  assumes "closed_universe U roots fetcher" and "card U < n"
  shows "\<exists>result. Select n env rootPath rootGo roots fetcher = Some result"
proof -
  have "select_rounds n env fetcher rootPath roots [] (root_modes env rootGo roots) \<noteq> None"
    using assms by (intro select_rounds_ends [OF assms(1)]) (simp_all add: cached_requirements_def)
  then show ?thesis by (auto simp: Select_def split: option.split)
qed

theorem Select_terminates_witness:
  "\<exists>result. Select 4 demo_modules ''root'' ''1.16'' demo_roots demo_fetcher = Some result"
proof -
  let ?U = "{\<lparr>co_path = ''b'', co_version = ''v1.0.0''\<rparr>, \<lparr>co_path = ''a'', co_version = ''v1.9.0''\<rparr>,
    \<lparr>co_path = ''a'', co_version = ''v1.10.0''\<rparr>}"
  have "closed_universe ?U demo_roots demo_fetcher"
    by (auto simp: closed_universe_def demo_roots_def demo_fetcher_def demo_meta_def target_def)
  moreover have "card ?U < 4" by simp
  ultimately show ?thesis by (rule Select_terminates)
qed

end
