(* ===== verification/Gomod_Client.thy ===== *)
theory Gomod_Client
  imports Gomod_Properties
begin

text \<open>
  The Go module proxy client, the metadata of a dependency's \<^verbatim>\<open>go.mod\<close> and the fetch rounds over
  the worker queue (\<^verbatim>\<open>src/internal/gomod/client.go\<close>, \<^verbatim>\<open>metadata.go\<close>, \<^verbatim>\<open>queue.go\<close>). The HTTP
  transport, \<^verbatim>\<open>url.Parse\<close>, \<^verbatim>\<open>modfile.ParseLax\<close> and the escaping functions are parameters
  (\<open>proxy_env\<close>). Here \<open>runChunk\<close> runs the handler along a schedule; \<open>Gomod_Rounds\<close> has the pool.
\<close>

section \<open>Proxy errors\<close>

datatype proxy_error_kind =
    ErrorNotFound | ErrorRateLimited | ErrorHTTPStatus | ErrorTimeout | ErrorRequest
  | ErrorResponseTooLarge | ErrorDecode

fun proxy_kind_text :: "proxy_error_kind \<Rightarrow> string" where
  "proxy_kind_text ErrorNotFound = ''not_found''"
| "proxy_kind_text ErrorRateLimited = ''rate_limited''"
| "proxy_kind_text ErrorHTTPStatus = ''http_status''"
| "proxy_kind_text ErrorTimeout = ''timeout''"
| "proxy_kind_text ErrorRequest = ''request''"
| "proxy_kind_text ErrorResponseTooLarge = ''response_too_large''"
| "proxy_kind_text ErrorDecode = ''decode''"

record proxy_error =
  pe_Kind :: proxy_error_kind
  pe_ModulePath :: string
  pe_Version :: string
  pe_StatusCode :: int
  pe_Err :: "go_error option"

text \<open>An error of this package: one of the proxy client, or any other, possibly wrapped.\<close>

datatype module_error =
    Proxy proxy_error
  | Other go_error
  | WrappedModule string module_error

definition proxy_error_text :: "proxy_error \<Rightarrow> string" where
  "proxy_error_text e =
     (let coordinate = pe_ModulePath e @ ''@'' @ pe_Version e
      in if pe_StatusCode e \<noteq> 0
         then ''go proxy: fetch '' @ coordinate @ '': '' @ proxy_kind_text (pe_Kind e) @ '' (HTTP ''
              @ int_text (pe_StatusCode e) @ '')''
         else case pe_Err e of
           Some err \<Rightarrow> ''go proxy: fetch '' @ coordinate @ '': '' @ proxy_kind_text (pe_Kind e) @ '': '' @ error_text err
         | None \<Rightarrow> ''go proxy: fetch '' @ coordinate @ '': '' @ proxy_kind_text (pe_Kind e))"

definition Retryable :: "proxy_error \<Rightarrow> bool" where
  "Retryable e = (case pe_Kind e of
     ErrorRateLimited \<Rightarrow> True | ErrorTimeout \<Rightarrow> True | ErrorRequest \<Rightarrow> True
   | ErrorHTTPStatus \<Rightarrow> pe_StatusCode e = 408 \<or> 500 \<le> pe_StatusCode e
   | _ \<Rightarrow> False)"

text \<open>\<^verbatim>\<open>errors.As\<close> with \<^verbatim>\<open>interface{ Retryable() bool }\<close>, and the method's answer.\<close>

fun as_retryable :: "module_error \<Rightarrow> bool option" where
  "as_retryable (Proxy e) = Some (Retryable e)"
| "as_retryable (Other e) = None"
| "as_retryable (WrappedModule s e) = as_retryable e"

section \<open>Metadata of a dependency\<close>

record mod_file =
  mf_Module :: "string option"
  mf_Go :: "string option"
  mf_Require :: "requirement list"

fun check_requirements :: "module_env \<Rightarrow> requirement list \<Rightarrow> go_error option" where
  "check_requirements env [] = None"
| "check_requirements env (r # rs) =
     (case ValidateCoordinate env (rm_path r) (rm_version r) of
        Some err \<Rightarrow> Some (Wrapped (''dependency go.mod requirement '' @ rm_path r @ ''@'' @ rm_version r) err)
      | None \<Rightarrow> check_requirements env rs)"

definition requirement_before :: "module_env \<Rightarrow> requirement \<Rightarrow> requirement \<Rightarrow> bool" where
  "requirement_before env a b =
     (if rm_path a \<noteq> rm_path b then rm_path a < rm_path b
      else let comparison = semver_compare env (rm_version a) (rm_version b)
           in if comparison \<noteq> 0 then comparison < 0 else rm_version a < rm_version b)"

definition ParseMetadata :: "module_env \<Rightarrow> (string \<Rightarrow> go_error + mod_file) \<Rightarrow> string \<Rightarrow> go_error + metadata" where
  "ParseMetadata env parse_lax data =
     (case parse_lax data of
        Inl err \<Rightarrow> Inl (Wrapped ''parse dependency go.mod'' err)
      | Inr file \<Rightarrow>
          (case mf_Module file of
             None \<Rightarrow> Inl (PlainError ''dependency go.mod requires a module directive'')
           | Some modulePath \<Rightarrow>
               if trim_space modulePath = [] then Inl (PlainError ''dependency go.mod requires a module directive'')
               else (case check_path env modulePath of
                 Some err \<Rightarrow> Inl (Wrapped (''dependency go.mod module '' @ quote modulePath) err)
               | None \<Rightarrow>
                   (case check_requirements env (mf_Require file) of
                      Some err \<Rightarrow> Inl err
                    | None \<Rightarrow> Inr \<lparr>md_path = modulePath, md_go = (case mf_Go file of Some v \<Rightarrow> v | None \<Rightarrow> []),
                                  md_requirements = sort_by (requirement_before env) (mf_Require file)\<rparr>))))"

section \<open>The client\<close>

record proxy_url =
  px_Scheme :: string
  px_Host :: string
  px_HasUser :: bool
  px_RawQuery :: string
  px_Fragment :: string

text \<open>A transport failure with what \<^verbatim>\<open>classifyRequestError\<close> asks of it: whether it is a deadline or a
  network timeout.\<close>

record transport_error =
  tr_timeout :: bool
  tr_error :: go_error

record http_response =
  hr_status :: int
  hr_body :: "transport_error + string"

record proxy_env =
  px_modules :: module_env
  px_base_url :: string
  px_url_parse :: "string \<Rightarrow> go_error + proxy_url"
  px_escape_path :: "string \<Rightarrow> go_error + string"
  px_escape_version :: "string \<Rightarrow> go_error + string"
  px_new_request :: "string \<Rightarrow> go_error option"
  px_do :: "string \<Rightarrow> transport_error + http_response"
  px_parse_lax :: "string \<Rightarrow> go_error + mod_file"

definition defaultMaxBodyBytes :: int where
  "defaultMaxBodyBytes = 5242880"

definition newProxyError :: "proxy_error_kind \<Rightarrow> string \<Rightarrow> string \<Rightarrow> int \<Rightarrow> go_error option \<Rightarrow> module_error" where
  "newProxyError kind modulePath version statusCode err =
     Proxy \<lparr>pe_Kind = kind, pe_ModulePath = modulePath, pe_Version = version, pe_StatusCode = statusCode, pe_Err = err\<rparr>"

definition classifyRequestError :: "string \<Rightarrow> string \<Rightarrow> transport_error \<Rightarrow> module_error" where
  "classifyRequestError modulePath version err =
     newProxyError (if tr_timeout err then ErrorTimeout else ErrorRequest) modulePath version 0 (Some (tr_error err))"

definition validateBaseURL :: "(string \<Rightarrow> go_error + proxy_url) \<Rightarrow> string \<Rightarrow> go_error option" where
  "validateBaseURL parse baseURL =
     (case parse baseURL of
        Inl err \<Rightarrow> Some (Wrapped ''go proxy: invalid base URL'' err)
      | Inr parsed \<Rightarrow>
          if (px_Scheme parsed \<noteq> ''http'' \<and> px_Scheme parsed \<noteq> ''https'') \<or> px_Host parsed = [] \<or> px_HasUser parsed
             \<or> px_RawQuery parsed \<noteq> [] \<or> px_Fragment parsed \<noteq> []
          then Some (PlainError ''go proxy: invalid base URL'') else None)"

text \<open>The endpoint of a coordinate, or why there is none.\<close>

definition fetch_endpoint :: "proxy_env \<Rightarrow> string \<Rightarrow> string \<Rightarrow> module_error + string" where
  "fetch_endpoint env modulePath version =
     (case ValidateCoordinate (px_modules env) modulePath version of
        Some err \<Rightarrow> Inl (Other (Wrapped (''go proxy: invalid coordinate '' @ modulePath @ ''@'' @ version) err))
      | None \<Rightarrow>
     (case px_escape_path env modulePath of
        Inl err \<Rightarrow> Inl (Other (Wrapped (''go proxy: escape module path '' @ quote modulePath) err))
      | Inr escapedPath \<Rightarrow>
     (case px_escape_version env version of
        Inl err \<Rightarrow> Inl (Other (Wrapped (''go proxy: escape module version '' @ quote version) err))
      | Inr escapedVersion \<Rightarrow>
          (let baseURL = (if px_base_url env = [] then ''https://proxy.golang.org'' else px_base_url env)
           in case validateBaseURL (px_url_parse env) baseURL of
             Some err \<Rightarrow> Inl (Other err)
           | None \<Rightarrow>
               (let endpoint = trim_right baseURL ''/'' @ ''/'' @ escapedPath @ ''/@v/'' @ escapedVersion @ ''.mod''
                in case px_new_request env endpoint of
                  Some err \<Rightarrow> Inl (newProxyError ErrorRequest modulePath version 0 (Some err))
                | None \<Rightarrow> Inr endpoint)))))"

definition read_metadata :: "proxy_env \<Rightarrow> string \<Rightarrow> string \<Rightarrow> string \<Rightarrow> module_error + metadata" where
  "read_metadata env modulePath version data =
     (if defaultMaxBodyBytes < int (length data)
      then Inl (newProxyError ErrorResponseTooLarge modulePath version 0 (Some (PlainError ''.mod response exceeds 5 MiB'')))
      else case ParseMetadata (px_modules env) (px_parse_lax env) data of
        Inl err \<Rightarrow> Inl (newProxyError ErrorDecode modulePath version 0 (Some err))
      | Inr md \<Rightarrow>
          if md_path md \<noteq> modulePath
          then Inl (newProxyError ErrorDecode modulePath version 0
                 (Some (PlainError (''module directive declares '' @ quote (md_path md)))))
          else Inr md)"

definition Fetch :: "proxy_env \<Rightarrow> string \<Rightarrow> string \<Rightarrow> module_error + metadata" where
  "Fetch env modulePath version =
     bindE (fetch_endpoint env modulePath version) (\<lambda>endpoint.
       case px_do env endpoint of
         Inl err \<Rightarrow> Inl (classifyRequestError modulePath version err)
       | Inr response \<Rightarrow>
           if hr_status response \<noteq> 200
           then Inl (newProxyError
                  (if hr_status response = 404 \<or> hr_status response = 410 then ErrorNotFound
                   else if hr_status response = 429 then ErrorRateLimited else ErrorHTTPStatus)
                  modulePath version (hr_status response) None)
           else (case hr_body response of
             Inl err \<Rightarrow> Inl (classifyRequestError modulePath version err)
           | Inr data \<Rightarrow> read_metadata env modulePath version data))"

section \<open>Fetch rounds over the queue\<close>

record metadata_payload =
  mp_path :: string
  mp_version :: string
  mp_round :: int

record collector =
  cl_results :: cache
  cl_failures :: "(coordinate \<times> module_error) list"

definition goMetadataJobType :: string where
  "goMetadataJobType = ''go_module_metadata''"

definition goQueueBufferSize :: nat where
  "goQueueBufferSize = 100"

text \<open>The methods of \<^verbatim>\<open>metadataCollector\<close>, each under its lock.\<close>

definition collector_put :: "coordinate \<Rightarrow> metadata \<Rightarrow> collector \<Rightarrow> collector" where
  "collector_put x md cl = cl\<lparr>cl_results := AList.update x md (cl_results cl)\<rparr>"

definition collector_snapshot :: "collector \<Rightarrow> cache" where
  "collector_snapshot cl = cl_results cl"

definition collector_fail :: "coordinate \<Rightarrow> module_error \<Rightarrow> collector \<Rightarrow> collector" where
  "collector_fail x err cl = cl\<lparr>cl_failures := AList.update x err (cl_failures cl)\<rparr>"

definition collector_failure :: "coordinate \<Rightarrow> collector \<Rightarrow> module_error option" where
  "collector_failure x cl = map_of (cl_failures cl) x"

lemmas collector_defs [simp] = collector_put_def collector_snapshot_def collector_fail_def collector_failure_def

definition metadata_handle ::
    "module_env \<Rightarrow> (string \<Rightarrow> go_error + metadata_payload) \<Rightarrow> (string \<Rightarrow> string \<Rightarrow> module_error + metadata) \<Rightarrow> int
     \<Rightarrow> job \<Rightarrow> collector \<Rightarrow> module_error option \<times> collector" where
  "metadata_handle env decode fetch round queued cl =
     (if Type queued \<noteq> goMetadataJobType
      then (Some (Other (PlainError (''Go metadata handler: unsupported job type '' @ quote (Type queued)))), cl)
      else (case decode (Payload queued) of
        Inl err \<Rightarrow> (Some (Other (Wrapped ''Go metadata handler: decode payload'' err)), cl)
      | Inr payload \<Rightarrow>
          if mp_round payload \<noteq> round
          then (Some (Other (PlainError (''Go metadata handler: job round '' @ int_text (mp_round payload)
                  @ '' does not match active round '' @ int_text round))), cl)
          else (case ValidateCoordinate env (mp_path payload) (mp_version payload) of
            Some err \<Rightarrow> (Some (Other (Wrapped ''Go metadata handler: invalid coordinate'' err)), cl)
          | None \<Rightarrow>
              (let x = \<lparr>co_path = mp_path payload, co_version = mp_version payload\<rparr>
               in case collector_failure x cl of
                 Some err \<Rightarrow> (Some err, cl)
               | None \<Rightarrow>
                   (case fetch (mp_path payload) (mp_version payload) of
                      Inl err \<Rightarrow>
                        (Some err, if as_retryable err = Some False
                                   then collector_fail x err cl else cl)
                    | Inr md \<Rightarrow> (None, collector_put x md cl))))))"

definition firstFailure :: "module_env \<Rightarrow> coordinate list \<Rightarrow> collector \<Rightarrow> (coordinate \<times> module_error) option" where
  "firstFailure env coordinates cl =
     (case find (\<lambda>x. map_of (cl_failures cl) x \<noteq> None) (sortCoordinates env coordinates) of
        None \<Rightarrow> None
      | Some x \<Rightarrow> map_option (Pair x) (map_of (cl_failures cl) x))"

text \<open>The chunks of at most \<open>goQueueBufferSize\<close> coordinates. \<open>run\<close> is \<^verbatim>\<open>runChunk\<close>: what the pool
  leaves in the collector, and its error.\<close>

function fetch_chunks ::
    "module_env \<Rightarrow> (coordinate list \<Rightarrow> collector \<Rightarrow> module_error option \<times> collector) \<Rightarrow> int \<Rightarrow> coordinate list \<Rightarrow> collector
     \<Rightarrow> module_error + collector" where
  "fetch_chunks env run round coordinates cl =
     (if coordinates = [] then Inr cl
      else
        let chunk = take goQueueBufferSize coordinates;
            (err, cl') = run chunk cl
        in case err of
          Some e \<Rightarrow> Inl (WrappedModule (''Go metadata round '' @ int_text round) e)
        | None \<Rightarrow>
            (case firstFailure env chunk cl' of
               Some (x, e) \<Rightarrow> Inl (WrappedModule (''Go metadata round '' @ int_text round @ '' failed for '' @ coordinate_text x) e)
             | None \<Rightarrow> fetch_chunks env run round (drop goQueueBufferSize coordinates) cl'))"
  by pat_completeness auto
termination
  by (relation "measure (\<lambda>(env, run, round, cs, cl). length cs)") (auto simp: goQueueBufferSize_def)

declare fetch_chunks.simps [simp del]

definition FetchRound ::
    "module_env \<Rightarrow> (coordinate list \<Rightarrow> collector \<Rightarrow> module_error option \<times> collector) \<Rightarrow> int \<Rightarrow> coordinate list
     \<Rightarrow> module_error + cache" where
  "FetchRound env run round coordinates =
     (if coordinates = [] then Inr []
      else bindE (fetch_chunks env run round coordinates \<lparr>cl_results = [], cl_failures = []\<rparr>) (\<lambda>cl.
        case find (\<lambda>x. map_of (collector_snapshot cl) x = None) coordinates of
          Some x \<Rightarrow> Inl (Other (PlainError (''Go metadata round '' @ int_text round @ '' incomplete: no metadata for '' @ coordinate_text x)))
        | None \<Rightarrow> Inr (collector_snapshot cl)))"

definition round_payload :: "int \<Rightarrow> coordinate \<Rightarrow> metadata_payload" where
  "round_payload round x = \<lparr>mp_path = co_path x, mp_version = co_version x, mp_round = round\<rparr>"

text \<open>The specification of one run of the pool on a chunk: the handler on the jobs in the order \<open>schedule\<close> gives (a
  retried job appears again), and the error of cancellation or shutdown.\<close>

definition runChunk ::
    "module_env \<Rightarrow> (metadata_payload \<Rightarrow> string) \<Rightarrow> (string \<Rightarrow> go_error + metadata_payload)
     \<Rightarrow> (string \<Rightarrow> string \<Rightarrow> module_error + metadata) \<Rightarrow> int \<Rightarrow> (coordinate list \<Rightarrow> coordinate list)
     \<Rightarrow> (coordinate list \<Rightarrow> module_error option) \<Rightarrow> coordinate list \<Rightarrow> collector \<Rightarrow> module_error option \<times> collector" where
  "runChunk env encode decode fetch round schedule terminalErr coordinates cl =
     (terminalErr coordinates,
      fold (\<lambda>x cl. snd (metadata_handle env decode fetch round
              (NewJob [] goMetadataJobType (encode (round_payload round x))) cl))
        (schedule coordinates) cl)"

section \<open>Lemmas\<close>

lemma fetch_endpoint_error:
  assumes "fetch_endpoint env modulePath version = Inl err"
  shows "as_retryable err = None \<or> as_retryable err = Some True"
  using assms by (auto simp: fetch_endpoint_def newProxyError_def Retryable_def Let_def split: option.splits sum.splits)

lemma read_metadata_error:
  assumes "read_metadata env modulePath version data = Inl err"
  shows "as_retryable err = Some False"
  using assms by (auto simp: read_metadata_def newProxyError_def Retryable_def split: if_splits sum.splits)

lemma check_requirements_valid:
  "check_requirements env rs = None \<Longrightarrow> list_all (\<lambda>r. ValidateCoordinate env (rm_path r) (rm_version r) = None) rs"
  by (induction rs) (auto split: option.splits)

lemma read_metadata_ok:
  assumes "read_metadata env modulePath version data = Inr md"
  shows "md_path md = modulePath \<and>
    list_all (\<lambda>r. ValidateCoordinate (px_modules env) (rm_path r) (rm_version r) = None) (md_requirements md)"
  using assms check_requirements_valid
  by (auto simp: read_metadata_def ParseMetadata_def list_all_iff split: if_splits sum.splits option.splits)

text \<open>What the collector holds came from the client, for coordinates of the round.\<close>

definition collected :: "(string \<Rightarrow> string \<Rightarrow> module_error + metadata) \<Rightarrow> coordinate set \<Rightarrow> collector \<Rightarrow> bool" where
  "collected fetch X cl \<longleftrightarrow> (\<forall>x md. map_of (cl_results cl) x = Some md \<longrightarrow>
     x \<in> X \<and> fetch (co_path x) (co_version x) = Inr md)"

lemma metadata_handle_collected:
  assumes "collected fetch X cl" and "decode (encode (round_payload rd x)) = Inr (round_payload rd x)" and "x \<in> X"
  shows "collected fetch X (snd (metadata_handle env decode fetch round
    (NewJob i t (encode (round_payload rd x))) cl))"
proof (cases x)
  case (fields p v)
  show ?thesis
    using assms unfolding metadata_handle_def collected_def fields
    by (auto simp: NewJob_def round_payload_def Let_def update_conv' split: option.split sum.split if_splits)
qed

lemma runChunk_collected:
  assumes "collected fetch X cl"
    and "\<And>x. x \<in> X \<Longrightarrow> decode (encode (round_payload round x)) = Inr (round_payload round x)"
    and "set (schedule cs) \<subseteq> X" and "runChunk env encode decode fetch round schedule terminalErr cs cl = (err, cl')"
  shows "collected fetch X cl'"
proof -
  let ?f = "\<lambda>x cl. snd (metadata_handle env decode fetch round
      (NewJob [] goMetadataJobType (encode (round_payload round x))) cl)"
  have "collected fetch X (fold ?f xs cl)" if "set xs \<subseteq> X" "collected fetch X cl" for xs cl
    using that
  proof (induction xs arbitrary: cl)
    case (Cons x xs)
    have "collected fetch X (?f x cl)" by (intro metadata_handle_collected) (use Cons.prems assms(2) in auto)
    with Cons show ?case by simp
  qed simp
  with assms show ?thesis by (auto simp: runChunk_def)
qed

lemma fetch_chunks_collected:
  assumes "fetch_chunks env run round cs cl = Inr cl'" and "collected fetch X cl" and "set cs \<subseteq> X"
    and "\<And>chunk cl err cl'. set chunk \<subseteq> X \<Longrightarrow> run chunk cl = (err, cl') \<Longrightarrow> collected fetch X cl \<Longrightarrow> collected fetch X cl'"
  shows "collected fetch X cl'"
  using assms(1-3)
proof (induction cs arbitrary: cl rule: length_induct)
  case (1 cs)
  show ?case
  proof (cases "cs = []")
    case True
    then show ?thesis using 1 by (simp add: fetch_chunks.simps)
  next
    case False
    let ?chunk = "take goQueueBufferSize cs" and ?rest = "drop goQueueBufferSize cs"
    obtain err cl1 where run: "run ?chunk cl = (err, cl1)" by fastforce
    have step: "fetch_chunks env run round cs cl =
        (case err of
           Some e \<Rightarrow> Inl (WrappedModule (''Go metadata round '' @ int_text round) e)
         | None \<Rightarrow> (case firstFailure env ?chunk cl1 of
             Some (x, e) \<Rightarrow> Inl (WrappedModule (''Go metadata round '' @ int_text round @ '' failed for '' @ coordinate_text x) e)
           | None \<Rightarrow> fetch_chunks env run round ?rest cl1))"
      by (subst fetch_chunks.simps) (simp only: False run if_False Let_def prod.case)
    have rest: "fetch_chunks env run round ?rest cl1 = Inr cl'"
      using 1(2) unfolding step by (auto split: option.splits)
    have sub: "set ?chunk \<subseteq> X" "set ?rest \<subseteq> X"
      using 1(4) set_take_subset [of goQueueBufferSize cs] set_drop_subset [of goQueueBufferSize cs] by auto
    have shorter: "length ?rest < length cs" using False by (simp add: goQueueBufferSize_def)
    have "collected fetch X cl1" by (rule assms(4) [OF sub(1) run 1(3)])
    with 1(1) [rule_format, OF shorter rest] sub(2) show ?thesis by blast
  qed
qed

section \<open>Properties\<close>

text \<open>When retrying a request can help: the transport failed, or the proxy answered with a rate
  limit, a request timeout or a server error.\<close>

definition transient_outcome :: "transport_error + http_response \<Rightarrow> bool" where
  "transient_outcome outcome = (case outcome of
     Inl err \<Rightarrow> True
   | Inr response \<Rightarrow>
       if hr_status response = 200 then (case hr_body response of Inl _ \<Rightarrow> True | Inr _ \<Rightarrow> False)
       else hr_status response = 429 \<or> hr_status response = 408 \<or> 500 \<le> hr_status response)"

text \<open>C30: The proxy client classifies its failures: once the request could be built, the error is
  retryable exactly when the transport failed or the status is 408, 429 or 5xx and above; a
  success carries the module path that was asked for and only valid requirements.\<close>

theorem Fetch_classified:
  assumes "fetch_endpoint env modulePath version = Inr endpoint"
  shows "case Fetch env modulePath version of
      Inl err \<Rightarrow> as_retryable err = Some (transient_outcome (px_do env endpoint))
    | Inr md \<Rightarrow> \<not> transient_outcome (px_do env endpoint) \<and> md_path md = modulePath \<and>
        list_all (\<lambda>r. ValidateCoordinate (px_modules env) (rm_path r) (rm_version r) = None) (md_requirements md)"
proof (cases "px_do env endpoint")
  case (Inl err)
  then show ?thesis
    using assms by (simp add: Fetch_def classifyRequestError_def newProxyError_def Retryable_def transient_outcome_def)
next
  case (Inr response)
  show ?thesis
  proof (cases "hr_status response = 200")
    case False
    then show ?thesis
      using assms Inr by (simp add: Fetch_def newProxyError_def Retryable_def transient_outcome_def)
  next
    case True
    show ?thesis
    proof (cases "hr_body response")
      case (Inl err)
      then show ?thesis
        using assms Inr True
        by (simp add: Fetch_def classifyRequestError_def newProxyError_def Retryable_def transient_outcome_def)
    next
      case body: (Inr data)
      have "Fetch env modulePath version = read_metadata env modulePath version data"
        using assms Inr True body by (simp add: Fetch_def)
      then show ?thesis
        using read_metadata_error [of env modulePath version data] read_metadata_ok [of env modulePath version data]
          Inr True body by (auto simp: transient_outcome_def split: sum.split)
    qed
  qed
qed

definition demo_proxy :: proxy_env where
  "demo_proxy = \<lparr>px_modules = demo_modules, px_base_url = [],
     px_url_parse = (\<lambda>u. Inr \<lparr>px_Scheme = ''https'', px_Host = ''proxy.golang.org'', px_HasUser = False,
       px_RawQuery = [], px_Fragment = []\<rparr>),
     px_escape_path = Inr, px_escape_version = Inr, px_new_request = (\<lambda>u. None),
     px_do = (\<lambda>u. Inr \<lparr>hr_status = 503, hr_body = Inr []\<rparr>), px_parse_lax = (\<lambda>s. Inl (PlainError s))\<rparr>"

theorem Fetch_classified_witness:
  "case Fetch demo_proxy ''a'' ''v1.0.0'' of Inl err \<Rightarrow> as_retryable err = Some True | Inr md \<Rightarrow> False"
proof -
  have built: "fetch_endpoint demo_proxy ''a'' ''v1.0.0'' = Inr ''https://proxy.golang.org/a/@v/v1.0.0.mod''" by code_simp
  have fails: "isl (Fetch demo_proxy ''a'' ''v1.0.0'')" by code_simp
  have trans: "transient_outcome (px_do demo_proxy u)" for u
    by (simp add: demo_proxy_def transient_outcome_def)
  show ?thesis using Fetch_classified [OF built] fails trans by (auto split: sum.splits)
qed

text \<open>A fetch round is all or nothing: when \<^verbatim>\<open>FetchRound\<close> succeeds, whatever order the pool ran
  the jobs in and however often it retried them, the result has metadata for every requested
  coordinate and for no other, each the client's answer for that coordinate.\<close>

theorem FetchRound_complete:
  assumes "\<forall>x\<in>set coordinates. decode (encode (round_payload round x)) = Inr (round_payload round x)"
    and "\<forall>cs. set (schedule cs) \<subseteq> set cs"
    and "FetchRound env (runChunk env encode decode fetch round schedule terminalErr) round coordinates = Inr results"
  shows "dom (map_of results) = set coordinates \<and>
    (\<forall>x md. map_of results x = Some md \<longrightarrow> fetch (co_path x) (co_version x) = Inr md)"
proof (cases "coordinates = []")
  case True
  then show ?thesis using assms(3) by (simp add: FetchRound_def)
next
  case False
  let ?run = "runChunk env encode decode fetch round schedule terminalErr"
  from assms(3) False obtain cl where cl: "fetch_chunks env ?run round coordinates \<lparr>cl_results = [], cl_failures = []\<rparr> = Inr cl"
    and all: "find (\<lambda>x. map_of (cl_results cl) x = None) coordinates = None" and res: "results = cl_results cl"
    by (auto simp: FetchRound_def bindE_simps split: option.splits)
  have "collected fetch (set coordinates) cl"
  proof (rule fetch_chunks_collected [OF cl _ order_refl])
    show "collected fetch (set coordinates) \<lparr>cl_results = [], cl_failures = []\<rparr>" by (simp add: collected_def)
    show "collected fetch (set coordinates) cl2"
      if "set chunk \<subseteq> set coordinates" "?run chunk cl1 = (err, cl2)" "collected fetch (set coordinates) cl1" for chunk cl1 err cl2
      using runChunk_collected [OF that(3) _ _ that(2)] assms(1,2) that(1) by blast
  qed
  then show ?thesis using all unfolding res collected_def find_None_all by blast
qed

definition demo_client :: "string \<Rightarrow> string \<Rightarrow> module_error + metadata" where
  "demo_client p v = Inr (demo_meta \<lparr>co_path = p, co_version = v\<rparr>)"

definition demo_encode :: "metadata_payload \<Rightarrow> string" where
  "demo_encode p = mp_path p @ ''|'' @ mp_version p @ ''|'' @ int_text (mp_round p)"

definition demo_decode_payload :: "string \<Rightarrow> go_error + metadata_payload" where
  "demo_decode_payload s = (case split_on CHR ''|'' s of
     [p, v, n] \<Rightarrow> (case atoi n of Some r \<Rightarrow> Inr \<lparr>mp_path = p, mp_version = v, mp_round = r\<rparr> | None \<Rightarrow> Inl (PlainError s))
   | _ \<Rightarrow> Inl (PlainError s))"

theorem FetchRound_complete_witness:
  "\<exists>results. FetchRound demo_modules
       (runChunk demo_modules demo_encode demo_decode_payload demo_client 1 rev (\<lambda>_. None)) 1 demo_build_list = Inr results \<and>
     dom (map_of results) = set demo_build_list"
proof -
  let ?out = "FetchRound demo_modules
       (runChunk demo_modules demo_encode demo_decode_payload demo_client 1 rev (\<lambda>_. None)) 1 demo_build_list"
  have "\<not> isl ?out" by code_simp
  then obtain results where res: "?out = Inr results" by (cases ?out) auto
  have codec: "\<forall>x\<in>set demo_build_list. demo_decode_payload (demo_encode (round_payload 1 x)) = Inr (round_payload 1 x)"
    by code_simp
  have rev: "\<forall>cs :: coordinate list. set (rev cs) \<subseteq> set cs" by simp
  from FetchRound_complete [OF codec rev res] res show ?thesis by blast
qed

end
