(* ===== verification/Legacy_Queue.thy ===== *)
theory Legacy_Queue
  imports Job_Store Go_Sort
begin

text \<open>
  The process-local queue and its durable store (\<^verbatim>\<open>src/internal/store/postgres/postgres.go\<close>,
  \<^verbatim>\<open>src/internal/queue/queue.go\<close>, \<^verbatim>\<open>src/internal/dlq/dlq.go\<close>), which the module fetcher runs
  on. The store works on the \<^verbatim>\<open>jobs\<close> and \<^verbatim>\<open>dlq\<close> tables of \<open>Job_Store\<close>; a channel is the list
  of what was sent and not yet received.
\<close>

section \<open>The store\<close>

datatype legacy_error = ErrJobExists | LegacyNotFound | LegacySQL

definition CreateJob :: "externals \<Rightarrow> gotime \<Rightarrow> job \<Rightarrow> db \<Rightarrow> legacy_error + db" where
  "CreateJob ext now j d =
     (let maxAttempts = (if MaxAttempts j = 0 then DefaultMaxAttempts else MaxAttempts j);
          scheduledAt = (if ScheduledAt j = 0 then now else ScheduledAt j)
      in case jsonValue ext (Payload j) of
        Inl _ \<Rightarrow> Inl LegacySQL
      | Inr payload \<Rightarrow>
          if has_job d (ID j) then Inl ErrJobExists
          else Inr (d\<lparr>t_jobs := t_jobs d @
                 [(new_row now (ID j) (Type j) payload maxAttempts (firstNonEmpty [RootJobID j, ID j]))
                    \<lparr>r_attempts := Attempts j, r_scheduled_at := scheduledAt,
                     r_parent_job_id := nullif_empty (ParentJobID j), r_internal := Internal j\<rparr>]\<rparr>))"

text \<open>\<^verbatim>\<open>scanJob\<close> fills seven fields; the others keep their zero values.\<close>

definition scanJob :: "job_row \<Rightarrow> job" where
  "scanJob r = (NewJob (r_id r) (r_type r) (coalesce (r_payload r) []))
     \<lparr>Status := r_status r, Attempts := r_attempts r, MaxAttempts := r_max_attempts r,
      ScheduledAt := r_scheduled_at r\<rparr>"

definition acquire_before :: "job_row \<Rightarrow> job_row \<Rightarrow> bool" where
  "acquire_before a b \<longleftrightarrow> r_scheduled_at a < r_scheduled_at b \<or>
     (r_scheduled_at a = r_scheduled_at b \<and> r_created_at a < r_created_at b)"

definition acquirable :: "gotime \<Rightarrow> (string \<Rightarrow> bool) \<Rightarrow> job_row \<Rightarrow> bool" where
  "acquirable now locked r \<longleftrightarrow> r_status r = StatusPending \<and> r_scheduled_at r \<le> now \<and> \<not> locked (r_id r)"

definition AcquireJob :: "gotime \<Rightarrow> (string \<Rightarrow> bool) \<Rightarrow> db \<Rightarrow> job option \<times> db" where
  "AcquireJob now locked d =
     (case least_by acquire_before (filter (acquirable now locked) (t_jobs d)) of
        None \<Rightarrow> (None, d)
      | Some row \<Rightarrow>
          (Some (scanJob (row\<lparr>r_status := StatusRunning\<rparr>)),
           d\<lparr>t_jobs := update_where (\<lambda>r. r_id r = r_id row) (\<lambda>r. r\<lparr>r_status := StatusRunning\<rparr>) (t_jobs d)\<rparr>))"

definition updateStatus :: "string \<Rightarrow> status \<Rightarrow> db \<Rightarrow> legacy_error + db" where
  "updateStatus i st d =
     (if \<not> has_job d i then Inl LegacyNotFound
      else Inr (d\<lparr>t_jobs := update_where (\<lambda>r. r_id r = i) (\<lambda>r. r\<lparr>r_status := st\<rparr>) (t_jobs d)\<rparr>))"

definition CompleteJob :: "string \<Rightarrow> db \<Rightarrow> legacy_error + db" where
  "CompleteJob i d = updateStatus i StatusCompleted d"

definition RetryJob :: "job \<Rightarrow> db \<Rightarrow> legacy_error + db" where
  "RetryJob j d =
     (if \<not> has_job d (ID j) then Inl LegacyNotFound
      else Inr (d\<lparr>t_jobs := update_where (\<lambda>r. r_id r = ID j)
             (\<lambda>r. r\<lparr>r_status := StatusPending, r_attempts := Attempts j, r_scheduled_at := ScheduledAt j\<rparr>) (t_jobs d)\<rparr>))"

definition DeadLetterJob :: "externals \<Rightarrow> gotime \<Rightarrow> job \<Rightarrow> string \<Rightarrow> db \<Rightarrow> legacy_error + db" where
  "DeadLetterJob ext now j errorText d =
     (if \<not> has_job d (ID j) then Inl LegacyNotFound
      else case jsonValue ext (Payload j) of
        Inl _ \<Rightarrow> Inl LegacySQL
      | Inr payload \<Rightarrow>
          Inr (d\<lparr>t_jobs := update_where (\<lambda>r. r_id r = ID j)
                   (\<lambda>r. r\<lparr>r_status := StatusDeadLettered, r_attempts := Attempts j\<rparr>) (t_jobs d),
                 t_dlq := t_dlq d @
                   [\<lparr>dl_id = seq_dlq d, dl_job_id = ID j, dl_job_type = Type j, dl_payload = payload,
                     dl_attempts = Attempts j, dl_error = errorText, dl_dead_at = now, dl_error_kind = None,
                     dl_root_job_id = None, dl_parent_job_id = None, dl_replayed_at = None, dl_replayed_as = None\<rparr>],
                 seq_dlq := seq_dlq d + 1\<rparr>))"

definition ReclaimStuckJobs :: "db \<Rightarrow> nat \<times> db" where
  "ReclaimStuckJobs d =
     (count_where (\<lambda>r. r_status r = StatusRunning) (t_jobs d),
      d\<lparr>t_jobs := update_where (\<lambda>r. r_status r = StatusRunning) (\<lambda>r. r\<lparr>r_status := StatusPending\<rparr>) (t_jobs d)\<rparr>)"

section \<open>Dead letters\<close>

record dlq_entry =
  de_Job :: job
  de_Err :: string
  de_DeadAt :: gotime

text \<open>\<^verbatim>\<open>Publish\<close> writes to the store when there is one and appends in memory otherwise.\<close>

definition Publish :: "externals \<Rightarrow> gotime \<Rightarrow> job \<Rightarrow> string \<Rightarrow> dlq_entry list \<times> db option \<Rightarrow> dlq_entry list \<times> db option" where
  "Publish ext now j err s =
     (case snd s of
        Some d \<Rightarrow> (fst s, Some (case DeadLetterJob ext now j err d of Inl _ \<Rightarrow> d | Inr d' \<Rightarrow> d'))
      | None \<Rightarrow> (fst s @ [\<lparr>de_Job = j, de_Err = err, de_DeadAt = now\<rparr>], None))"

definition DLQEntries :: "db \<Rightarrow> dlq_entry list" where
  "DLQEntries d =
     map (\<lambda>e. \<lparr>de_Job = (NewJob (dl_job_id e) (dl_job_type e) (coalesce (dl_payload e) []))
                 \<lparr>Attempts := dl_attempts e, MaxAttempts := 0, Status := StatusDeadLettered\<rparr>,
               de_Err = dl_error e, de_DeadAt = dl_dead_at e\<rparr>)
       (sort_by (\<lambda>a b. dl_dead_at a < dl_dead_at b \<or> (dl_dead_at a = dl_dead_at b \<and> dl_id a < dl_id b)) (t_dlq d))"

definition Entries :: "dlq_entry list \<times> db option \<Rightarrow> dlq_entry list" where
  "Entries s = (case snd s of Some d \<Rightarrow> DLQEntries d | None \<Rightarrow> fst s)"

section \<open>The queue\<close>

datatype queued = Signal | Item job

record queue =
  q_ch :: "queued list"
  q_cap :: nat
  q_closed :: bool

datatype queue_error = ErrClosed | ErrNoStore | QueueStore legacy_error

text \<open>The reload loop of \<^verbatim>\<open>New\<close>: acquire until nothing is eligible. Each turn takes one pending row,
  so as many turns as there are rows suffice.\<close>

fun reload :: "nat \<Rightarrow> gotime \<Rightarrow> db \<Rightarrow> job list \<times> db" where
  "reload 0 now d = ([], d)"
| "reload (Suc n) now d =
     (case AcquireJob now (\<lambda>_. False) d of
        (None, d') \<Rightarrow> ([], d')
      | (Some j, d') \<Rightarrow> (let (js, d'') = reload n now d' in (j # js, d'')))"

definition New :: "gotime \<Rightarrow> nat \<Rightarrow> db option \<Rightarrow> queue \<times> db option" where
  "New now bufferSize store =
     (case store of
        None \<Rightarrow> (\<lparr>q_ch = [], q_cap = bufferSize, q_closed = False\<rparr>, None)
      | Some d0 \<Rightarrow>
          (let d = snd (ReclaimStuckJobs d0);
               (pending, d') = reload (length (t_jobs d)) now d
           in (\<lparr>q_ch = map Item pending, q_cap = max bufferSize (length pending), q_closed = False\<rparr>, Some d')))"

text \<open>\<^verbatim>\<open>Submit\<close> up to its \<^verbatim>\<open>select\<close>: the row is created and the item to send is known. The send itself
  (\<open>channel_send\<close>) waits for room and fails once the queue is closing.\<close>

definition queue_prepare :: "externals \<Rightarrow> gotime \<Rightarrow> job \<Rightarrow> queue \<Rightarrow> db option \<Rightarrow> (queue_error + queued) \<times> db option" where
  "queue_prepare ext now j q store =
     (if q_closed q then (Inl ErrClosed, store)
      else case store of
        None \<Rightarrow> (Inr (Item j), None)
      | Some d \<Rightarrow> (case CreateJob ext now j d of
          Inl err \<Rightarrow> (Inl (QueueStore err), Some d)
        | Inr d' \<Rightarrow> (Inr Signal, Some d')))"

definition channel_send :: "queued \<Rightarrow> queue \<Rightarrow> (queue_error + queue) option" where
  "channel_send x q =
     (if q_closed q then Some (Inl ErrClosed)
      else if length (q_ch q) < q_cap q then Some (Inr (q\<lparr>q_ch := q_ch q @ [x]\<rparr>))
      else None)"

text \<open>\<^verbatim>\<open>DispatchAcquired\<close> sends a job that is already running in the store; \<^verbatim>\<open>Len\<close> counts what waits.\<close>

definition DispatchAcquired :: "job \<Rightarrow> queue \<Rightarrow> (queue_error + queue) option" where
  "DispatchAcquired j q = channel_send (Item j) q"

definition Len :: "queue \<Rightarrow> nat" where
  "Len q = length (q_ch q)"

definition Persist :: "externals \<Rightarrow> gotime \<Rightarrow> job \<Rightarrow> db option \<Rightarrow> (queue_error option) \<times> db option" where
  "Persist ext now j store =
     (case store of
        None \<Rightarrow> (Some ErrNoStore, None)
      | Some d \<Rightarrow> (case CreateJob ext now j d of
          Inl err \<Rightarrow> (Some (QueueStore err), Some d) | Inr d' \<Rightarrow> (None, Some d')))"

definition Close :: "queue \<Rightarrow> queue" where
  "Close q = q\<lparr>q_closed := True\<rparr>"

text \<open>One turn of \<^verbatim>\<open>Dequeue\<close>: wait (channel open and empty), stop (closed and drained), skip a stale
  signal, or return a job.\<close>

text \<open>A signal is the zero \<^verbatim>\<open>job.Job{}\<close>; a queue without a store never sends one.\<close>

definition empty_job :: job where
  "empty_job = (NewJob [] [] [])\<lparr>MaxAttempts := 0\<rparr>"

datatype dequeued = Wait | Stop | Skip | Got job

definition dequeue_turn :: "gotime \<Rightarrow> (string \<Rightarrow> bool) \<Rightarrow> queue \<Rightarrow> db option \<Rightarrow> dequeued \<times> queue \<times> db option" where
  "dequeue_turn now locked q store =
     (case q_ch q of
        [] \<Rightarrow> (if q_closed q then Stop else Wait, q, store)
      | x # xs \<Rightarrow>
          (let q' = q\<lparr>q_ch := xs\<rparr>
           in case store of
             None \<Rightarrow> (Got (case x of Item j \<Rightarrow> j | Signal \<Rightarrow> empty_job), q', None)
           | Some d \<Rightarrow>
               (case x of
                  Item j \<Rightarrow> if ID j \<noteq> [] \<and> Status j = StatusRunning then (Got j, q', Some d)
                            else (case AcquireJob now locked d of
                                    (None, d') \<Rightarrow> (Skip, q', Some d') | (Some a, d') \<Rightarrow> (Got a, q', Some d'))
                | Signal \<Rightarrow> (case AcquireJob now locked d of
                    (None, d') \<Rightarrow> (Skip, q', Some d') | (Some a, d') \<Rightarrow> (Got a, q', Some d')))))"

section \<open>Lemmas\<close>

lemma AcquireJob_None: "AcquireJob now locked d = (None, d') \<Longrightarrow> d' = d \<and> filter (acquirable now locked) (t_jobs d) = []"
  by (auto simp: AcquireJob_def split: option.splits)

lemma AcquireJob_Some:
  assumes "AcquireJob now locked d = (Some j, d')"
  obtains row where "row \<in> set (t_jobs d)" "acquirable now locked row" "j = scanJob (row\<lparr>r_status := StatusRunning\<rparr>)"
    "t_jobs d' = update_where (\<lambda>r. r_id r = r_id row) (\<lambda>r. r\<lparr>r_status := StatusRunning\<rparr>) (t_jobs d)"
proof (cases "least_by acquire_before (filter (acquirable now locked) (t_jobs d))")
  case None
  with assms show ?thesis by (simp add: AcquireJob_def)
next
  case (Some row)
  from least_by_in [OF Some] have "row \<in> set (t_jobs d)" "acquirable now locked row" by simp_all
  then show ?thesis using assms Some by (intro that [of row]) (auto simp: AcquireJob_def)
qed

lemma count_where_update_less:
  assumes "x \<in> set xs" and "p x" and "q x" and "\<And>r. q r \<Longrightarrow> \<not> p (f r)"
  shows "count_where p (update_where q f xs) < count_where p xs"
  using assms(1)
proof (induction xs)
  case (Cons y ys)
  have le: "count_where p (update_where q f zs) \<le> count_where p zs" for zs
    using assms(4) by (induction zs) (simp_all add: update_where_def)
  have step: "count_where p (update_where q f (y # ys)) =
      (if \<not> q y \<and> p y then 1 else 0) + count_where p (update_where q f ys)"
    using assms(4) by (simp add: update_where_def)
  show ?case
  proof (cases "y = x")
    case True
    then show ?thesis using le [of ys] assms(2,3) unfolding step by simp
  next
    case False
    then have "count_where p (update_where q f ys) < count_where p ys" using Cons by simp
    then show ?thesis unfolding step by simp
  qed
qed simp

text \<open>The reload loop leaves no eligible row behind.\<close>

lemma reload_exhausts:
  assumes "count_where (acquirable now (\<lambda>_. False)) (t_jobs d) \<le> n" and "reload n now d = (js, d')"
  shows "filter (acquirable now (\<lambda>_. False)) (t_jobs d') = []"
  using assms
proof (induction n arbitrary: d js)
  case 0
  then show ?case by (simp add: count_where_def)
next
  case (Suc n)
  obtain r d1 where a: "AcquireJob now (\<lambda>_. False) d = (r, d1)" by fastforce
  show ?case
  proof (cases r)
    case None
    with a Suc.prems AcquireJob_None [of now "\<lambda>_. False" d d1] show ?thesis by simp
  next
    case (Some j)
    then obtain row where row: "row \<in> set (t_jobs d)" "acquirable now (\<lambda>_. False) row"
      "t_jobs d1 = update_where (\<lambda>r. r_id r = r_id row) (\<lambda>r. r\<lparr>r_status := StatusRunning\<rparr>) (t_jobs d)"
      using a AcquireJob_Some by metis
    have "count_where (acquirable now (\<lambda>_. False)) (t_jobs d1) < count_where (acquirable now (\<lambda>_. False)) (t_jobs d)"
      unfolding row(3) by (rule count_where_update_less) (use row(1,2) in \<open>auto simp: acquirable_def\<close>)
    with Suc.prems(1) have le: "count_where (acquirable now (\<lambda>_. False)) (t_jobs d1) \<le> n" by simp
    obtain js' d2 where r2: "reload n now d1 = (js', d2)" by fastforce
    with Suc.prems(2) a Some have "reload n now d1 = (js', d')" by simp
    from Suc.IH [OF le this] show ?thesis .
  qed
qed

end
