(* ===== verification/Worker_Pool.thy ===== *)
theory Worker_Pool
  imports Legacy_Queue
begin

text \<open>
  The process-local worker pool (\<^verbatim>\<open>src/internal/worker/pool.go\<close>) as a state machine: the state
  holds the queue, the optional store, the counters and where each goroutine stands, and each
  step is what one goroutine does between two synchronisations. The order of the steps is the
  interleaving. A send on the full channel waits: the step that completes it is not enabled.
\<close>

section \<open>State\<close>

text \<open>Where a worker stands: before \<^verbatim>\<open>Dequeue\<close>, in the handler, asleep before an in-memory retry,
  at the channel send of a retry or of a child (with the completed parent and the children
  left), between children, before \<^verbatim>\<open>checkDone\<close>, or gone.\<close>

datatype worker_state =
    WIdle
  | WHandling job
  | WSleeping job
  | WSendRetry job queued
  | WSendChild job job queued "job list"
  | WSpawning job "job list"
  | WChecking
  | WExited

text \<open>The poller: not started, in the \<^verbatim>\<open>select\<close> of \<^verbatim>\<open>pollLoop\<close>, in the loop of \<^verbatim>\<open>dispatchReady\<close>,
  at the channel send of an acquired job, or gone.\<close>

datatype poller_state = PNone | PTicking | PDispatching | PSending job | PExited

record pool =
  pl_queue :: queue
  pl_store :: "db option"
  pl_dlq :: "dlq_entry list option"
  pl_inFlight :: int
  pl_counted :: "string list"
  pl_done :: bool
  pl_started :: bool
  pl_stopping :: bool
  pl_workers :: "worker_state list"
  pl_senders :: "(job \<times> queued) list"
  pl_poller :: poller_state
  pl_size :: nat
  pl_lost :: "job list"

text \<open>\<open>pl_senders\<close> are the callers of \<^verbatim>\<open>Submit\<close> that wait at the channel. \<open>pl_lost\<close> is a record for
  the proofs: jobs the pool forgot without releasing its counter.\<close>

definition NewWithOptions :: "nat \<Rightarrow> queue \<Rightarrow> db option \<Rightarrow> bool \<Rightarrow> pool" where
  "NewWithOptions workers q store withDLQ =
     \<lparr>pl_queue = q, pl_store = store, pl_dlq = (if withDLQ then Some [] else None),
      pl_inFlight = int (Len q), pl_counted = [], pl_done = False, pl_started = False,
      pl_stopping = False, pl_workers = [], pl_senders = [], pl_poller = PNone, pl_size = workers, pl_lost = []\<rparr>"

definition Start :: "pool \<Rightarrow> pool" where
  "Start p = (if pl_started p \<or> pl_stopping p then p
     else p\<lparr>pl_started := True, pl_poller := (if pl_store p = None then PNone else PTicking),
            pl_workers := replicate (pl_size p) WIdle\<rparr>)"

definition count_job :: "job \<Rightarrow> pool \<Rightarrow> pool" where
  "count_job j p = p\<lparr>pl_counted := List.insert (ID j) (pl_counted p), pl_inFlight := pl_inFlight p + 1\<rparr>"

definition release_job :: "job \<Rightarrow> pool \<Rightarrow> pool" where
  "release_job j p = p\<lparr>pl_counted := removeAll (ID j) (pl_counted p), pl_inFlight := pl_inFlight p - 1\<rparr>"

section \<open>Submitting from outside\<close>

definition pool_submit :: "externals \<Rightarrow> gotime \<Rightarrow> job \<Rightarrow> pool \<Rightarrow> pool" where
  "pool_submit ext now j p =
     (if pl_stopping p then p
      else case queue_prepare ext now j (pl_queue p) (pl_store p) of
        (Inl _, st) \<Rightarrow> (release_job j (count_job j p))\<lparr>pl_store := st\<rparr>
      | (Inr x, st) \<Rightarrow> (count_job j p)\<lparr>pl_store := st, pl_senders := pl_senders p @ [(j, x)]\<rparr>)"

definition sender_step :: "nat \<Rightarrow> pool \<Rightarrow> pool" where
  "sender_step i p =
     (if length (pl_senders p) \<le> i then p
      else
        let (j, x) = pl_senders p ! i;
            rest = take i (pl_senders p) @ drop (Suc i) (pl_senders p)
        in case channel_send x (pl_queue p) of
          None \<Rightarrow> p
        | Some (Inr q) \<Rightarrow> p\<lparr>pl_queue := q, pl_senders := rest\<rparr>
        | Some (Inl _) \<Rightarrow> (release_job j p)\<lparr>pl_senders := rest\<rparr>)"

section \<open>Workers\<close>

definition set_worker :: "nat \<Rightarrow> worker_state \<Rightarrow> pool \<Rightarrow> pool" where
  "set_worker i w p = p\<lparr>pl_workers := (pl_workers p)[i := w]\<rparr>"

definition lose :: "job \<Rightarrow> pool \<Rightarrow> pool" where
  "lose j p = p\<lparr>pl_lost := j # pl_lost p\<rparr>"

definition worker_dequeue :: "gotime \<Rightarrow> (string \<Rightarrow> bool) \<Rightarrow> nat \<Rightarrow> pool \<Rightarrow> pool" where
  "worker_dequeue now locked i p =
     (case dequeue_turn now locked (pl_queue p) (pl_store p) of
        (Got j, q, st) \<Rightarrow> set_worker i (WHandling (j\<lparr>Status := StatusRunning\<rparr>))
           (p\<lparr>pl_queue := q, pl_store := st, pl_counted := List.insert (ID j) (pl_counted p)\<rparr>)
      | (Stop, q, st) \<Rightarrow> set_worker i WExited (p\<lparr>pl_queue := q, pl_store := st\<rparr>)
      | (_, q, st) \<Rightarrow> p\<lparr>pl_queue := q, pl_store := st\<rparr>)"

text \<open>The handler failed: retry while attempts are left, dead-letter otherwise.\<close>

definition worker_failed :: "externals \<Rightarrow> gotime \<Rightarrow> duration \<Rightarrow> nat \<Rightarrow> job \<Rightarrow> string \<Rightarrow> pool \<Rightarrow> pool" where
  "worker_failed ext now delay i j0 err p =
     (let j = j0\<lparr>Attempts := Attempts j0 + 1\<rparr>
      in if Attempts j < MaxAttempts j then
           (case pl_store p of
              Some d \<Rightarrow>
                (let j' = j\<lparr>ScheduledAt := now + delay\<rparr>
                 in set_worker i WIdle
                      (case RetryJob j' d of Inl _ \<Rightarrow> lose j' p | Inr d' \<Rightarrow> p\<lparr>pl_store := Some d'\<rparr>))
            | None \<Rightarrow> set_worker i (WSleeping j) p)
         else
           let dead = j\<lparr>Status := StatusDeadLettered\<rparr>;
               p1 = (case pl_dlq p of
                       Some es \<Rightarrow>
                         (let (es', st) = Publish ext now dead err (es, pl_store p)
                          in p\<lparr>pl_dlq := Some es', pl_store := st\<rparr>)
                     | None \<Rightarrow>
                         (case pl_store p of
                            None \<Rightarrow> p
                          | Some d \<Rightarrow> (case DeadLetterJob ext now dead err d of Inl _ \<Rightarrow> p | Inr d' \<Rightarrow> p\<lparr>pl_store := Some d'\<rparr>)))
           in set_worker i WChecking (release_job dead p1))"

definition worker_completed :: "nat \<Rightarrow> job \<Rightarrow> job list \<Rightarrow> pool \<Rightarrow> pool" where
  "worker_completed i j newJobs p =
     set_worker i (WSpawning (j\<lparr>Status := StatusCompleted\<rparr>) newJobs)
       (case pl_store p of
          None \<Rightarrow> p
        | Some d \<Rightarrow> (case CompleteJob (ID j) d of Inl _ \<Rightarrow> p | Inr d' \<Rightarrow> p\<lparr>pl_store := Some d'\<rparr>))"

datatype pool_error = ErrShuttingDown | SubmitFailed queue_error

definition persistChildForDispatch :: "externals \<Rightarrow> gotime \<Rightarrow> job \<Rightarrow> pool \<Rightarrow> pool_error option \<times> pool" where
  "persistChildForDispatch ext now j p =
     (if pl_stopping p then (Some ErrShuttingDown, p)
      else case Persist ext now j (pl_store p) of
        (None, st) \<Rightarrow> (None, (count_job j p)\<lparr>pl_store := st\<rparr>)
      | (Some err, st) \<Rightarrow> (Some (SubmitFailed err), (release_job j (count_job j p))\<lparr>pl_store := st\<rparr>))"

definition checkDone :: "pool \<Rightarrow> pool" where
  "checkDone p = p\<lparr>pl_done := pl_done p \<or> pl_inFlight p = 0\<rparr>"

text \<open>\<^verbatim>\<open>submitChild\<close>: while the pool accepts work, a child is persisted for the poller (with a
  store) or sent to the queue; once it is stopping, it is only persisted.\<close>

definition submitChild :: "externals \<Rightarrow> gotime \<Rightarrow> nat \<Rightarrow> job \<Rightarrow> job \<Rightarrow> job list \<Rightarrow> pool \<Rightarrow> pool" where
  "submitChild ext now i parent c rest p =
     (if \<not> pl_stopping p then
        (case pl_store p of
           Some d \<Rightarrow> set_worker i (WSpawning parent rest) (snd (persistChildForDispatch ext now c p))
         | None \<Rightarrow>
             (case queue_prepare ext now c (pl_queue p) None of
                (Inl ErrClosed, _) \<Rightarrow> set_worker i (WSpawning parent rest)
                  ((release_job c (count_job c p))\<lparr>pl_store := snd (Persist ext now c None)\<rparr>)
              | (Inl _, _) \<Rightarrow> set_worker i (WSpawning parent rest) (release_job c (count_job c p))
              | (Inr x, _) \<Rightarrow> set_worker i (WSendChild parent c x rest) (count_job c p)))
      else set_worker i (WSpawning parent rest) (p\<lparr>pl_store := snd (Persist ext now c (pl_store p))\<rparr>))"

datatype worker_event =
    Dequeue gotime "string \<Rightarrow> bool"
  | Handled gotime duration "string + job list"
  | Proceed gotime

fun worker_step :: "externals \<Rightarrow> nat \<Rightarrow> worker_event \<Rightarrow> pool \<Rightarrow> pool" where
  "worker_step ext i (Dequeue now locked) p =
     (if i < length (pl_workers p) \<and> pl_workers p ! i = WIdle then worker_dequeue now locked i p else p)"
| "worker_step ext i (Handled now delay outcome) p =
     (if length (pl_workers p) \<le> i then p
      else case pl_workers p ! i of
        WHandling j \<Rightarrow>
          (case outcome of Inl err \<Rightarrow> worker_failed ext now delay i j err p | Inr newJobs \<Rightarrow> worker_completed i j newJobs p)
      | _ \<Rightarrow> p)"
| "worker_step ext i (Proceed now) p =
     (if length (pl_workers p) \<le> i then p
      else case pl_workers p ! i of
        WSleeping j \<Rightarrow>
          (case queue_prepare ext now j (pl_queue p) (pl_store p) of
             (Inl _, st) \<Rightarrow> set_worker i WIdle (lose j (p\<lparr>pl_store := st\<rparr>))
           | (Inr x, st) \<Rightarrow> set_worker i (WSendRetry j x) (p\<lparr>pl_store := st\<rparr>))
      | WSendRetry j x \<Rightarrow>
          (case channel_send x (pl_queue p) of
             None \<Rightarrow> p
           | Some (Inr q) \<Rightarrow> set_worker i WIdle (p\<lparr>pl_queue := q\<rparr>)
           | Some (Inl _) \<Rightarrow> set_worker i WIdle (lose j p))
      | WSendChild parent c x rest \<Rightarrow>
          (case channel_send x (pl_queue p) of
             None \<Rightarrow> p
           | Some (Inr q) \<Rightarrow> set_worker i (WSpawning parent rest) (p\<lparr>pl_queue := q\<rparr>)
           | Some (Inl _) \<Rightarrow> set_worker i (WSpawning parent rest)
               ((release_job c p)\<lparr>pl_store := snd (Persist ext now c (pl_store p))\<rparr>))
      | WSpawning parent (c # rest) \<Rightarrow> submitChild ext now i parent c rest p
      | WSpawning parent [] \<Rightarrow> set_worker i WChecking (release_job parent p)
      | WChecking \<Rightarrow> set_worker i WIdle (checkDone p)
      | _ \<Rightarrow> p)"

section \<open>Poller and shutdown\<close>

text \<open>\<^verbatim>\<open>pollLoop\<close>: a tick starts \<^verbatim>\<open>dispatchReady\<close>; the context, the stop signal or \<^verbatim>\<open>done\<close> end it. When
  several are ready the \<^verbatim>\<open>select\<close> takes either, which the event says.\<close>

datatype poller_event = Tick | Quit bool | PollerTurn gotime "string \<Rightarrow> bool"

definition pollLoop :: "poller_event \<Rightarrow> pool \<Rightarrow> pool" where
  "pollLoop e p =
     (case (pl_poller p, e) of
        (PTicking, Tick) \<Rightarrow> p\<lparr>pl_poller := PDispatching\<rparr>
      | (PTicking, Quit ctxDone) \<Rightarrow>
          if ctxDone \<or> pl_stopping p \<or> pl_done p then p\<lparr>pl_poller := PExited\<rparr> else p
      | _ \<Rightarrow> p)"

text \<open>One turn of \<^verbatim>\<open>dispatchReady\<close>: acquire a due row and count it unless it is counted already, or
  complete the send of the row acquired before.\<close>

definition dispatchReady :: "gotime \<Rightarrow> (string \<Rightarrow> bool) \<Rightarrow> pool \<Rightarrow> pool" where
  "dispatchReady now locked p =
     (case pl_poller p of
        PDispatching \<Rightarrow>
          if pl_stopping p then p\<lparr>pl_poller := PTicking\<rparr>
          else (case pl_store p of
              None \<Rightarrow> p\<lparr>pl_poller := PTicking\<rparr>
            | Some d \<Rightarrow>
                (case AcquireJob now locked d of
                   (None, d') \<Rightarrow> p\<lparr>pl_store := Some d', pl_poller := PTicking\<rparr>
                 | (Some j, d') \<Rightarrow>
                     (if ID j \<in> set (pl_counted p) then p else count_job j p)
                       \<lparr>pl_store := Some d', pl_poller := PSending j\<rparr>))
      | PSending j \<Rightarrow>
          (case DispatchAcquired j (pl_queue p) of
             None \<Rightarrow> p
           | Some (Inr q) \<Rightarrow> p\<lparr>pl_queue := q, pl_poller := PDispatching\<rparr>
           | Some (Inl _) \<Rightarrow> (lose j p)\<lparr>pl_poller := PTicking\<rparr>)
      | _ \<Rightarrow> p)"

fun poller_step :: "poller_event \<Rightarrow> pool \<Rightarrow> pool" where
  "poller_step (PollerTurn now locked) p = dispatchReady now locked p"
| "poller_step e p = pollLoop e p"

definition Shutdown_begin :: "pool \<Rightarrow> pool" where
  "Shutdown_begin p = p\<lparr>pl_stopping := True\<rparr>"

text \<open>The goroutine of \<^verbatim>\<open>Shutdown\<close> closes the queue once the poller is gone and no submission is
  under way.\<close>

definition Shutdown_close :: "pool \<Rightarrow> pool" where
  "Shutdown_close p =
     (if pl_stopping p \<and> pl_senders p = [] \<and> pl_poller p \<in> {PNone, PExited} \<and>
         list_all (\<lambda>w. case w of WSendChild _ _ _ _ \<Rightarrow> False | _ \<Rightarrow> True) (pl_workers p)
      then p\<lparr>pl_queue := Close (pl_queue p)\<rparr> else p)"

datatype pool_event =
    PoolSubmit gotime job
  | PoolStart
  | SenderStep nat
  | WorkerStep nat worker_event
  | PollerStep poller_event
  | ShutdownBegin
  | ShutdownClose

fun pool_step :: "externals \<Rightarrow> pool_event \<Rightarrow> pool \<Rightarrow> pool" where
  "pool_step ext (PoolSubmit now j) p = pool_submit ext now j p"
| "pool_step ext PoolStart p = Start p"
| "pool_step ext (SenderStep i) p = sender_step i p"
| "pool_step ext (WorkerStep i e) p = worker_step ext i e p"
| "pool_step ext (PollerStep e) p = poller_step e p"
| "pool_step ext ShutdownBegin p = Shutdown_begin p"
| "pool_step ext ShutdownClose p = Shutdown_close p"

definition pool_run :: "externals \<Rightarrow> pool_event list \<Rightarrow> pool \<Rightarrow> pool" where
  "pool_run ext es p = fold (pool_step ext) es p"

text \<open>The way the sources use a pool: submit the seeds, start, run.\<close>

definition seeded :: "externals \<Rightarrow> gotime \<Rightarrow> job list \<Rightarrow> pool \<Rightarrow> pool" where
  "seeded ext now js p = Start (fold (pool_submit ext now) js p)"

end
