(* ===== verification/Pool_Properties.thy ===== *)
theory Pool_Properties
  imports Worker_Pool
begin

text \<open>
  When a pool's \<^verbatim>\<open>Done\<close> channel closes. Without a store the counter equals the work that is left in
  every interleaving, so \<^verbatim>\<open>Done\<close> closes exactly when the traversal is finished; with a store a
  signal can acquire a row the counter does not include.
\<close>

section \<open>The work that is left\<close>

fun weight :: "worker_state \<Rightarrow> int" where
  "weight (WHandling _) = 1"
| "weight (WSleeping _) = 1"
| "weight (WSendRetry _ _) = 1"
| "weight (WSendChild _ _ _ _) = 2"
| "weight (WSpawning _ _) = 1"
| "weight _ = 0"

definition workers_weight :: "worker_state list \<Rightarrow> int" where
  "workers_weight ws = sum_list (map weight ws)"

definition work_left :: "pool \<Rightarrow> int" where
  "work_left p = int (length (q_ch (pl_queue p))) + int (length (pl_senders p)) +
     workers_weight (pl_workers p) + int (length (pl_lost p))"

lemma weight_nonneg: "0 \<le> weight w"
  by (cases w) simp_all

lemma workers_weight_nonneg: "0 \<le> workers_weight ws"
  by (induction ws) (simp_all add: workers_weight_def weight_nonneg)

lemma workers_weight_update [simp]:
  "i < length ws \<Longrightarrow> workers_weight (ws[i := w]) = workers_weight ws - weight (ws ! i) + weight w"
  unfolding workers_weight_def
proof (induction ws arbitrary: i)
  case (Cons v vs)
  then show ?case by (cases i) simp_all
qed simp

lemma workers_weight_Cons: "workers_weight (w # ws) = weight w + workers_weight ws"
  by (simp add: workers_weight_def)

lemma workers_weight_zero: "workers_weight ws = 0 \<longleftrightarrow> (\<forall>w\<in>set ws. weight w = 0)"
proof (induction ws)
  case (Cons w ws)
  have "weight w + workers_weight ws = 0 \<longleftrightarrow> weight w = 0 \<and> workers_weight ws = 0"
    by (rule add_nonneg_eq_0_iff [OF weight_nonneg workers_weight_nonneg])
  with Cons show ?case by (simp add: workers_weight_Cons)
qed (simp add: workers_weight_def)

lemma work_left_nonneg: "0 \<le> work_left p"
  using workers_weight_nonneg [of "pl_workers p"] by (simp add: work_left_def)

lemma work_left_zero:
  "work_left p = 0 \<longleftrightarrow> q_ch (pl_queue p) = [] \<and> pl_senders p = [] \<and>
     (\<forall>w\<in>set (pl_workers p). weight w = 0) \<and> pl_lost p = []"
proof -
  have "work_left p = 0 \<longleftrightarrow> length (q_ch (pl_queue p)) = 0 \<and> length (pl_senders p) = 0 \<and>
      workers_weight (pl_workers p) = 0 \<and> length (pl_lost p) = 0"
    using workers_weight_nonneg [of "pl_workers p"] unfolding work_left_def by linarith
  then show ?thesis by (simp add: workers_weight_zero)
qed

section \<open>Every step balances the counter\<close>

text \<open>What a step of a pool without a store keeps.\<close>

definition balanced :: "pool \<Rightarrow> bool" where
  "balanced p \<longleftrightarrow> pl_store p = None \<and> pl_poller p = PNone \<and> pl_inFlight p = work_left p \<and>
     (pl_done p \<longrightarrow> work_left p = 0) \<and> (q_closed (pl_queue p) \<longrightarrow> pl_stopping p \<and> pl_senders p = [])"

text \<open>\<^verbatim>\<open>checkDone\<close> is never missed: with nothing left, \<^verbatim>\<open>done\<close> is closed or a worker is about to look.\<close>

definition noticed :: "pool \<Rightarrow> bool" where
  "noticed p \<longleftrightarrow> (work_left p = 0 \<longrightarrow> pl_done p \<or> WChecking \<in> set (pl_workers p))"

lemmas pool_defs = work_left_def set_worker_def lose_def count_job_def release_job_def

lemma sender_step_balanced:
  assumes "balanced p" "noticed p"
  shows "balanced (sender_step i p) \<and> noticed (sender_step i p)"
proof (cases "i < length (pl_senders p)")
  case True
  obtain j x where jx: "pl_senders p ! i = (j, x)" by fastforce
  from True have open_q: "\<not> q_closed (pl_queue p)" using assms(1) by (auto simp: balanced_def)
  have nd: "\<not> pl_done p"
    using assms(1) True work_left_zero [of p] by (auto simp: balanced_def)
  show ?thesis
  proof (cases "length (q_ch (pl_queue p)) < q_cap (pl_queue p)")
    case True
    have 1: "sender_step i p = p\<lparr>pl_queue := pl_queue p\<lparr>q_ch := q_ch (pl_queue p) @ [x]\<rparr>,
        pl_senders := take i (pl_senders p) @ drop (Suc i) (pl_senders p)\<rparr>" (is "_ = ?p'")
      using True \<open>i < length (pl_senders p)\<close> open_q jx by (simp add: sender_step_def channel_send_def Let_def)
    have 2: "work_left ?p' = work_left p" using \<open>i < length (pl_senders p)\<close> by (simp add: work_left_def)
    show ?thesis unfolding 1 balanced_def noticed_def 2
      using assms open_q nd by (simp add: balanced_def noticed_def)
  qed (use True assms open_q jx in \<open>simp add: sender_step_def channel_send_def Let_def\<close>)
qed (use assms in \<open>simp add: sender_step_def\<close>)

text \<open>A worker that holds work keeps the pool going, wherever it moves to.\<close>

lemma working_not_done:
  assumes "balanced p" "i < length (pl_workers p)" "weight (pl_workers p ! i) \<noteq> 0"
  shows "\<not> pl_done p"
proof -
  have "pl_workers p ! i \<in> set (pl_workers p)" using assms(2) by simp
  then have "work_left p \<noteq> 0" using assms(3) work_left_zero [of p] by auto
  with assms(1) show ?thesis by (simp add: balanced_def)
qed

lemma worker_moves:
  assumes "balanced p" "i < length (pl_workers p)" "weight (pl_workers p ! i) \<noteq> 0"
    and "pl_workers p' = (pl_workers p)[i := w]"
    and "pl_store p' = None" "pl_poller p' = pl_poller p" "pl_done p' = pl_done p"
    and "q_closed (pl_queue p') = q_closed (pl_queue p)" "pl_stopping p' = pl_stopping p" "pl_senders p' = pl_senders p"
    and "pl_inFlight p' - pl_inFlight p = work_left p' - work_left p"
    and "weight w \<noteq> 0 \<or> w = WChecking \<or> q_ch (pl_queue p') \<noteq> [] \<or> pl_lost p' \<noteq> []"
  shows "balanced p' \<and> noticed p'"
proof -
  have nd: "\<not> pl_done p" by (rule working_not_done [OF assms(1-3)])
  have mem: "w \<in> set (pl_workers p')" using assms(2,4) by (simp add: set_update_memI)
  have "noticed p'" using assms(12) mem work_left_zero [of p'] by (auto simp: noticed_def)
  moreover have "balanced p'" using assms(1,5-11) nd by (simp add: balanced_def)
  ultimately show ?thesis by blast
qed

lemma worker_failed_balanced:
  assumes "balanced p" "i < length (pl_workers p)" "pl_workers p ! i = WHandling j"
  shows "balanced (worker_failed ext now delay i j err p) \<and> noticed (worker_failed ext now delay i j err p)"
proof -
  have st: "pl_store p = None" using assms(1) by (simp add: balanced_def)
  show ?thesis
  proof (cases "Attempts j + 1 < MaxAttempts j")
    case True
    show ?thesis
      by (rule worker_moves [OF assms(1,2), where w = "WSleeping (j\<lparr>Attempts := Attempts j + 1\<rparr>)"])
        (use True st assms(2,3) in \<open>simp_all add: worker_failed_def pool_defs\<close>)
  next
    case False
    show ?thesis
      by (rule worker_moves [OF assms(1,2), where w = WChecking])
        (use False st assms(2,3) in \<open>simp_all add: worker_failed_def pool_defs Publish_def Let_def split: option.split\<close>)
  qed
qed

lemma worker_completed_balanced:
  assumes "balanced p" "i < length (pl_workers p)" "pl_workers p ! i = WHandling j"
  shows "balanced (worker_completed i j newJobs p) \<and> noticed (worker_completed i j newJobs p)"
proof -
  have st: "pl_store p = None" using assms(1) by (simp add: balanced_def)
  show ?thesis
    by (rule worker_moves [OF assms(1,2), where w = "WSpawning (j\<lparr>Status := StatusCompleted\<rparr>) newJobs"])
      (use st assms(2,3) in \<open>simp_all add: worker_completed_def pool_defs\<close>)
qed

lemma submitChild_balanced:
  assumes "balanced p" "i < length (pl_workers p)" "pl_workers p ! i = WSpawning parent (c # rest)"
  shows "balanced (submitChild ext now i parent c rest p) \<and> noticed (submitChild ext now i parent c rest p)"
proof -
  have st: "pl_store p = None" using assms(1) by (simp add: balanced_def)
  have cl: "q_closed (pl_queue p) \<Longrightarrow> pl_stopping p" using assms(1) by (simp add: balanced_def)
  show ?thesis
  proof (cases "pl_stopping p")
    case True
    show ?thesis
      by (rule worker_moves [OF assms(1,2), where w = "WSpawning parent rest"])
        (use True st assms(2,3) in \<open>simp_all add: submitChild_def pool_defs Persist_def\<close>)
  next
    case False
    then have "\<not> q_closed (pl_queue p)" using cl by blast
    with False st assms(2,3) show ?thesis
      by (intro worker_moves [OF assms(1,2), where w = "WSendChild parent c (Item c) rest"])
        (simp_all add: submitChild_def pool_defs queue_prepare_def)
  qed
qed

lemma dequeue_balanced:
  assumes "balanced p" "noticed p" "i < length (pl_workers p)" "pl_workers p ! i = WIdle"
  shows "balanced (worker_dequeue now locked i p) \<and> noticed (worker_dequeue now locked i p)"
proof (cases "q_ch (pl_queue p)")
  case Nil
  have keep: "WChecking \<in> set (pl_workers p) \<Longrightarrow> WChecking \<in> set ((pl_workers p)[i := WExited])"
    using assms(3,4) by (metis in_set_conv_nth length_list_update nth_list_update_neq worker_state.distinct(11))
  from Nil assms keep show ?thesis
    by (auto simp: worker_dequeue_def dequeue_turn_def pool_defs balanced_def noticed_def)
next
  case (Cons x xs)
  then have "work_left p \<noteq> 0" using work_left_zero [of p] by simp
  then have nd: "\<not> pl_done p" using assms(1) by (auto simp: balanced_def)
  let ?p' = "worker_dequeue now locked i p" and ?j = "case x of Item j \<Rightarrow> j | Signal \<Rightarrow> empty_job"
  have st: "pl_store p = None" using assms(1) by (simp add: balanced_def)
  have p': "?p' = set_worker i (WHandling (?j\<lparr>Status := StatusRunning\<rparr>))
      (p\<lparr>pl_queue := pl_queue p\<lparr>q_ch := xs\<rparr>, pl_store := None, pl_counted := List.insert (ID ?j) (pl_counted p)\<rparr>)"
    using Cons st by (simp add: worker_dequeue_def dequeue_turn_def)
  have wl: "work_left ?p' = work_left p" using assms(3,4) Cons by (simp add: p' pool_defs)
  show ?thesis using assms(1) nd \<open>work_left p \<noteq> 0\<close>
    unfolding balanced_def noticed_def wl by (simp add: p' set_worker_def)
qed

lemma resend_balanced:
  assumes "balanced p" "noticed p" "i < length (pl_workers p)" "pl_workers p ! i = WSleeping j \<or> pl_workers p ! i = WSendRetry j x"
  shows "balanced (worker_step ext i (Proceed now) p) \<and> noticed (worker_step ext i (Proceed now) p)"
proof -
  have st: "pl_store p = None" using assms(1) by (simp add: balanced_def)
  from assms(4) show ?thesis
  proof
    assume w: "pl_workers p ! i = WSleeping j"
    let ?w = "if q_closed (pl_queue p) then WIdle else WSendRetry j (Item j)"
    show ?thesis
      by (rule worker_moves [OF assms(1,3), where w = ?w])
        (use st w assms(3) in \<open>simp_all add: pool_defs queue_prepare_def\<close>)
  next
    assume w: "pl_workers p ! i = WSendRetry j x"
    show ?thesis
    proof (cases "\<not> q_closed (pl_queue p) \<and> \<not> length (q_ch (pl_queue p)) < q_cap (pl_queue p)")
      case True
      then show ?thesis using w assms by (simp add: channel_send_def)
    next
      case False
      show ?thesis
        by (rule worker_moves [OF assms(1,3), where w = WIdle])
          (use False st w assms(3) in \<open>auto simp: pool_defs channel_send_def\<close>)
    qed
  qed
qed

lemma send_child_balanced:
  assumes "balanced p" "noticed p" "i < length (pl_workers p)" "pl_workers p ! i = WSendChild parent c x rest"
  shows "balanced (worker_step ext i (Proceed now) p) \<and> noticed (worker_step ext i (Proceed now) p)"
proof (cases "\<not> q_closed (pl_queue p) \<and> \<not> length (q_ch (pl_queue p)) < q_cap (pl_queue p)")
  case True
  then show ?thesis using assms by (simp add: channel_send_def)
next
  case False
  have st: "pl_store p = None" using assms(1) by (simp add: balanced_def)
  show ?thesis
    by (rule worker_moves [OF assms(1,3), where w = "WSpawning parent rest"])
      (use False st assms(3,4) in \<open>auto simp: pool_defs channel_send_def Persist_def\<close>)
qed

lemma check_balanced:
  assumes "balanced p" "noticed p" "i < length (pl_workers p)" "pl_workers p ! i = WChecking"
  shows "balanced (worker_step ext i (Proceed now) p) \<and> noticed (worker_step ext i (Proceed now) p)"
proof -
  have 1: "worker_step ext i (Proceed now) p = set_worker i WIdle (checkDone p)"
    using assms(3,4) by simp
  have 2: "work_left (set_worker i WIdle (checkDone p)) = work_left p"
    using assms(3,4) by (simp add: pool_defs checkDone_def)
  show ?thesis unfolding 1 balanced_def noticed_def 2
    using assms(1) by (auto simp: balanced_def set_worker_def checkDone_def)
qed

lemma proceed_balanced:
  assumes "balanced p" "noticed p"
  shows "balanced (worker_step ext i (Proceed now) p) \<and> noticed (worker_step ext i (Proceed now) p)"
proof (cases "i < length (pl_workers p)")
  case True
  note resend = resend_balanced [OF assms True, of _ _ ext now] and child = send_child_balanced [OF assms True, of _ _ _ _ ext now]
    and check = check_balanced [OF assms True, of ext now]
  show ?thesis
  proof (cases "pl_workers p ! i")
    case (WSpawning parent cs)
    show ?thesis
    proof (cases cs)
      case Nil
      show ?thesis
        by (rule worker_moves [OF assms(1) True, where w = WChecking])
          (use WSpawning Nil True assms(1) in \<open>simp_all add: pool_defs balanced_def\<close>)
    next
      case (Cons c rest)
      with WSpawning True submitChild_balanced [OF assms(1) True, of parent c rest ext now] show ?thesis by simp
    qed
  qed (use assms True resend child check in auto)
qed (use assms in simp)

theorem pool_step_balanced:
  assumes "balanced p" "noticed p" and "\<And>now j. e \<noteq> PoolSubmit now j" and "pl_started p"
  shows "balanced (pool_step ext e p) \<and> noticed (pool_step ext e p)"
proof (cases e)
  case (WorkerStep i ev)
  show ?thesis
  proof (cases ev)
    case (Handled now delay outcome)
    show ?thesis
    proof (cases "\<exists>j. i < length (pl_workers p) \<and> pl_workers p ! i = WHandling j")
      case True
      then obtain j where j: "i < length (pl_workers p)" "pl_workers p ! i = WHandling j" by blast
      show ?thesis
        using j worker_failed_balanced [OF assms(1) j, of ext now delay] worker_completed_balanced [OF assms(1) j]
        by (cases outcome) (simp_all add: WorkerStep Handled)
    next
      case False
      then have "worker_step ext i (Handled now delay outcome) p = p" by (auto split: worker_state.split)
      with assms show ?thesis by (simp add: WorkerStep Handled)
    qed
  qed (use assms(1,2) WorkerStep dequeue_balanced [OF assms(1,2)] proceed_balanced [OF assms(1,2)] in auto)
next
  case (PollerStep pe)
  have "poller_step pe p = p"
    using assms(1) by (cases pe) (simp_all add: balanced_def pollLoop_def dispatchReady_def)
  with assms PollerStep show ?thesis by simp
next
  case ShutdownClose
  with assms show ?thesis by (auto simp: Shutdown_close_def Close_def balanced_def noticed_def work_left_def)
qed (use assms sender_step_balanced [OF assms(1,2)] in
    \<open>auto simp: Start_def Shutdown_begin_def balanced_def noticed_def work_left_def\<close>)

section \<open>Runs\<close>

lemma pool_updates_started [simp]:
  "pl_started (set_worker i w p) = pl_started p" "pl_started (lose j p) = pl_started p"
  "pl_started (count_job j p) = pl_started p" "pl_started (release_job j p) = pl_started p"
  by (simp_all add: pool_defs)

lemma worker_step_started: "pl_started (worker_step ext i e p) = pl_started p"
proof (cases e)
  case (Handled now delay outcome)
  then show ?thesis
    by (auto simp: worker_failed_def worker_completed_def Let_def split: worker_state.split sum.split option.split prod.split)
next
  case (Proceed now)
  then show ?thesis
    by (auto simp: submitChild_def persistChildForDispatch_def checkDone_def split: worker_state.split sum.split option.split prod.split list.split queue_error.split)
qed (auto simp: worker_dequeue_def split: prod.split dequeued.split)

lemma pool_step_started: "pl_started p \<Longrightarrow> pl_started (pool_step ext e p)"
proof (cases e)
  case (PollerStep pe)
  assume "pl_started p"
  then show ?thesis using PollerStep
    by (cases pe) (auto simp: pollLoop_def dispatchReady_def lose_def count_job_def
      split: poller_state.split option.split prod.split sum.split)
qed (auto simp: worker_step_started pool_submit_def Start_def sender_step_def Shutdown_begin_def Shutdown_close_def Let_def
      split: prod.split sum.split option.split)

text \<open>No caller submits once the pool runs: the handlers' children are the only new work.\<close>

definition no_submit :: "pool_event \<Rightarrow> bool" where
  "no_submit e = (case e of PoolSubmit _ _ \<Rightarrow> False | _ \<Rightarrow> True)"

lemma pool_run_balanced:
  assumes "balanced p" "noticed p" "pl_started p" "list_all no_submit es"
  shows "balanced (pool_run ext es p) \<and> noticed (pool_run ext es p)"
  using assms
proof (induction es arbitrary: p)
  case (Cons e es)
  from Cons.prems(4) have e: "e \<noteq> PoolSubmit now j" for now j by (auto simp: no_submit_def)
  from pool_step_balanced [OF Cons.prems(1,2) e Cons.prems(3)] pool_step_started [OF Cons.prems(3)] Cons.prems(4)
  show ?case using Cons.IH [of "pool_step ext e p"] by (simp add: pool_run_def)
qed (simp add: pool_run_def)

text \<open>A pool without a store over an empty queue, its seeds waiting at the channel.\<close>

definition memory_pool :: "externals \<Rightarrow> gotime \<Rightarrow> nat \<Rightarrow> nat \<Rightarrow> bool \<Rightarrow> job list \<Rightarrow> pool" where
  "memory_pool ext now workers bufferSize withDLQ js =
     seeded ext now js (NewWithOptions workers (fst (New now bufferSize None)) None withDLQ)"

lemma submits_in_memory:
  assumes "pl_store p = None" "\<not> pl_stopping p" "\<not> q_closed (pl_queue p)"
  shows "fold (pool_submit ext now) js p =
    p\<lparr>pl_counted := fold (\<lambda>j. List.insert (ID j)) js (pl_counted p), pl_inFlight := pl_inFlight p + int (length js),
      pl_senders := pl_senders p @ map (\<lambda>j. (j, Item j)) js\<rparr>"
  using assms
proof (induction js arbitrary: p)
  case (Cons j js)
  then show ?case by (simp add: pool_submit_def queue_prepare_def count_job_def)
qed simp

lemma memory_pool_balanced:
  assumes "js \<noteq> []"
  shows "balanced (memory_pool ext now workers bufferSize withDLQ js) \<and>
    noticed (memory_pool ext now workers bufferSize withDLQ js) \<and>
    pl_started (memory_pool ext now workers bufferSize withDLQ js)"
proof -
  have z: "workers_weight (replicate workers WIdle) = 0" by (auto simp: workers_weight_zero)
  show ?thesis
    unfolding memory_pool_def seeded_def Start_def
    using assms by (simp add: submits_in_memory NewWithOptions_def New_def Len_def balanced_def noticed_def work_left_def z)
qed

lemma memory_run:
  assumes "js \<noteq> []" "list_all no_submit es"
  shows "balanced (pool_run ext es (memory_pool ext now workers bufferSize withDLQ js)) \<and>
    noticed (pool_run ext es (memory_pool ext now workers bufferSize withDLQ js))"
  using memory_pool_balanced [OF assms(1)] assms(2) by (intro pool_run_balanced) blast+

section \<open>Shutdown\<close>

text \<open>A worker leaves only when the queue is closed and drained, and the queue is closed only when no
  submission is under way.\<close>

definition shut_ok :: "pool \<Rightarrow> bool" where
  "shut_ok p \<longleftrightarrow> (WExited \<in> set (pl_workers p) \<longrightarrow> q_closed (pl_queue p) \<and> q_ch (pl_queue p) = []) \<and>
     (q_closed (pl_queue p) \<longrightarrow> pl_stopping p \<and> pl_senders p = [])"

lemma shut_frames [simp]:
  "shut_ok (p\<lparr>pl_store := st\<rparr>) = shut_ok p" "shut_ok (p\<lparr>pl_dlq := es\<rparr>) = shut_ok p"
  "shut_ok (p\<lparr>pl_done := b\<rparr>) = shut_ok p" "shut_ok (p\<lparr>pl_poller := x\<rparr>) = shut_ok p"
  "shut_ok (count_job j p) = shut_ok p" "shut_ok (release_job j p) = shut_ok p" "shut_ok (lose j p) = shut_ok p"
  "shut_ok (checkDone p) = shut_ok p" "shut_ok (p\<lparr>pl_counted := c\<rparr>) = shut_ok p"
  by (simp_all add: shut_ok_def count_job_def release_job_def lose_def checkDone_def)

lemma shut_worker: "shut_ok p \<Longrightarrow> w \<noteq> WExited \<Longrightarrow> shut_ok (set_worker i w p)"
  using set_update_subset_insert [of "pl_workers p" i w] by (auto simp: shut_ok_def set_worker_def)

lemma shut_send: "shut_ok p \<Longrightarrow> channel_send x (pl_queue p) = Some (Inr q) \<Longrightarrow> shut_ok (p\<lparr>pl_queue := q\<rparr>)"
  by (auto simp: shut_ok_def channel_send_def split: if_splits)

lemma shut_dequeue: "shut_ok p \<Longrightarrow> shut_ok (worker_dequeue now locked i p)"
proof (cases "q_ch (pl_queue p)")
  case Nil
  assume p: "shut_ok p"
  have "set ((pl_workers p)[i := WExited]) \<subseteq> insert WExited (set (pl_workers p))" by (rule set_update_subset_insert)
  with Nil p show ?thesis by (auto simp: worker_dequeue_def dequeue_turn_def shut_ok_def set_worker_def)
next
  case (Cons x xs)
  assume p: "shut_ok p"
  with Cons have "WExited \<notin> set (pl_workers p)" by (auto simp: shut_ok_def)
  with p have "shut_ok (p\<lparr>pl_queue := (pl_queue p)\<lparr>q_ch := xs\<rparr>, pl_store := st, pl_counted := c\<rparr>)"
    and "shut_ok (p\<lparr>pl_queue := (pl_queue p)\<lparr>q_ch := xs\<rparr>, pl_store := st\<rparr>)" for st c
    by (auto simp: shut_ok_def)
  then show ?thesis
    using Cons by (auto simp: worker_dequeue_def dequeue_turn_def Let_def intro!: shut_worker
        split: option.split queued.split prod.split)
qed

lemma shut_failed: "shut_ok p \<Longrightarrow> shut_ok (worker_failed ext now delay i j err p)"
  by (auto simp: worker_failed_def Let_def intro!: shut_worker split: option.split sum.split prod.split)

lemma shut_completed: "shut_ok p \<Longrightarrow> shut_ok (worker_completed i j newJobs p)"
  by (auto simp: worker_completed_def intro!: shut_worker split: option.split sum.split)

lemma shut_child: "shut_ok p \<Longrightarrow> shut_ok (submitChild ext now i parent c rest p)"
  by (auto simp: submitChild_def persistChildForDispatch_def intro!: shut_worker
      split: option.split sum.split prod.split queue_error.split)

lemma shut_worker_step: "shut_ok p \<Longrightarrow> shut_ok (worker_step ext i e p)"
proof (cases e)
  case (Proceed now)
  assume "shut_ok p"
  with Proceed show ?thesis
    by (auto intro!: shut_worker shut_child dest: shut_send split: worker_state.split sum.split option.split prod.split list.split)
qed (auto simp: shut_dequeue intro!: shut_failed shut_completed split: worker_state.split sum.split)

lemma shut_step: "shut_ok p \<Longrightarrow> pl_started p \<Longrightarrow> shut_ok (pool_step ext e p)"
proof (cases e)
  case (PollerStep pe)
  assume "shut_ok p"
  then have "shut_ok (dispatchReady now locked p)" for now locked
    by (auto simp: dispatchReady_def DispatchAcquired_def dest: shut_send split: poller_state.split option.split sum.split prod.split)
  with \<open>shut_ok p\<close> PollerStep show ?thesis by (cases pe) (auto simp: pollLoop_def split: poller_state.split)
next
  case (SenderStep i)
  assume "shut_ok p"
  then show ?thesis using SenderStep
    by (auto simp: sender_step_def shut_ok_def channel_send_def Let_def release_job_def split: option.split sum.split prod.split)
next
  case (PoolSubmit now j)
  assume "shut_ok p"
  then show ?thesis using PoolSubmit
    by (auto simp: pool_submit_def shut_ok_def queue_prepare_def count_job_def release_job_def split: option.split sum.split prod.split)
next
  case (WorkerStep i we)
  assume "shut_ok p"
  then show ?thesis using WorkerStep shut_worker_step by simp
qed (auto simp: Start_def Shutdown_begin_def Shutdown_close_def Close_def shut_ok_def)

lemma shut_memory_pool: "shut_ok (memory_pool ext now workers bufferSize withDLQ js)"
  unfolding memory_pool_def seeded_def Start_def
  by (simp add: submits_in_memory NewWithOptions_def New_def shut_ok_def)

lemma shut_run: "shut_ok p \<Longrightarrow> pl_started p \<Longrightarrow> shut_ok (pool_run ext es p)"
proof (induction es arbitrary: p)
  case (Cons e es)
  then show ?case using shut_step [of p ext e] pool_step_started [of p ext e] by (simp add: pool_run_def)
qed (simp add: pool_run_def)

section \<open>The properties\<close>

text \<open>In every interleaving of the workers, senders and shutdown of a pool without a store, once
  \<^verbatim>\<open>Done\<close> is closed no job is queued, waits at the channel, is being handled or retried, or was
  dropped: the graph traversal is finished, as the comment on \<^verbatim>\<open>Done\<close> says.\<close>

lemma done_means_finished:
  assumes "js \<noteq> []" "list_all no_submit es"
    and "p = pool_run ext es (memory_pool ext now workers bufferSize withDLQ js)" "pl_done p"
  shows "q_ch (pl_queue p) = [] \<and> pl_senders p = [] \<and> set (pl_workers p) \<subseteq> {WIdle, WChecking, WExited} \<and> pl_lost p = []"
proof -
  from memory_run [OF assms(1,2)] assms(3,4) have "work_left p = 0" by (simp add: balanced_def)
  then have z: "q_ch (pl_queue p) = []" "pl_senders p = []" "pl_lost p = []" "\<forall>w\<in>set (pl_workers p). weight w = 0"
    by (simp_all add: work_left_zero)
  have "weight w = 0 \<Longrightarrow> w \<in> {WIdle, WChecking, WExited}" for w by (cases w) simp_all
  with z show ?thesis by blast
qed

text \<open>The completion signal is never missed. When the workers of a pool without a store have come
  to rest, nothing is queued or waiting and no job was dropped, \<^verbatim>\<open>Done\<close> is closed.\<close>

lemma finished_means_done:
  assumes "js \<noteq> []" "list_all no_submit es"
    and "p = pool_run ext es (memory_pool ext now workers bufferSize withDLQ js)"
    and "q_ch (pl_queue p) = []" "pl_senders p = []" "pl_lost p = []" "set (pl_workers p) \<subseteq> {WIdle, WExited}"
  shows "pl_done p"
proof -
  have "\<forall>w\<in>set (pl_workers p). weight w = 0" using assms(7) by auto
  then have "work_left p = 0" using assms(4-6) by (simp add: work_left_zero)
  moreover have "WChecking \<notin> set (pl_workers p)" using assms(7) by auto
  moreover have "noticed p" using memory_run [OF assms(1,2)] unfolding assms(3) by blast
  ultimately show ?thesis by (simp add: noticed_def)
qed


text \<open>When \<^verbatim>\<open>Shutdown\<close> returns without an error, every worker has left: nothing is queued or waits at the
  channel, and the counter is the number of retries that the closed queue refused.\<close>

theorem shutdown_drains:
  assumes "js \<noteq> []" "list_all no_submit es"
    and "p = pool_run ext es (memory_pool ext now workers bufferSize withDLQ js)"
    and "pl_workers p \<noteq> []" "set (pl_workers p) \<subseteq> {WExited}"
  shows "q_ch (pl_queue p) = [] \<and> pl_senders p = [] \<and> pl_inFlight p = int (length (pl_lost p)) \<and> (pl_lost p = [] \<longrightarrow> pl_done p)"
proof -
  have "pl_started (memory_pool ext now workers bufferSize withDLQ js)" using memory_pool_balanced [OF assms(1)] by blast
  then have "shut_ok p" unfolding assms(3) by (rule shut_run [OF shut_memory_pool])
  moreover have "WExited \<in> set (pl_workers p)" using assms(4,5) by (cases "pl_workers p") auto
  ultimately have empty: "q_ch (pl_queue p) = []" "pl_senders p = []" by (simp_all add: shut_ok_def)
  have "\<forall>w\<in>set (pl_workers p). weight w = 0" using assms(5) by auto
  then have "work_left p = int (length (pl_lost p))" using empty workers_weight_zero by (simp add: work_left_def)
  moreover have "pl_inFlight p = work_left p" using memory_run [OF assms(1,2)] assms(3) by (simp add: balanced_def)
  ultimately show ?thesis using empty finished_means_done [OF assms(1-3)] assms(5) by auto
qed

section \<open>A run\<close>

definition pool_ext :: externals where
  "pool_ext = \<lparr>sha256_hex = (\<lambda>s. s), jsonb_in = Some, decode_audit_row = (\<lambda>_. None), decode_child_payload = (\<lambda>_. None)\<rparr>"

definition seed_a :: job where
  "seed_a = NewJob ''a'' ''t'' ''{}''"

definition child_b :: job where
  "child_b = NewJob ''b'' ''t'' ''{}''"

text \<open>Worker 0 handles \<open>a\<close>, which finds \<open>b\<close>; worker 1 fails on \<open>b\<close> once and retries it.\<close>

definition demo_run :: "pool_event list" where
  "demo_run =
     [SenderStep 0, WorkerStep 0 (Dequeue 1 (\<lambda>_. False)), WorkerStep 0 (Handled 2 0 (Inr [child_b])),
      WorkerStep 0 (Proceed 3), WorkerStep 0 (Proceed 3), WorkerStep 1 (Dequeue 4 (\<lambda>_. False)),
      WorkerStep 0 (Proceed 5), WorkerStep 0 (Proceed 5), WorkerStep 1 (Handled 6 1 (Inl ''timeout'')),
      WorkerStep 1 (Proceed 7), WorkerStep 1 (Proceed 7), WorkerStep 0 (Dequeue 8 (\<lambda>_. False)),
      WorkerStep 0 (Handled 9 0 (Inr [])), WorkerStep 0 (Proceed 9), WorkerStep 0 (Proceed 9)]"

definition demo_pool :: pool where
  "demo_pool = pool_run pool_ext demo_run (memory_pool pool_ext 0 2 1 False [seed_a])"

lemma demo_run_ok: "list_all no_submit demo_run"
  by code_simp

lemma demo_pool_state:
  "pl_done demo_pool \<and> q_ch (pl_queue demo_pool) = [] \<and> pl_senders demo_pool = [] \<and> pl_lost demo_pool = [] \<and>
   pl_workers demo_pool = [WIdle, WIdle]"
  by code_simp


section \<open>With a store the signal can acquire an uncounted row\<close>

text \<open>A row \<open>old\<close> of an earlier process becomes due at 50. A new process opens its queue at 10, when it
  is not due, and submits \<open>a\<close> at 60: one job is counted and one signal queued. The signal acquires
  the row scheduled first, which is \<open>old\<close>; its completion brings the counter to zero and closes
  \<^verbatim>\<open>Done\<close>, the poller leaves, and \<open>a\<close> stays pending.\<close>

definition old_row_db :: db where
  "old_row_db = (case CreateJob pool_ext 0 ((NewJob ''old'' ''t'' ''{}'')\<lparr>ScheduledAt := 50\<rparr>) empty_db of
     Inr d \<Rightarrow> d | Inl _ \<Rightarrow> empty_db)"

definition store_pool :: pool where
  "store_pool = (let (q, st) = New 10 4 (Some old_row_db)
     in seeded pool_ext 60 [seed_a] (NewWithOptions 1 q st False))"

definition store_run :: "pool_event list" where
  "store_run =
     [SenderStep 0, WorkerStep 0 (Dequeue 60 (\<lambda>_. False)), WorkerStep 0 (Handled 61 0 (Inr [])),
      WorkerStep 0 (Proceed 61), WorkerStep 0 (Proceed 61), PollerStep (Quit False)]"

theorem store_pool_done_too_early:
  "let p = pool_run pool_ext store_run store_pool
   in pl_done p \<and> pl_poller p = PExited \<and> q_ch (pl_queue p) = [] \<and>
      map (\<lambda>r. (r_id r, r_status r)) (t_jobs (the (pl_store p))) = [(''old'', StatusCompleted), (''a'', StatusPending)]"
  by code_simp

text \<open>Without a store, a shutdown that closes the queue while a worker sleeps before a retry drops the
  job without releasing its count: every worker leaves and \<^verbatim>\<open>Done\<close> stays open.\<close>

definition shutdown_run :: "pool_event list" where
  "shutdown_run =
     [SenderStep 0, WorkerStep 0 (Dequeue 1 (\<lambda>_. False)), WorkerStep 0 (Handled 2 5 (Inl ''timeout'')),
      ShutdownBegin, ShutdownClose, WorkerStep 0 (Proceed 7), WorkerStep 0 (Dequeue 8 (\<lambda>_. False))]"

theorem shutdown_drops_retry:
  "let p = pool_run pool_ext shutdown_run (memory_pool pool_ext 0 1 1 False [seed_a])
   in map ID (pl_lost p) = [''a''] \<and> pl_workers p = [WExited] \<and> pl_inFlight p = 1 \<and> \<not> pl_done p"
  by code_simp

end
