(* ===== verification/Go_Regexp.thy ===== *)
theory Go_Regexp
  imports Go_Strings
begin

text \<open>
  The part of Go's \<^verbatim>\<open>regexp\<close> package that the sources use: expressions with capture groups and
  leftmost-first matching. \<open>outcomes\<close> lists every way to match a prefix in the order of
  preference, each with the text that is left and the captured groups. Letter case is that of ASCII.
\<close>

datatype regexp =
    Class string
  | Then regexp regexp
  | Or regexp regexp
  | Opt regexp
  | Star regexp
  | Group nat regexp

type_synonym outcome = "string \<times> (nat \<times> string) list"

definition and_then :: "outcome list \<Rightarrow> (string \<Rightarrow> outcome list) \<Rightarrow> outcome list" where
  "and_then os f = concat (map (\<lambda>(t, caps). map (\<lambda>(u, caps'). (u, caps @ caps')) (f t)) os)"

text \<open>A repetition goes on only while it consumes text, so the length of the text bounds it.\<close>

primrec repeat :: "(string \<Rightarrow> outcome list) \<Rightarrow> nat \<Rightarrow> string \<Rightarrow> outcome list" where
  "repeat f 0 s = [(s, [])]"
| "repeat f (Suc n) s = and_then (filter (\<lambda>(t, caps). length t < length s) (f s)) (repeat f n) @ [(s, [])]"

primrec outcomes :: "regexp \<Rightarrow> string \<Rightarrow> outcome list" where
  "outcomes (Class cs) s = (case s of [] \<Rightarrow> [] | c # t \<Rightarrow> if c \<in> set cs then [(t, [])] else [])"
| "outcomes (Then r q) s = and_then (outcomes r s) (outcomes q)"
| "outcomes (Or r q) s = outcomes r s @ outcomes q s"
| "outcomes (Opt r) s = outcomes r s @ [(s, [])]"
| "outcomes (Star r) s = repeat (outcomes r) (length s) s"
| "outcomes (Group n r) s = map (\<lambda>(t, caps). (t, (n, take (length s - length t) s) # caps)) (outcomes r s)"

definition Plus :: "regexp \<Rightarrow> regexp" where
  "Plus r = Then r (Star r)"

definition digits :: string where
  "digits = ''0123456789''"

definition letters :: string where
  "letters = ''abcdefghijklmnopqrstuvwxyz''"

definition capitals :: string where
  "capitals = ''ABCDEFGHIJKLMNOPQRSTUVWXYZ''"

definition upper_char :: "char \<Rightarrow> char" where
  "upper_char c = (case map_of (zip letters capitals) c of Some d \<Rightarrow> d | None \<Rightarrow> c)"

text \<open>A literal under \<^verbatim>\<open>(?i)\<close>.\<close>

fun folded :: "string \<Rightarrow> regexp" where
  "folded [] = Opt (Class [])"
| "folded [c] = Class [c, upper_char c]"
| "folded (c # d # cs) = Then (Class [c, upper_char c]) (folded (d # cs))"

fun any_of :: "regexp list \<Rightarrow> regexp" where
  "any_of [] = Class []"
| "any_of [r] = r"
| "any_of (r # q # rs) = Or r (any_of (q # rs))"

fun sequence :: "regexp list \<Rightarrow> regexp" where
  "sequence [] = Opt (Class [])"
| "sequence [r] = r"
| "sequence (r # q # rs) = Then r (sequence (q # rs))"

section \<open>Matching\<close>

text \<open>\<^verbatim>\<open>FindStringSubmatch\<close> of an expression between \<^verbatim>\<open>^\<close> and \<^verbatim>\<open>$\<close>, and \<^verbatim>\<open>FindString\<close> of one after \<^verbatim>\<open>^\<close>.\<close>

definition full_match :: "regexp \<Rightarrow> string \<Rightarrow> (nat \<times> string) list option" where
  "full_match r s = map_option snd (find (\<lambda>(t, caps). t = []) (outcomes r s))"

definition prefix_match :: "regexp \<Rightarrow> string \<Rightarrow> string option" where
  "prefix_match r s = (case outcomes r s of [] \<Rightarrow> None | (t, caps) # _ \<Rightarrow> Some (take (length s - length t) s))"

text \<open>The text of a group; the empty string when the group took no part.\<close>

definition submatch :: "(nat \<times> string) list \<Rightarrow> nat \<Rightarrow> string" where
  "submatch caps n = (case map_of (rev caps) n of Some t \<Rightarrow> t | None \<Rightarrow> [])"

text \<open>\<^verbatim>\<open>Split\<close> at each character of a class.\<close>

fun split_any :: "string \<Rightarrow> string \<Rightarrow> string list" where
  "split_any cs [] = [[]]"
| "split_any cs (x # xs) =
     (if x \<in> set cs then [] # split_any cs xs
      else case split_any cs xs of [] \<Rightarrow> [[x]] | y # ys \<Rightarrow> (x # y) # ys)"

text \<open>\<^verbatim>\<open>ReplaceAllString\<close> of each run of characters of a class.\<close>

fun replace_runs :: "string \<Rightarrow> string \<Rightarrow> bool \<Rightarrow> string \<Rightarrow> string" where
  "replace_runs cs new within [] = []"
| "replace_runs cs new within (x # xs) =
     (if x \<in> set cs then (if within then [] else new) @ replace_runs cs new True xs
      else x # replace_runs cs new False xs)"

section \<open>Lemmas\<close>

lemma in_and_then: "(u, c) \<in> set (and_then os f) \<longleftrightarrow> (\<exists>t a b. (t, a) \<in> set os \<and> (u, b) \<in> set (f t) \<and> c = a @ b)"
  by (auto simp: and_then_def image_iff) force+

lemma repeat_suffix:
  assumes "\<And>s t c. (t, c) \<in> set (f s) \<Longrightarrow> suffix t s"
  shows "(t, c) \<in> set (repeat f n s) \<Longrightarrow> suffix t s"
proof (induction n arbitrary: s t c)
  case (Suc n)
  then show ?case using assms by (fastforce simp: in_and_then intro: suffix_order.trans)
qed simp

text \<open>What is left of a match is the end of the text.\<close>

lemma outcomes_suffix: "(t, c) \<in> set (outcomes r s) \<Longrightarrow> suffix t s"
proof (induction r arbitrary: s t c)
  case (Class cs)
  then show ?case by (auto split: list.splits if_splits intro: suffix_ConsI)
next
  case (Then r q)
  then show ?case by (fastforce simp: in_and_then intro: suffix_order.trans)
next
  case (Star r)
  then show ?case using repeat_suffix [of "outcomes r"] by auto
qed auto

lemma prefix_match_prefix: "prefix_match r s = Some p \<Longrightarrow> has_prefix s p"
  using outcomes_suffix [of _ _ r s]
  by (auto simp: prefix_match_def has_prefix_def split: list.splits)

lemma split_any_nonempty [simp]: "split_any cs s \<noteq> []"
  by (induction s) (auto split: list.splits)

lemma split_any_free: "p \<in> set (split_any cs s) \<Longrightarrow> set p \<inter> set cs = {}"
  by (induction s arbitrary: p) (fastforce split: if_splits list.splits)+

end
