(* ===== verification/Go_Compare.thy ===== *)
theory Go_Compare
  imports Go_Sort
begin

text \<open>
  Three-way comparisons in the style of \<^verbatim>\<open>strings.Compare\<close>: negative, zero or positive. The locale
  \<open>three_way\<close> states what a sort relies on; it is closed under lexicographic composition and under
  comparing by a projection, which is how the sources build their comparisons.
\<close>

definition compareInt :: "int \<Rightarrow> int \<Rightarrow> int" where
  "compareInt l r = (if l < r then - 1 else if l > r then 1 else 0)"

definition compare_strings :: "string \<Rightarrow> string \<Rightarrow> int" where
  "compare_strings l r = (if l < r then - 1 else if r < l then 1 else 0)"

text \<open>\<^verbatim>\<open>if compared := c; compared != 0 { return compared }\<close> before the rest.\<close>

definition or_else :: "int \<Rightarrow> int \<Rightarrow> int" where
  "or_else c rest = (if c \<noteq> 0 then c else rest)"

fun first_difference :: "int list \<Rightarrow> int" where
  "first_difference [] = 0"
| "first_difference (c # cs) = or_else c (first_difference cs)"

locale three_way =
  fixes cmp :: "'a \<Rightarrow> 'a \<Rightarrow> int"
  assumes swap: "cmp y x = - cmp x y"
    and trans: "cmp x y \<le> 0 \<Longrightarrow> cmp y z \<le> 0 \<Longrightarrow> cmp x z \<le> 0"
begin

lemma refl: "cmp x x = 0"
  using swap [of x x] by simp

lemma total: "cmp x y \<le> 0 \<or> cmp y x \<le> 0"
  using swap [of x y] by linarith

lemma zero_trans: "cmp x y = 0 \<Longrightarrow> cmp y z = 0 \<Longrightarrow> cmp x z = 0"
  using trans [of x y z] trans [of z y x] swap [of x y] swap [of y z] swap [of x z] by linarith

lemma zero_left: "cmp x y = 0 \<Longrightarrow> cmp y z < 0 \<Longrightarrow> cmp x z < 0"
  using trans [of x y z] trans [of z x y] swap [of x y] swap [of y z] swap [of x z] by linarith

lemma zero_right: "cmp x y < 0 \<Longrightarrow> cmp y z = 0 \<Longrightarrow> cmp x z < 0"
  using trans [of x y z] trans [of y z x] swap [of x y] swap [of y z] swap [of x z] by linarith

lemma less_trans: "cmp x y < 0 \<Longrightarrow> cmp y z < 0 \<Longrightarrow> cmp x z < 0"
  using trans [of x y z] trans [of z x y] swap [of x y] swap [of y z] swap [of x z] by linarith

end

lemma or_else_three_way:
  assumes "three_way c" "three_way d"
  shows "three_way (\<lambda>x y. or_else (c x y) (d x y))"
proof
  fix x y z
  show "or_else (c y x) (d y x) = - or_else (c x y) (d x y)"
    using three_way.swap [OF assms(1), of y x] three_way.swap [OF assms(2), of y x] by (simp add: or_else_def)
  assume le: "or_else (c x y) (d x y) \<le> 0" "or_else (c y z) (d y z) \<le> 0"
  then consider "c x y < 0" "c y z < 0" | "c x y < 0" "c y z = 0" | "c x y = 0" "c y z < 0"
    | "c x y = 0" "c y z = 0" "d x y \<le> 0" "d y z \<le> 0"
    by (auto simp: or_else_def split: if_splits)
  then show "or_else (c x z) (d x z) \<le> 0"
  proof cases
    case 4
    then show ?thesis using three_way.zero_trans [OF assms(1)] three_way.trans [OF assms(2)]
      by (auto simp: or_else_def)
  qed (use three_way.less_trans [OF assms(1), of x y z] three_way.zero_left [OF assms(1), of x y z]
      three_way.zero_right [OF assms(1), of x y z] in \<open>auto simp: or_else_def\<close>)
qed

lemma by_projection_three_way:
  assumes "three_way c"
  shows "three_way (\<lambda>x y. c (f x) (f y))"
  using three_way.swap [OF assms] three_way.trans [OF assms] by unfold_locales blast+

lemma first_difference_three_way:
  assumes "\<And>i. three_way (c i)"
  shows "three_way (\<lambda>x y. first_difference (map (\<lambda>i. c i x y) is))"
proof (induction "is")
  case Nil
  then show ?case by unfold_locales simp_all
next
  case (Cons i "is")
  then show ?case using or_else_three_way [OF assms] by simp
qed

lemma first_difference_append: "first_difference (xs @ ys) = or_else (first_difference xs) (first_difference ys)"
  by (induction xs) (auto simp: or_else_def)

lemma first_difference_zero: "\<forall>c\<in>set cs. c = 0 \<Longrightarrow> first_difference cs = 0"
  by (induction cs) (auto simp: or_else_def)

interpretation ints: three_way compareInt
  by unfold_locales (auto simp: compareInt_def split: if_splits)

interpretation strs: three_way compare_strings
  by unfold_locales (auto simp: compare_strings_def split: if_splits)

lemma compareInt_le [simp]: "compareInt l r \<le> 0 \<longleftrightarrow> l \<le> r" "compareInt l r = 0 \<longleftrightarrow> l = r" "compareInt l r < 0 \<longleftrightarrow> l < r"
  by (auto simp: compareInt_def)

section \<open>Sorting by a comparison\<close>

text \<open>What \<^verbatim>\<open>sort.Slice\<close> promises: a permutation in which no element is before its predecessors.\<close>

definition sorts_slice :: "('a \<Rightarrow> 'a \<Rightarrow> bool) \<Rightarrow> ('a list \<Rightarrow> 'a list) \<Rightarrow> bool" where
  "sorts_slice lt srt \<longleftrightarrow> (\<forall>xs. mset (srt xs) = mset xs \<and> sorted_wrt (\<lambda>a b. \<not> lt b a) (srt xs))"

lemma sorts_slice_last:
  assumes "sorts_slice lt srt" "xs \<noteq> []"
  shows "last (srt xs) \<in> set xs" and "x \<in> set xs \<Longrightarrow> x = last (srt xs) \<or> \<not> lt (last (srt xs)) x"
proof -
  have m: "mset (srt xs) = mset xs" and s: "sorted_wrt (\<lambda>a b. \<not> lt b a) (srt xs)"
    using assms(1) by (simp_all add: sorts_slice_def)
  have st: "set (srt xs) = set xs" using m by (metis set_mset_mset)
  then have ne: "srt xs \<noteq> []" using assms(2) by auto
  with st show "last (srt xs) \<in> set xs" by (metis last_in_set)
  assume "x \<in> set xs"
  then have "x \<in> set (butlast (srt xs) @ [last (srt xs)])" using ne st by simp
  moreover have "sorted_wrt (\<lambda>a b. \<not> lt b a) (butlast (srt xs) @ [last (srt xs)])" using s ne by simp
  ultimately show "x = last (srt xs) \<or> \<not> lt (last (srt xs)) x"
    by (auto simp: sorted_wrt_append simp del: append_butlast_last_id)
qed

lemma three_way_slice_order:
  assumes "three_way c"
  shows "slice_order (\<lambda>x y. c (f x) (f y) < 0) (\<lambda>x. {w. c (f x) w = 0})"
proof
  fix x y z
  note sw = three_way.swap [OF assms] and zt = three_way.zero_trans [OF assms]
  show "\<not> c (f x) (f x) < 0" using three_way.refl [OF assms] by simp
  show "c (f x) (f y) < 0 \<Longrightarrow> c (f y) (f z) < 0 \<Longrightarrow> c (f x) (f z) < 0" by (rule three_way.less_trans [OF assms])
  show "c (f x) (f y) < 0 \<or> c (f y) (f x) < 0 \<or> {w. c (f x) w = 0} = {w. c (f y) w = 0}"
  proof (cases "c (f x) (f y) = 0")
    case True
    then have "c (f y) (f x) = 0" using sw [of "f y" "f x"] by simp
    with True zt show ?thesis by blast
  next
    case False
    then show ?thesis using sw [of "f y" "f x"] by linarith
  qed
  assume "{w. c (f x) w = 0} = {w. c (f y) w = 0}"
  then have "c (f x) (f y) = 0" using three_way.refl [OF assms, of "f y"] by blast
  then show "\<not> c (f x) (f y) < 0" by simp
qed

lemma sort_by_sorts_slice:
  assumes "slice_order lt key"
  shows "sorts_slice lt (sort_by lt)"
  unfolding sorts_slice_def using slice_order.sorted [OF assms] by simp

end
