(* ===== verification/Pypi_Version.thy ===== *)
theory Pypi_Version
  imports Go_Regexp Go_Compare
begin

text \<open>
  PEP 440 versions and constraints (\<^verbatim>\<open>src/internal/pypi/version.go\<close>): the version pattern, its
  comparison, and the choice of the highest version that satisfies a constraint.
\<close>

section \<open>Versions\<close>

definition version_seps :: string where
  "version_seps = ''-_.''"

definition opt_sep :: regexp where
  "opt_sep = Opt (Class version_seps)"

definition pythonVersionPattern :: regexp where
  "pythonVersionPattern = sequence
     [Opt (folded ''v''),
      Opt (Then (Group 1 (Plus (Class digits))) (Class ''!'')),
      Group 2 (Then (Plus (Class digits)) (Star (Then (Class ''._-'') (Plus (Class digits))))),
      Opt (sequence [opt_sep,
        Group 3 (any_of (map folded [''a'', ''b'', ''c'', ''rc'', ''alpha'', ''beta'', ''pre'', ''preview''])),
        opt_sep, Opt (Group 4 (Plus (Class digits)))]),
      Opt (Or (Then (Class ''-'') (Group 5 (Plus (Class digits))))
              (sequence [opt_sep, Group 6 (any_of (map folded [''post'', ''rev'', ''r''])), opt_sep,
                         Opt (Group 7 (Plus (Class digits)))])),
      Opt (sequence [opt_sep, Group 8 (folded ''dev''), opt_sep, Opt (Group 9 (Plus (Class digits)))]),
      Opt (Then (Class ''+'') (Group 10 (Then (Plus (Class (letters @ capitals @ digits)))
        (Star (Then (Class version_seps) (Plus (Class (letters @ capitals @ digits))))))))]"

record version =
  v_raw :: string
  v_epoch :: int
  v_release :: "int list"
  v_preKind :: int
  v_preNum :: int
  v_hasPre :: bool
  v_postNum :: int
  v_hasPost :: bool
  v_devNum :: int
  v_hasDev :: bool
  v_local :: "string list"

definition empty_version :: version where
  "empty_version = \<lparr>v_raw = [], v_epoch = 0, v_release = [], v_preKind = 0, v_preNum = 0, v_hasPre = False,
     v_postNum = 0, v_hasPost = False, v_devNum = 0, v_hasDev = False, v_local = []\<rparr>"

datatype pypi_error =
    BadVersion string | BadEpoch string | BadRelease string | MissingVersion string | NotTwoSegments string
  | CombinedArbitrary string | WildcardOperator string | BadWildcard string | BadConstraint string pypi_error
  | NoVersion string

text \<open>\<^verbatim>\<open>strconv.Atoi\<close> with its error ignored: a number of digits beyond the range gives the largest int.\<close>

definition maxInt :: int where
  "maxInt = 2 ^ 63 - 1"

definition atoi_ignoring_error :: "string \<Rightarrow> int" where
  "atoi_ignoring_error s = (case atoi s of Some n \<Rightarrow> n | None \<Rightarrow> maxInt)"

definition parseImplicitNumber :: "string \<Rightarrow> int" where
  "parseImplicitNumber s = (if s = [] then 0 else atoi_ignoring_error s)"

definition preKind_of :: "string \<Rightarrow> int" where
  "preKind_of s = (if to_lower s \<in> {''a'', ''alpha''} then 0 else if to_lower s \<in> {''b'', ''beta''} then 1 else 2)"

definition those_atoi :: "string list \<Rightarrow> int list option" where
  "those_atoi parts = those (map atoi parts)"

definition ParseVersion :: "string \<Rightarrow> pypi_error + version" where
  "ParseVersion input =
     (let s = trim_space input
      in case full_match pythonVersionPattern s of
        None \<Rightarrow> Inl (BadVersion s)
      | Some caps \<Rightarrow>
          (let g = submatch caps;
               epoch = (if g 1 = [] then Some 0 else atoi (g 1));
               release = those_atoi (split_any ''._-'' (g 2))
           in case epoch of
             None \<Rightarrow> Inl (BadEpoch s)
           | Some e \<Rightarrow>
               (case release of
                  None \<Rightarrow> Inl (BadRelease s)
                | Some rel \<Rightarrow> Inr
                    \<lparr>v_raw = s, v_epoch = e, v_release = rel,
                     v_preKind = (if g 3 = [] then 0 else preKind_of (g 3)),
                     v_preNum = (if g 3 = [] then 0 else parseImplicitNumber (g 4)),
                     v_hasPre = (g 3 \<noteq> []),
                     v_postNum = (if g 5 \<noteq> [] then atoi_ignoring_error (g 5)
                                  else if g 6 \<noteq> [] then parseImplicitNumber (g 7) else 0),
                     v_hasPost = (g 5 \<noteq> [] \<or> g 6 \<noteq> []),
                     v_devNum = (if g 8 = [] then 0 else parseImplicitNumber (g 9)),
                     v_hasDev = (g 8 \<noteq> []),
                     v_local = (if g 10 = [] then [] else split_any version_seps (to_lower (g 10)))\<rparr>)))"

section \<open>Comparison\<close>

definition release_part :: "int list \<Rightarrow> nat \<Rightarrow> int" where
  "release_part xs i = (if i < length xs then xs ! i else 0)"

definition compareRelease :: "int list \<Rightarrow> int list \<Rightarrow> int" where
  "compareRelease left right =
     first_difference (map (\<lambda>i. compareInt (release_part left i) (release_part right i))
       [0..<max (length left) (length right)])"

definition pre_rank :: "version \<Rightarrow> int \<times> int \<times> int" where
  "pre_rank v =
     (if v_hasPre v then (0, v_preKind v, v_preNum v)
      else if v_hasDev v \<and> \<not> v_hasPost v then (- 1, 0, 0) else (1, 0, 0))"

definition comparePre :: "version \<Rightarrow> version \<Rightarrow> int" where
  "comparePre left right =
     (let (leftRank, leftKind, leftNum) = pre_rank left; (rightRank, rightKind, rightNum) = pre_rank right
      in or_else (compareInt leftRank rightRank)
           (or_else (compareInt leftKind rightKind) (compareInt leftNum rightNum)))"

definition compareOptionalNumber :: "bool \<Rightarrow> int \<Rightarrow> bool \<Rightarrow> int \<Rightarrow> int \<Rightarrow> int" where
  "compareOptionalNumber leftSet left rightSet right missingRank =
     (if \<not> leftSet \<and> \<not> rightSet then 0
      else if \<not> leftSet then missingRank
      else if \<not> rightSet then - missingRank
      else compareInt left right)"

definition compareSegment :: "string \<Rightarrow> string \<Rightarrow> int" where
  "compareSegment left right =
     (case (atoi left, atoi right) of
        (Some l, Some r) \<Rightarrow> compareInt l r
      | (Some _, None) \<Rightarrow> 1
      | (None, Some _) \<Rightarrow> - 1
      | (None, None) \<Rightarrow> compare_strings left right)"

definition compareLocal :: "string list \<Rightarrow> string list \<Rightarrow> int" where
  "compareLocal left right =
     (if left = [] \<and> right = [] then 0
      else if left = [] then - 1
      else if right = [] then 1
      else or_else (first_difference (map (\<lambda>(l, r). compareSegment l r) (zip left right)))
             (compareInt (int (length left)) (int (length right))))"

definition Compare :: "version \<Rightarrow> version \<Rightarrow> int" where
  "Compare v w =
     or_else (compareInt (v_epoch v) (v_epoch w))
    (or_else (compareRelease (v_release v) (v_release w))
    (or_else (comparePre v w)
    (or_else (compareOptionalNumber (v_hasPost v) (v_postNum v) (v_hasPost w) (v_postNum w) (- 1))
    (or_else (compareOptionalNumber (v_hasDev v) (v_devNum v) (v_hasDev w) (v_devNum w) 1)
             (compareLocal (v_local v) (v_local w))))))"

section \<open>Constraints\<close>

record clause =
  c_operator :: string
  c_value :: string
  c_version :: version
  c_prefixEpoch :: int
  c_prefix :: "int list"

definition operators :: "string list" where
  "operators = [''==='', ''~='', ''=='', ''!='', ''<='', ''>='', ''<'', ''>'']"

definition split_operator :: "string \<Rightarrow> string \<times> string" where
  "split_operator part =
     (case find (has_prefix part) operators of
        None \<Rightarrow> (''=='', part)
      | Some candidate \<Rightarrow> (candidate, trim_space (trim_prefix part candidate)))"

text \<open>The first piece of \<^verbatim>\<open>strings.SplitN(s, sep, 2)\<close>.\<close>

definition before :: "char \<Rightarrow> string \<Rightarrow> string" where
  "before c s = takeWhile (\<lambda>x. x \<noteq> c) s"

definition two_segments :: "string \<Rightarrow> bool" where
  "two_segments v \<longleftrightarrow> CHR ''.'' \<in> set (before CHR ''-'' (before CHR ''+'' v))"

definition parse_wildcard :: "string \<Rightarrow> (int \<times> int list) option" where
  "parse_wildcard v =
     (let prefixText = trim_suffix v ''.*''
      in case split_on CHR ''!'' prefixText of
        [p] \<Rightarrow> map_option (Pair 0) (those_atoi (split_on CHR ''.'' p))
      | [e, p] \<Rightarrow> (case atoi e of
            None \<Rightarrow> None
          | Some epoch \<Rightarrow> map_option (Pair epoch) (those_atoi (split_on CHR ''.'' p)))
      | _ \<Rightarrow> None)"

definition parse_clause :: "string \<Rightarrow> nat \<Rightarrow> string \<Rightarrow> pypi_error + clause \<times> bool" where
  "parse_clause raw parts part0 =
     (let part = trim_space part0; (operator, v) = split_operator part;
          bare = \<lparr>c_operator = operator, c_value = v, c_version = empty_version, c_prefixEpoch = 0, c_prefix = []\<rparr>
      in if v = [] then Inl (MissingVersion raw)
         else if operator = ''~='' \<and> \<not> two_segments v then Inl (NotTwoSegments part)
         else if operator = ''==='' then (if parts \<noteq> 1 then Inl (CombinedArbitrary raw) else Inr (bare, False))
         else if has_suffix v ''.*'' then
           (if operator \<noteq> ''=='' \<and> operator \<noteq> ''!='' then Inl (WildcardOperator part)
            else case parse_wildcard v of
              None \<Rightarrow> Inl (BadWildcard part)
            | Some (epoch, pre) \<Rightarrow> Inr (bare\<lparr>c_prefixEpoch := epoch, c_prefix := pre\<rparr>, False))
         else case ParseVersion v of
           Inl e \<Rightarrow> Inl (BadConstraint part e)
         | Inr parsed \<Rightarrow> Inr (bare\<lparr>c_version := parsed\<rparr>, v_hasPre parsed \<or> v_hasDev parsed))"

fun parse_clauses :: "string \<Rightarrow> nat \<Rightarrow> string list \<Rightarrow> pypi_error + clause list \<times> bool" where
  "parse_clauses raw n [] = Inr ([], False)"
| "parse_clauses raw n (p # ps) =
     bindE (parse_clause raw n p) (\<lambda>(c, pre). bindE (parse_clauses raw n ps) (\<lambda>(cs, pres). Inr (c # cs, pre \<or> pres)))"

definition parseConstraint :: "string \<Rightarrow> pypi_error + clause list \<times> bool" where
  "parseConstraint raw0 =
     (let raw = trim_space raw0
      in if raw = [] \<or> raw = ''*'' then Inr ([], False)
         else let parts = split_on CHR '','' raw in parse_clauses raw (length parts) parts)"

definition NormalizeConstraint :: "string \<Rightarrow> pypi_error + string" where
  "NormalizeConstraint raw =
     bindE (parseConstraint raw) (\<lambda>(clauses, _). Inr (join '','' (map (\<lambda>c. c_operator c @ c_value c) clauses)))"

definition compatiblePrefix :: "version \<Rightarrow> version \<Rightarrow> bool" where
  "compatiblePrefix candidate minimum \<longleftrightarrow>
     v_epoch candidate = v_epoch minimum \<and>
     (let n = max (length (v_release minimum) - 1) 1
      in n \<le> length (v_release candidate) \<and> take n (v_release candidate) = take n (v_release minimum))"

definition compareSpecifierVersion :: "version \<Rightarrow> version \<Rightarrow> int" where
  "compareSpecifierVersion candidate specified =
     Compare (if v_local specified = [] then candidate\<lparr>v_local := []\<rparr> else candidate) specified"

definition samePublicRelease :: "version \<Rightarrow> version \<Rightarrow> bool" where
  "samePublicRelease l r \<longleftrightarrow> v_epoch l = v_epoch r \<and> compareRelease (v_release l) (v_release r) = 0"

definition matches_prefix :: "version \<Rightarrow> clause \<Rightarrow> bool" where
  "matches_prefix v c \<longleftrightarrow> v_epoch v = c_prefixEpoch c \<and> length (c_prefix c) \<le> length (v_release v) \<and>
     take (length (c_prefix c)) (v_release v) = c_prefix c"

definition matches_clause :: "version \<Rightarrow> string \<Rightarrow> clause \<Rightarrow> bool" where
  "matches_clause v raw c =
     (if c_operator c = ''==='' then raw = c_value c
      else if c_prefix c \<noteq> [] then (c_operator c = ''=='') = matches_prefix v c
      else
        let compared = compareSpecifierVersion v (c_version c); w = c_version c; operator = c_operator c
        in if operator = ''=='' then compared = 0
           else if operator = ''!='' then compared \<noteq> 0
           else if operator = ''<'' then
             compared < 0 \<and> \<not> (\<not> v_hasPre w \<and> samePublicRelease v w \<and> (v_hasPre v \<or> v_hasDev v))
           else if operator = ''<='' then compared \<le> 0
           else if operator = ''>'' then
             compared > 0 \<and> \<not> (\<not> v_hasPost w \<and> samePublicRelease v w \<and> v_hasPost v)
           else if operator = ''>='' then compared \<ge> 0
           else if operator = ''~='' then compared \<ge> 0 \<and> compatiblePrefix v w
           else True)"

definition matchesClauses :: "version \<Rightarrow> string \<Rightarrow> clause list \<Rightarrow> bool" where
  "matchesClauses v raw clauses = list_all (matches_clause v raw) clauses"

section \<open>Resolution\<close>

type_synonym candidate = "string \<times> version"

fun candidates_of :: "clause list \<Rightarrow> string list \<Rightarrow> candidate list" where
  "candidates_of clauses [] = []"
| "candidates_of clauses (raw # rest) =
     (case ParseVersion raw of
        Inl _ \<Rightarrow> candidates_of clauses rest
      | Inr v \<Rightarrow> if matchesClauses v raw clauses then (raw, v) # candidates_of clauses rest
                else candidates_of clauses rest)"

definition unstable :: "candidate \<Rightarrow> bool" where
  "unstable c \<longleftrightarrow> v_hasPre (snd c) \<or> v_hasDev (snd c)"

definition candidate_before :: "candidate \<Rightarrow> candidate \<Rightarrow> bool" where
  "candidate_before a b \<longleftrightarrow> Compare (snd a) (snd b) < 0"

text \<open>\<^verbatim>\<open>sort.Slice\<close> is not stable, and different texts can be equal versions, so the sort is an argument.\<close>

definition ResolveVersion :: "(candidate list \<Rightarrow> candidate list) \<Rightarrow> string \<Rightarrow> string list \<Rightarrow> pypi_error + string" where
  "ResolveVersion sort_slice constraint available =
     bindE (parseConstraint constraint) (\<lambda>(clauses, permitsPrerelease).
       if length clauses = 1 \<and> c_operator (hd clauses) = ''==='' then
         (if c_value (hd clauses) \<in> set available then Inr (c_value (hd clauses)) else Inl (NoVersion constraint))
       else
         let found = candidates_of clauses available;
             stable = filter (\<lambda>c. \<not> unstable c) found;
             prerelease = filter unstable found;
             candidates = (if permitsPrerelease \<or> stable = [] then stable @ prerelease else stable)
         in if candidates = [] then Inl (NoVersion constraint)
            else Inr (fst (last (sort_slice candidates))))"

end
