(* ===== verification/Pypi_Properties.thy ===== *)
theory Pypi_Properties
  imports Pypi_Version
begin

text \<open>
  The order of PEP 440 versions and the resolution of a constraint: the comparison is a total
  preorder, and the version that is chosen satisfies every clause and is the highest that may be
  chosen.
\<close>

section \<open>The comparison is a total preorder\<close>

lemma compareRelease_upto:
  assumes "length l \<le> n" "length r \<le> n"
  shows "compareRelease l r = first_difference (map (\<lambda>i. compareInt (release_part l i) (release_part r i)) [0..<n])"
proof -
  let ?m = "max (length l) (length r)" and ?c = "\<lambda>i. compareInt (release_part l i) (release_part r i)"
  have "[0..<n] = [0..<?m] @ [?m..<n]" using assms by (metis le0 max.boundedI upt_add_eq_append le_Suc_ex)
  moreover have "first_difference (map ?c [?m..<n]) = 0" by (rule first_difference_zero) (simp add: release_part_def)
  ultimately show ?thesis by (simp add: compareRelease_def first_difference_append or_else_def)
qed

lemma release_three_way: "three_way compareRelease"
proof
  define upto where "upto n l r = first_difference (map (\<lambda>i. compareInt (release_part l i) (release_part r i)) [0..<n])" for n l r
  have tw: "three_way (upto n)" for n
    unfolding upto_def
    by (rule first_difference_three_way) (rule by_projection_three_way [OF ints.three_way_axioms, of "\<lambda>l. release_part l i" for i])
  fix x y z :: "int list"
  define n where "n = max (length x) (max (length y) (length z))"
  have eq: "compareRelease a b = upto n a b" if "a \<in> {x, y, z}" "b \<in> {x, y, z}" for a b
    unfolding upto_def by (rule compareRelease_upto) (use that in \<open>auto simp: n_def\<close>)
  show "compareRelease y x = - compareRelease x y" using three_way.swap [OF tw, of n y x] eq [of x y] eq [of y x] by simp
  assume "compareRelease x y \<le> 0" "compareRelease y z \<le> 0"
  then show "compareRelease x z \<le> 0" using three_way.trans [OF tw, of n x y z] eq [of x y] eq [of y z] eq [of x z] by simp
qed

lemma pre_three_way: "three_way comparePre"
proof -
  have "comparePre = (\<lambda>x y. or_else (compareInt (fst (pre_rank x)) (fst (pre_rank y)))
      (or_else (compareInt (fst (snd (pre_rank x))) (fst (snd (pre_rank y))))
               (compareInt (snd (snd (pre_rank x))) (snd (snd (pre_rank y))))))"
    by (intro ext) (simp add: comparePre_def Let_def split: prod.split)
  moreover have "three_way (\<lambda>x y. or_else (compareInt (fst (pre_rank x)) (fst (pre_rank y)))
      (or_else (compareInt (fst (snd (pre_rank x))) (fst (snd (pre_rank y))))
               (compareInt (snd (snd (pre_rank x))) (snd (snd (pre_rank y))))))"
    by (intro or_else_three_way by_projection_three_way [OF ints.three_way_axioms, of "\<lambda>x. fst (pre_rank x)"]
        by_projection_three_way [OF ints.three_way_axioms, of "\<lambda>x. fst (snd (pre_rank x))"]
        by_projection_three_way [OF ints.three_way_axioms, of "\<lambda>x. snd (snd (pre_rank x))"])
  ultimately show ?thesis by simp
qed

lemma optional_three_way: "missing \<in> {- 1, 1} \<Longrightarrow> three_way (\<lambda>x y. compareOptionalNumber (s x) (n x) (s y) (n y) missing)"
  by unfold_locales (auto simp: compareOptionalNumber_def compareInt_def split: if_splits)

lemma segment_three_way: "three_way compareSegment"
proof
  fix x y z :: string
  show "compareSegment y x = - compareSegment x y"
    by (auto simp: compareSegment_def compareInt_def compare_strings_def split: option.split)
  assume "compareSegment x y \<le> 0" "compareSegment y z \<le> 0"
  then show "compareSegment x z \<le> 0"
    by (auto simp: compareSegment_def compare_strings_def split: option.splits if_splits)
qed

text \<open>The lock-step form of the loop over local segments.\<close>

fun local_lex :: "string list \<Rightarrow> string list \<Rightarrow> int" where
  "local_lex [] [] = 0"
| "local_lex [] (r # rs) = - 1"
| "local_lex (l # ls) [] = 1"
| "local_lex (l # ls) (r # rs) = or_else (compareSegment l r) (local_lex ls rs)"

lemma local_lex_loop:
  "local_lex l r = or_else (first_difference (map (\<lambda>(l, r). compareSegment l r) (zip l r)))
     (compareInt (int (length l)) (int (length r)))"
  by (induction l r rule: local_lex.induct) (auto simp: or_else_def compareInt_def)

lemma compareLocal_lex: "compareLocal = local_lex"
proof (intro ext)
  fix l r
  show "compareLocal l r = local_lex l r"
    by (cases l; cases r) (simp_all add: compareLocal_def local_lex_loop or_else_def compareInt_def del: local_lex.simps)
qed

lemma local_three_way: "three_way compareLocal"
  unfolding compareLocal_lex
proof
  fix x y z :: "string list"
  show "local_lex y x = - local_lex x y"
  proof (induction x y rule: local_lex.induct)
    case (4 l ls r rs)
    then show ?case using three_way.swap [OF segment_three_way, of r l] by (simp add: or_else_def)
  qed simp_all
  show "local_lex x y \<le> 0 \<Longrightarrow> local_lex y z \<le> 0 \<Longrightarrow> local_lex x z \<le> 0"
  proof (induction x y arbitrary: z rule: local_lex.induct)
    case (1 z)
    then show ?case by simp
  next
    case (2 r rs)
    then show ?case by (cases z) simp_all
  next
    case (3 l ls)
    then show ?case by simp
  next
    case (4 l ls r rs)
    then obtain u us where z: "z = u # us" by (cases z) auto
    note sg = three_way.zero_trans [OF segment_three_way, of l r u] three_way.less_trans [OF segment_three_way, of l r u]
      three_way.zero_left [OF segment_three_way, of l r u] three_way.zero_right [OF segment_three_way, of l r u]
    show ?case using 4 sg unfolding z by (auto simp: or_else_def split: if_splits)
  qed
qed

lemma Compare_three_way: "three_way Compare"
proof -
  have "three_way (\<lambda>v w. Compare v w)"
    unfolding Compare_def
    by (intro or_else_three_way by_projection_three_way [OF ints.three_way_axioms, of v_epoch]
        by_projection_three_way [OF release_three_way, of v_release] by_projection_three_way [OF local_three_way, of v_local]
        pre_three_way optional_three_way) simp_all
  then show ?thesis by simp
qed

interpretation versions: three_way Compare
  by (rule Compare_three_way)

section \<open>Resolution\<close>

text \<open>A published version that satisfies the clauses, and one that may be chosen: pre-releases only
  when a clause names one or nothing stable satisfies the clauses.\<close>

definition satisfying :: "clause list \<Rightarrow> string list \<Rightarrow> candidate \<Rightarrow> bool" where
  "satisfying clauses available c \<longleftrightarrow>
     fst c \<in> set available \<and> ParseVersion (fst c) = Inr (snd c) \<and> matchesClauses (snd c) (fst c) clauses"

definition choosable :: "clause list \<Rightarrow> bool \<Rightarrow> string list \<Rightarrow> candidate \<Rightarrow> bool" where
  "choosable clauses permits available c \<longleftrightarrow> satisfying clauses available c \<and>
     (unstable c \<longrightarrow> permits \<or> (\<forall>c'. satisfying clauses available c' \<longrightarrow> unstable c'))"

lemma set_candidates_of: "set (candidates_of clauses available) = {c. satisfying clauses available c}"
proof (induction available)
  case Nil
  then show ?case by (simp add: satisfying_def)
next
  case (Cons raw rest)
  have "{c. satisfying clauses (raw # rest) c} = {c. satisfying clauses rest c} \<union>
      {c. fst c = raw \<and> ParseVersion raw = Inr (snd c) \<and> matchesClauses (snd c) raw clauses}"
    by (auto simp: satisfying_def)
  moreover have "{c. fst c = raw \<and> ParseVersion raw = Inr (snd c) \<and> matchesClauses (snd c) raw clauses} =
      (case ParseVersion raw of Inl _ \<Rightarrow> {} | Inr v \<Rightarrow> if matchesClauses v raw clauses then {(raw, v)} else {})"
    by (auto split: sum.split)
  ultimately show ?case using Cons by (auto split: sum.split)
qed

interpretation candidate_order: slice_order candidate_before "\<lambda>c. {w. Compare (snd c) w = 0}"
  unfolding candidate_before_def by (rule three_way_slice_order [OF Compare_three_way])

lemma resolve_highest:
  assumes "sorts_slice candidate_before sort_slice"
    and "parseConstraint constraint = Inr (clauses, permits)"
    and "\<not> (length clauses = 1 \<and> c_operator (hd clauses) = ''==='')"
  shows "case ResolveVersion sort_slice constraint available of
      Inr raw \<Rightarrow> \<exists>v. choosable clauses permits available (raw, v) \<and>
        (\<forall>c. choosable clauses permits available c \<longrightarrow> Compare (snd c) v \<le> 0)
    | Inl e \<Rightarrow> e = NoVersion constraint \<and> (\<nexists>c. satisfying clauses available c)"
proof -
  let ?found = "candidates_of clauses available"
  let ?stable = "filter (\<lambda>c. \<not> unstable c) ?found"
  define cs where "cs = (if permits \<or> ?stable = [] then ?stable @ filter unstable ?found else ?stable)"
  have res: "ResolveVersion sort_slice constraint available =
      (if cs = [] then Inl (NoVersion constraint) else Inr (fst (last (sort_slice cs))))"
    unfolding ResolveVersion_def cs_def assms(2) bindE_Inr prod.case Let_def if_not_P [OF assms(3)] by (rule refl)
  have cs_set: "set cs = {c. choosable clauses permits available c}"
    unfolding cs_def choosable_def by (auto simp: set_candidates_of filter_empty_conv)
  show ?thesis
  proof (cases "cs = []")
    case True
    then have "\<not> choosable clauses permits available c" for c using cs_set by (metis empty_set empty_iff mem_Collect_eq)
    then have "\<nexists>c. satisfying clauses available c" unfolding choosable_def by metis
    with True res show ?thesis by simp
  next
    case False
    obtain raw v where l: "last (sort_slice cs) = (raw, v)" by fastforce
    have "choosable clauses permits available (raw, v)"
      using sorts_slice_last(1) [OF assms(1) False] cs_set l by simp
    moreover have "Compare (snd c) v \<le> 0" if "choosable clauses permits available c" for c
      using sorts_slice_last(2) [OF assms(1) False, of c] that cs_set l versions.refl versions.swap [of "snd c" v]
      by (auto simp: candidate_before_def)
    ultimately show ?thesis using False res l by auto
  qed
qed

text \<open>\<^verbatim>\<open>ResolveVersion\<close> returns a published version that satisfies every clause and may be chosen,
  and no version that may be chosen is higher; it fails only when no published version satisfies
  the clauses.\<close>

theorem ResolveVersion_highest:
  assumes "sorts_slice candidate_before sort_slice"
    and "parseConstraint constraint = Inr (clauses, permits)"
    and "\<not> (length clauses = 1 \<and> c_operator (hd clauses) = ''==='')"
  shows "case ResolveVersion sort_slice constraint available of
      Inr raw \<Rightarrow> \<exists>v. choosable clauses permits available (raw, v) \<and>
        (\<forall>c. choosable clauses permits available c \<longrightarrow> Compare (snd c) v \<le> 0)
    | Inl e \<Rightarrow> e = NoVersion constraint \<and> (\<nexists>c. satisfying clauses available c)"
  by (rule resolve_highest [OF assms])

definition demo_constraint :: string where
  "demo_constraint = '' >= 1.4, <2 ''"

definition demo_available :: "string list" where
  "demo_available = [''1.4.0'', ''1.5.0rc1'', ''1.5.0'', ''2.0'', ''1.5'']"

definition demo_clauses :: "clause list" where
  "demo_clauses = (case parseConstraint demo_constraint of Inr (cs, _) \<Rightarrow> cs | Inl _ \<Rightarrow> [])"

lemma demo_constraint_parses: "parseConstraint demo_constraint = Inr (demo_clauses, False)"
  by code_simp

lemma demo_clauses_two: "length demo_clauses = 2"
  by code_simp

lemma demo_resolves: "ResolveVersion (sort_by candidate_before) demo_constraint demo_available = Inr ''1.5''"
  by code_simp

theorem ResolveVersion_highest_witness:
  "\<exists>v. choosable demo_clauses False demo_available (''1.5'', v)"
  using ResolveVersion_highest [OF sort_by_sorts_slice [OF candidate_order.slice_order_axioms] demo_constraint_parses,
      of demo_available] demo_clauses_two demo_resolves by auto

text \<open>The release group of the pattern takes \<^verbatim>\<open>-N\<close>, so the post-release form \<^verbatim>\<open>1.0-1\<close> is read as the
  release 1.0.1.\<close>

theorem implicit_post_release_misread:
  "case ParseVersion ''1.0-1'' of Inr v \<Rightarrow> v_release v = [1, 0, 1] \<and> \<not> v_hasPost v | Inl _ \<Rightarrow> False"
  by code_simp

end
