(* ===== verification/Pypi_Requirement.thy ===== *)
theory Pypi_Requirement
  imports Pypi_Version
begin

text \<open>
  PEP 508 requirements (\<^verbatim>\<open>src/internal/pypi/requirement.go\<close>): target environments, names, the
  requirement line, and environment markers with their tokenizer and recursive-descent evaluator.
  A parser is its list of tokens from \<^verbatim>\<open>index\<close> on; reading past the end is the error \<open>IndexPanic\<close>,
  and the depth of calls is bounded by fuel whose end is the error \<open>OutOfFuel\<close>.
\<close>

section \<open>Targets\<close>

record target =
  PythonVersion :: string
  PythonFullVersion :: string
  Platform :: string
  SysPlatform :: string
  OSName :: string
  PlatformSystem :: string
  Implementation :: string

datatype requirement_error =
    BadTargetVersion string | BadPlatform string | EmptyRequirement | UnsupportedSource string | BadName string
  | Extras string | DirectURL string | RequirementConstraint string pypi_error | UnterminatedString
  | UnexpectedCharacter string | UnexpectedToken string | MissingParenthesis | ExpectedOperand string
  | UnsupportedVariable string | UnsupportedOperator string | ExpectedOperator string
  | RequirementMarker string requirement_error | OutOfFuel | IndexPanic

definition platform_fields :: "string \<Rightarrow> (string \<times> string \<times> string) option" where
  "platform_fields p =
     (if p = ''linux'' then Some (''linux'', ''posix'', ''Linux'')
      else if p = ''windows'' then Some (''win32'', ''nt'', ''Windows'')
      else if p = ''darwin'' then Some (''darwin'', ''posix'', ''Darwin'')
      else None)"

definition NewTarget :: "string \<Rightarrow> string \<Rightarrow> requirement_error + target" where
  "NewTarget pythonVersion platform =
     (case ParseVersion pythonVersion of
        Inl _ \<Rightarrow> Inl (BadTargetVersion pythonVersion)
      | Inr v \<Rightarrow>
          if length (v_release v) < 2 \<or> length (v_release v) > 3 \<or> v_epoch v \<noteq> 0 \<or> v_hasPre v \<or> v_hasPost v \<or>
             v_hasDev v \<or> v_local v \<noteq> [] then Inl (BadTargetVersion pythonVersion)
          else
            let minor = int_text (v_release v ! 0) @ ''.'' @ int_text (v_release v ! 1);
                full = minor @ ''.'' @ (if length (v_release v) = 2 then ''0'' else int_text (v_release v ! 2))
            in (case platform_fields (to_lower platform) of
              None \<Rightarrow> Inl (BadPlatform platform)
            | Some (sys, os, system) \<Rightarrow> Inr
                \<lparr>PythonVersion = minor, PythonFullVersion = full, Platform = to_lower platform, SysPlatform = sys,
                 OSName = os, PlatformSystem = system, Implementation = ''cpython''\<rparr>))"

section \<open>Markers: tokens\<close>

datatype token_kind = markerEOF | markerWord | markerString | markerOperator | markerLeftParen | markerRightParen

type_synonym token = "token_kind \<times> string"

text \<open>\<^verbatim>\<open>unicode.IsSpace\<close> of a single byte.\<close>

definition space_byte :: "char \<Rightarrow> bool" where
  "space_byte c \<longleftrightarrow> c \<in> {CHR 0x09, CHR 0x0A, CHR 0x0B, CHR 0x0C, CHR 0x0D, CHR 0x20, CHR 0x85, CHR 0xA0}"

definition quotes :: string where
  "quotes = [CHR 0x27, CHR 0x22]"

definition comparison_chars :: string where
  "comparison_chars = ''<>=!~''"

definition word_char :: "char \<Rightarrow> bool" where
  "word_char c \<longleftrightarrow> \<not> space_byte c \<and> c \<notin> set (''()<>!=~'' @ quotes)"

function tokenizeMarker :: "string \<Rightarrow> requirement_error + token list" where
  "tokenizeMarker [] = Inr [(markerEOF, [])]"
| "tokenizeMarker (c # s) =
     (if space_byte c then tokenizeMarker s
      else if c = CHR ''('' then bindE (tokenizeMarker s) (\<lambda>ts. Inr ((markerLeftParen, ''('') # ts))
      else if c = CHR '')'' then bindE (tokenizeMarker s) (\<lambda>ts. Inr ((markerRightParen, '')'') # ts))
      else if c \<in> set quotes then
        (if c \<notin> set s then Inl UnterminatedString
         else bindE (tokenizeMarker (drop 1 (dropWhile (\<lambda>x. x \<noteq> c) s)))
                (\<lambda>ts. Inr ((markerString, takeWhile (\<lambda>x. x \<noteq> c) s) # ts)))
      else if c \<in> set comparison_chars then
        (if take 1 s = ''='' then bindE (tokenizeMarker (drop 1 s)) (\<lambda>ts. Inr ((markerOperator, [c, CHR ''='']) # ts))
         else bindE (tokenizeMarker s) (\<lambda>ts. Inr ((markerOperator, [c]) # ts)))
      else if \<not> word_char c then Inl (UnexpectedCharacter [c])
      else bindE (tokenizeMarker (dropWhile word_char s)) (\<lambda>ts. Inr ((markerWord, c # takeWhile word_char s) # ts)))"
  by pat_completeness auto
termination
proof (relation "measure length")
  fix c :: char and s :: string
  have drop: "length (dropWhile p s) \<le> length s" for p :: "char \<Rightarrow> bool" by (simp add: length_dropWhile_le)
  show "(drop 1 (dropWhile (\<lambda>x. x \<noteq> c) s), c # s) \<in> measure length" using drop [of "\<lambda>x. x \<noteq> c"] by simp
  show "(dropWhile word_char s, c # s) \<in> measure length" using drop [of word_char] by simp
qed simp_all

section \<open>Markers: evaluation\<close>

text \<open>\<^verbatim>\<open>current\<close> and \<^verbatim>\<open>peek\<close>.\<close>

definition current :: "token list \<Rightarrow> requirement_error + token" where
  "current ts = (case ts of [] \<Rightarrow> Inl IndexPanic | t # _ \<Rightarrow> Inr t)"

definition peek :: "token list \<Rightarrow> token" where
  "peek ts = (if length ts \<le> 1 then (markerEOF, []) else ts ! 1)"

definition markerVariableValue :: "string \<Rightarrow> target \<Rightarrow> string option" where
  "markerVariableValue name t =
     (if name = ''python_version'' then Some (PythonVersion t)
      else if name = ''python_full_version'' then Some (PythonFullVersion t)
      else if name = ''sys_platform'' then Some (SysPlatform t)
      else if name = ''os_name'' then Some (OSName t)
      else if name = ''platform_system'' then Some (PlatformSystem t)
      else if name = ''implementation_name'' then Some (Implementation t)
      else if name = ''platform_python_implementation'' then Some ''CPython''
      else if name = ''implementation_version'' then Some (PythonFullVersion t)
      else if name = ''extra'' then Some []
      else None)"

definition version_variables :: "string list" where
  "version_variables = [''python_version'', ''python_full_version'', ''implementation_version'']"

definition compareMarkerValues :: "string \<Rightarrow> string \<Rightarrow> string \<Rightarrow> string \<Rightarrow> string \<Rightarrow> bool" where
  "compareMarkerValues left right operator leftVariable rightVariable =
     (if operator = ''in'' then contains right left
      else if operator = ''not in'' then \<not> contains right left
      else
        let compared =
              (if leftVariable \<in> set version_variables \<or> rightVariable \<in> set version_variables then
                 (case (ParseVersion left, ParseVersion right) of
                    (Inr l, Inr r) \<Rightarrow> Compare l r
                  | _ \<Rightarrow> compare_strings left right)
               else compare_strings left right)
        in if operator = ''=='' \<or> operator = ''==='' then compared = 0
           else if operator = ''!='' then compared \<noteq> 0
           else if operator = ''<'' then compared < 0
           else if operator = ''<='' then compared \<le> 0
           else if operator = ''>'' then compared > 0
           else if operator = ''>='' then compared \<ge> 0
           else if operator = ''~='' then
             (case (ParseVersion left, ParseVersion right) of
                (Inr l, Inr r) \<Rightarrow> Compare l r \<ge> 0 \<and> compatiblePrefix l r
              | _ \<Rightarrow> False)
           else False)"

definition parseOperand :: "target \<Rightarrow> token list \<Rightarrow> requirement_error + (string \<times> string) \<times> token list" where
  "parseOperand t ts =
     bindE (current ts) (\<lambda>(kind, text).
       if kind = markerString then Inr ((text, []), tl ts)
       else if kind = markerWord then
         (case markerVariableValue text t of
            None \<Rightarrow> Inl (UnsupportedVariable text) | Some v \<Rightarrow> Inr ((v, text), tl ts))
       else Inl (ExpectedOperand text))"

definition marker_operators :: "string list" where
  "marker_operators = [''=='', ''!='', ''<'', ''<='', ''>'', ''>='', ''~='', ''==='']"

definition parseOperator :: "token list \<Rightarrow> requirement_error + string \<times> token list" where
  "parseOperator ts =
     bindE (current ts) (\<lambda>(kind, text).
       if kind = markerOperator then
         (if text \<in> set marker_operators then Inr (text, tl ts) else Inl (UnsupportedOperator text))
       else if equal_fold text ''in'' then Inr (''in'', tl ts)
       else if equal_fold text ''not'' \<and> equal_fold (snd (peek ts)) ''in'' then Inr (''not in'', drop 2 ts)
       else Inl (ExpectedOperator text))"

definition parse_comparison :: "target \<Rightarrow> token list \<Rightarrow> requirement_error + bool \<times> token list" where
  "parse_comparison t ts =
     bindE (parseOperand t ts) (\<lambda>((left, leftVariable), ts1).
     bindE (parseOperator ts1) (\<lambda>(operator, ts2).
     bindE (parseOperand t ts2) (\<lambda>((right, rightVariable), ts3).
       Inr (compareMarkerValues left right operator leftVariable rightVariable, ts3))))"

text \<open>\<^verbatim>\<open>parseOr\<close>, \<^verbatim>\<open>parseAnd\<close> and \<^verbatim>\<open>parseTerm\<close> call each other; the loops of the first two carry the value so far.\<close>

datatype parse_mode = ParseOr | OrLoop bool | ParseAnd | AndLoop bool | ParseTerm

type_synonym parse_result = "requirement_error + bool \<times> token list"

definition parser_step :: "target \<Rightarrow> (parse_mode \<Rightarrow> token list \<Rightarrow> parse_result) \<Rightarrow> parse_mode \<Rightarrow> token list \<Rightarrow> parse_result" where
  "parser_step t parse mode ts =
     (case mode of
        ParseOr \<Rightarrow> bindE (parse ParseAnd ts) (\<lambda>(left, ts'). parse (OrLoop left) ts')
      | OrLoop left \<Rightarrow>
          bindE (current ts) (\<lambda>(kind, text).
            if equal_fold text ''or'' then
              bindE (parse ParseAnd (tl ts)) (\<lambda>(right, ts'). parse (OrLoop (left \<or> right)) ts')
            else Inr (left, ts))
      | ParseAnd \<Rightarrow> bindE (parse ParseTerm ts) (\<lambda>(left, ts'). parse (AndLoop left) ts')
      | AndLoop left \<Rightarrow>
          bindE (current ts) (\<lambda>(kind, text).
            if equal_fold text ''and'' then
              bindE (parse ParseTerm (tl ts)) (\<lambda>(right, ts'). parse (AndLoop (left \<and> right)) ts')
            else Inr (left, ts))
      | ParseTerm \<Rightarrow>
          bindE (current ts) (\<lambda>(kind, text).
            if kind = markerLeftParen then
              bindE (parse ParseOr (tl ts)) (\<lambda>(v, ts').
              bindE (current ts') (\<lambda>(kind', text').
                if kind' \<noteq> markerRightParen then Inl MissingParenthesis else Inr (v, tl ts')))
            else parse_comparison t ts))"

primrec marker_parser :: "nat \<Rightarrow> target \<Rightarrow> parse_mode \<Rightarrow> token list \<Rightarrow> parse_result" where
  "marker_parser 0 t = (\<lambda>mode ts. Inl OutOfFuel)"
| "marker_parser (Suc n) t = parser_step t (marker_parser n t)"

definition marker_fuel :: "token list \<Rightarrow> nat" where
  "marker_fuel ts = 3 * length ts + 3"

definition EvaluateMarker :: "string \<Rightarrow> target \<Rightarrow> requirement_error + bool" where
  "EvaluateMarker expression t =
     bindE (tokenizeMarker expression) (\<lambda>tokens.
     bindE (marker_parser (marker_fuel tokens) t ParseOr tokens) (\<lambda>(result, rest).
     bindE (current rest) (\<lambda>(kind, text).
       if kind \<noteq> markerEOF then Inl (UnexpectedToken text) else Inr result)))"

section \<open>Requirements\<close>

record pip_requirement =
  pr_Name :: string
  pr_Constraint :: string
  pr_Marker :: string
  pr_Active :: bool

definition alphanumeric :: string where
  "alphanumeric = capitals @ letters @ digits"

definition pythonNamePattern :: regexp where
  "pythonNamePattern =
     Then (Class alphanumeric) (Opt (Then (Star (Class (alphanumeric @ ''._-''))) (Class alphanumeric)))"

definition directURLScheme :: regexp where
  "directURLScheme =
     Then (any_of [Then (folded ''http'') (Opt (folded ''s'')), folded ''file'', Then (folded ''git'') (Class ''+''),
                   Then (folded ''hg'') (Class ''+''), Then (folded ''svn'') (Class ''+''), Then (folded ''bzr'') (Class ''+'')])
       (Class '':'')"

definition NormalizeName :: "string \<Rightarrow> string" where
  "NormalizeName name = to_lower (replace_runs ''-_.'' ''-'' False name)"

text \<open>\<^verbatim>\<open>markerSeparator\<close> splits at the first semicolon outside quotes.\<close>

fun markerSeparator :: "char option \<Rightarrow> string \<Rightarrow> (string \<times> string) option" where
  "markerSeparator quote [] = None"
| "markerSeparator quote (c # s) =
     (case quote of
        Some q \<Rightarrow> map_option (apfst (Cons c)) (markerSeparator (if c = q then None else Some q) s)
      | None \<Rightarrow>
          if c \<in> set quotes then map_option (apfst (Cons c)) (markerSeparator (Some c) s)
          else if c = CHR '';'' then Some ([], s)
          else map_option (apfst (Cons c)) (markerSeparator None s))"

definition strip_parens :: "string \<Rightarrow> string" where
  "strip_parens s = (if has_prefix s ''('' \<and> has_suffix s '')'' then trim_space (drop 1 (butlast s)) else s)"

definition ParseRequirement :: "string \<Rightarrow> target \<Rightarrow> requirement_error + pip_requirement" where
  "ParseRequirement raw0 t =
     (let raw = trim_space raw0
      in if raw = [] then Inl EmptyRequirement
         else if prefix_match directURLScheme raw \<noteq> None \<or> has_prefix raw ''.'' \<or> has_prefix raw ''/'' then
           Inl (UnsupportedSource raw)
         else case prefix_match pythonNamePattern raw of
           None \<Rightarrow> Inl (BadName raw)
         | Some name \<Rightarrow>
             (let remainder = trim_space (trim_prefix raw name)
              in if has_prefix remainder ''['' then Inl (Extras raw)
                 else if has_prefix remainder ''@'' \<or> contains remainder '' @ '' then Inl (DirectURL raw)
                 else
                   let (constraint, marker) = (case markerSeparator None remainder of
                         None \<Rightarrow> (remainder, []) | Some (a, b) \<Rightarrow> (trim_space a, trim_space b))
                   in case NormalizeConstraint (strip_parens constraint) of
                     Inl e \<Rightarrow> Inl (RequirementConstraint name e)
                   | Inr normalized \<Rightarrow>
                       (let requirement = \<lparr>pr_Name = NormalizeName name, pr_Constraint = normalized,
                              pr_Marker = marker, pr_Active = True\<rparr>
                        in if marker = [] then Inr requirement
                           else case EvaluateMarker marker t of
                             Inl e \<Rightarrow> Inl (RequirementMarker name e)
                           | Inr active \<Rightarrow> Inr (requirement\<lparr>pr_Active := active\<rparr>))))"

end
