(* ===== verification/Marker_Properties.thy ===== *)
theory Marker_Properties
  imports Pypi_Requirement
begin

text \<open>
  Environment markers: the evaluator returns a value or an error of its own for every input, and a
  marker written out from an expression evaluates to the meaning of the expression.
\<close>

section \<open>The evaluator always returns\<close>

definition eof :: token where
  "eof = (markerEOF, [])"

definition ended :: "token list \<Rightarrow> bool" where
  "ended ts \<longleftrightarrow> (\<exists>us. ts = us @ [eof])"

lemma ended_Cons: "ended (t # ts) \<longleftrightarrow> ended ts \<or> (t = eof \<and> ts = [])"
  by (auto simp: ended_def Cons_eq_append_conv)

lemma not_ended_Nil [simp]: "\<not> ended []"
  by (simp add: ended_def)

lemma ended_append [simp]: "ended ts \<Longrightarrow> ended (us @ ts)"
  by (auto simp: ended_def)

text \<open>A token other than the last can be consumed.\<close>

lemma ended_head:
  assumes "ended ts"
  obtains t us where "ts = t # us" "t \<noteq> eof \<Longrightarrow> ended us"
  using assms by (cases ts) (auto simp: ended_Cons)

definition proper :: "requirement_error \<Rightarrow> bool" where
  "proper e \<longleftrightarrow> e \<noteq> OutOfFuel \<and> e \<noteq> IndexPanic"

text \<open>Each step of the tokenizer fails, skips a byte or adds a token.\<close>

lemma tokenize_step:
  obtains (stop) e where "tokenizeMarker (c # s) = Inl e" "proper e"
    | (skip) "tokenizeMarker (c # s) = tokenizeMarker s"
    | (token) u s' where "tokenizeMarker (c # s) = bindE (tokenizeMarker s') (\<lambda>ts. Inr (u # ts))" "u \<noteq> eof"
        "length s' \<le> length s"
proof -
  have drop: "length (dropWhile p s) \<le> length s" for p :: "char \<Rightarrow> bool" by (simp add: length_dropWhile_le)
  have quote: "length (drop 1 (dropWhile (\<lambda>x. x \<noteq> c) s)) \<le> length s" using drop [of "\<lambda>x. x \<noteq> c"] by simp
  note st = tokenizeMarker.simps(2) [of c s]
  consider "space_byte c" | "\<not> space_byte c" "c = CHR ''(''" | "\<not> space_byte c" "c = CHR '')''"
    | "\<not> space_byte c" "c \<noteq> CHR ''(''" "c \<noteq> CHR '')''" "c \<in> set quotes"
    | "\<not> space_byte c" "c \<noteq> CHR ''(''" "c \<noteq> CHR '')''" "c \<notin> set quotes" "c \<in> set comparison_chars"
    | "\<not> space_byte c" "c \<noteq> CHR ''(''" "c \<noteq> CHR '')''" "c \<notin> set quotes" "c \<notin> set comparison_chars" by blast
  then show ?thesis
  proof cases
    case 1
    then show ?thesis using skip st by simp
  next
    case 2
    then show ?thesis using token [of s "(markerLeftParen, ''('')"] st by (simp add: eof_def)
  next
    case 3
    then show ?thesis using token [of s "(markerRightParen, '')'')"] st by (simp add: eof_def)
  next
    case 4
    then show ?thesis using token [OF _ _ quote, of "(markerString, takeWhile (\<lambda>x. x \<noteq> c) s)"] stop [of UnterminatedString] st
      by (cases "c \<in> set s") (simp_all add: eof_def proper_def)
  next
    case 5
    then show ?thesis using token [of s "(markerOperator, [c])"] token [of "drop 1 s" "(markerOperator, [c, CHR ''=''])"] st
      by (cases "take 1 s = ''=''") (simp_all add: eof_def)
  next
    case 6
    then show ?thesis using token [OF _ _ drop, of word_char "(markerWord, c # takeWhile word_char s)"]
        stop [of "UnexpectedCharacter [c]"] st
      by (cases "word_char c") (simp_all add: eof_def proper_def)
  qed
qed

lemma tokenize_result: "case tokenizeMarker s of Inl e \<Rightarrow> proper e | Inr ts \<Rightarrow> ended ts"
proof (induction s rule: length_induct)
  case (1 s)
  show ?case
  proof (cases s)
    case Nil
    then show ?thesis by (simp add: ended_def eof_def)
  next
    case (Cons c cs)
    show ?thesis unfolding Cons
    proof (cases rule: tokenize_step [of c cs])
      case (token u s')
      then have "case tokenizeMarker s' of Inl e \<Rightarrow> proper e | Inr ts \<Rightarrow> ended ts" using 1 Cons by simp
      then show "case tokenizeMarker (c # cs) of Inl e \<Rightarrow> proper e | Inr ts \<Rightarrow> ended ts"
        using token(1,2) by (cases "tokenizeMarker s'") (simp_all add: ended_Cons del: tokenizeMarker.simps)
    qed (use 1 Cons in \<open>simp_all del: tokenizeMarker.simps\<close>)
  qed
qed

lemma tokenize_ended: "tokenizeMarker s = Inr ts \<Longrightarrow> ended ts"
  using tokenize_result [of s] by simp

lemma tokenize_proper: "tokenizeMarker s = Inl e \<Longrightarrow> proper e"
  using tokenize_result [of s] by simp

text \<open>The result of a parse is a proper error or leaves a shorter list that still ends properly.\<close>

definition parsed :: "bool \<Rightarrow> token list \<Rightarrow> requirement_error + 'a \<times> token list \<Rightarrow> bool" where
  "parsed strict ts r \<longleftrightarrow> (case r of Inl e \<Rightarrow> proper e
     | Inr (_, ts') \<Rightarrow> ended ts' \<and> (if strict then length ts' < length ts else length ts' \<le> length ts))"

lemma parsed_Inl [simp]: "parsed b ts (Inl e) = proper e"
  by (simp add: parsed_def)

lemma parsed_Inr [simp]:
  "parsed b ts (Inr (v, ts')) \<longleftrightarrow> ended ts' \<and> (if b then length ts' < length ts else length ts' \<le> length ts)"
  by (simp add: parsed_def)

lemma parsed_bind:
  assumes "parsed b ts r" and "\<And>v ts'. r = Inr (v, ts') \<Longrightarrow> ended ts' \<Longrightarrow>
      (if b then length ts' < length ts else length ts' \<le> length ts) \<Longrightarrow> parsed b' us (f (v, ts'))"
  shows "parsed b' us (bindE r f)"
proof (cases r)
  case (Inl e)
  with assms(1) show ?thesis by simp
next
  case (Inr x)
  obtain v ts' where x: "x = (v, ts')" by fastforce
  have "ended ts'" "if b then length ts' < length ts else length ts' \<le> length ts" using assms(1) Inr x by simp_all
  from assms(2) [OF _ this] Inr x show ?thesis by simp
qed

lemma parseOperand_parsed: "ended ts \<Longrightarrow> parsed True ts (parseOperand t ts)"
  by (erule ended_head) (auto simp: parseOperand_def current_def proper_def eof_def split: option.split)

lemma equal_fold_nonempty: "equal_fold text w \<Longrightarrow> w \<noteq> [] \<Longrightarrow> text \<noteq> []"
  by (auto simp: equal_fold_def to_lower_def)

lemma parseOperator_parsed:
  assumes "ended ts"
  shows "parsed True ts (parseOperator ts)"
proof -
  obtain kind word us where ts: "ts = (kind, word) # us" and us: "(kind, word) \<noteq> eof \<Longrightarrow> ended us"
    using assms by (elim ended_head) auto
  show ?thesis
  proof (cases "kind \<noteq> markerOperator \<and> \<not> equal_fold word ''in'' \<and> equal_fold word ''not'' \<and> equal_fold (snd (peek ts)) ''in''")
    case True
    then have "word \<noteq> []" using equal_fold_nonempty by blast
    then have "ended us" using us by (auto simp: eof_def)
    moreover have p: "snd (peek ts) \<noteq> []" using True equal_fold_nonempty by blast
    ultimately obtain u vs where u: "us = u # vs" "ended vs" using ts by (elim ended_head) (auto simp: peek_def eof_def split: if_splits)
    then show ?thesis using True ts by (simp add: parseOperator_def current_def)
  next
    case False
    then show ?thesis using us equal_fold_nonempty [of word "''in''"]
      by (auto simp: ts parseOperator_def current_def proper_def eof_def)
  qed
qed

lemma parse_comparison_parsed:
  assumes "ended ts"
  shows "parsed True ts (parse_comparison t ts)"
proof -
  have "parsed True ts (bindE (parseOperand t ts2) (\<lambda>((r, rv), ts3). Inr (compareMarkerValues l r op lv rv, ts3)))"
    if "ended ts2" "length ts2 < length ts" for ts2 l op lv
    by (rule parsed_bind [OF parseOperand_parsed [OF that(1)]]) (use that in auto)
  then have 2: "parsed True ts (bindE (parseOperator ts1) (\<lambda>(op, ts2).
      bindE (parseOperand t ts2) (\<lambda>((r, rv), ts3). Inr (compareMarkerValues l r op lv rv, ts3))))"
    if "ended ts1" "length ts1 < length ts" for ts1 l lv
    by (intro parsed_bind [OF parseOperator_parsed [OF that(1)]]) (use that in auto)
  show ?thesis unfolding parse_comparison_def
    by (rule parsed_bind [OF parseOperand_parsed [OF assms]]) (use 2 in auto)
qed

fun fuel_needed :: "parse_mode \<Rightarrow> nat \<Rightarrow> nat" where
  "fuel_needed ParseOr l = 3 * l + 3"
| "fuel_needed (OrLoop _) l = 3 * l + 2"
| "fuel_needed ParseAnd l = 3 * l + 2"
| "fuel_needed (AndLoop _) l = 3 * l + 1"
| "fuel_needed ParseTerm l = 3 * l + 1"

definition consumes :: "parse_mode \<Rightarrow> bool" where
  "consumes m = (case m of OrLoop _ \<Rightarrow> False | AndLoop _ \<Rightarrow> False | _ \<Rightarrow> True)"

lemma parsed_weaken: "parsed b us r \<Longrightarrow> length us < length ts \<Longrightarrow> parsed b' ts r"
  by (auto simp: parsed_def split: sum.splits if_splits)

lemma marker_parser_parsed:
  "ended ts \<Longrightarrow> fuel_needed mode (length ts) \<le> n \<Longrightarrow> parsed (consumes mode) ts (marker_parser n t mode ts)"
proof (induction n arbitrary: mode ts)
  case 0
  then show ?case by (cases mode) simp_all
next
  case (Suc n)
  obtain kind word us where ts: "ts = (kind, word) # us" and us: "(kind, word) \<noteq> eof \<Longrightarrow> ended us"
    using Suc.prems(1) by (elim ended_head) auto
  have loop: "parsed False ts (bindE (marker_parser n t m us) (\<lambda>(r, ts'). marker_parser n t (l r) ts'))"
    if "ended us" "fuel_needed m (length us) \<le> n" "consumes m" "\<And>r. \<not> consumes (l r)"
      "\<And>r k. k < length us \<Longrightarrow> fuel_needed (l r) k \<le> n" for m l
  proof (rule parsed_bind [OF Suc.IH [OF that(1,2)]])
    fix r ts'
    assume "ended ts'" "if consumes m then length ts' < length us else length ts' \<le> length us"
    then have e: "ended ts'" "length ts' < length us" using that(3) by simp_all
    have "parsed False ts' (marker_parser n t (l r) ts')" using Suc.IH [OF e(1) that(5) [OF e(2)], of r] that(4) by simp
    then show "parsed False ts (case (r, ts') of (r, ts') \<Rightarrow> marker_parser n t (l r) ts')"
      using e(2) ts by (auto intro: parsed_weaken)
  qed
  have seq: "parsed True ts (bindE (marker_parser n t m ts) (\<lambda>(r, ts'). marker_parser n t (l r) ts'))"
    if "fuel_needed m (length ts) \<le> n" "consumes m" "\<And>r. \<not> consumes (l r)"
      "\<And>r k. k < length ts \<Longrightarrow> fuel_needed (l r) k \<le> n" for m l
  proof (rule parsed_bind [OF Suc.IH [OF Suc.prems(1) that(1)]])
    fix r ts'
    assume "ended ts'" "if consumes m then length ts' < length ts else length ts' \<le> length ts"
    then have e: "ended ts'" "length ts' < length ts" using that(2) by simp_all
    have "parsed False ts' (marker_parser n t (l r) ts')" using Suc.IH [OF e(1) that(4) [OF e(2)], of r] that(3) by simp
    then show "parsed True ts (case (r, ts') of (r, ts') \<Rightarrow> marker_parser n t (l r) ts')"
      using e(2) by (auto intro: parsed_weaken)
  qed
  show ?case
  proof (cases mode)
    case ParseOr
    then show ?thesis using seq [of ParseAnd OrLoop] Suc.prems(2) by (simp add: consumes_def parser_step_def)
  next
    case (OrLoop left)
    then show ?thesis
      using loop [of ParseAnd "\<lambda>r. OrLoop (left \<or> r)"] Suc.prems us equal_fold_nonempty [of word "''or''"]
      by (auto simp: ts current_def consumes_def eof_def parser_step_def)
  next
    case ParseAnd
    then show ?thesis using seq [of ParseTerm AndLoop] Suc.prems(2) by (simp add: consumes_def parser_step_def)
  next
    case (AndLoop left)
    then show ?thesis
      using loop [of ParseTerm "\<lambda>r. AndLoop (left \<and> r)"] Suc.prems us equal_fold_nonempty [of word "''and''"]
      by (auto simp: ts current_def consumes_def eof_def parser_step_def)
  next
    case ParseTerm
    show ?thesis
    proof (cases "kind = markerLeftParen")
      case True
      then have e: "ended us" using us by (simp add: eof_def)
      have "parsed True us (marker_parser n t ParseOr us)"
        using Suc.IH [OF e, of ParseOr] Suc.prems(2) ParseTerm ts by (simp add: consumes_def)
      then have "parsed True ts (bindE (marker_parser n t ParseOr us) (\<lambda>(v, ts'). bindE (current ts') (\<lambda>(kind', text').
          if kind' \<noteq> markerRightParen then Inl MissingParenthesis else Inr (v, tl ts'))))"
      proof (rule parsed_bind)
        fix v :: bool and ts'
        assume e': "ended ts'" and len: "if True then length ts' < length us else length ts' \<le> length us"
        obtain k x vs where "ts' = (k, x) # vs" "(k, x) \<noteq> eof \<Longrightarrow> ended vs" using e' by (elim ended_head) auto
        then show "parsed True ts (case (v, ts') of (v, ts') \<Rightarrow> bindE (current ts') (\<lambda>(kind', text').
            if kind' \<noteq> markerRightParen then Inl MissingParenthesis else Inr (v, tl ts')))"
          using len ts by (auto simp: current_def proper_def eof_def)
      qed
      with True ParseTerm show ?thesis by (simp add: ts current_def consumes_def parser_step_def)
    next
      case False
      then show ?thesis using parse_comparison_parsed [OF Suc.prems(1)] ParseTerm by (simp add: ts current_def consumes_def parser_step_def)
    qed
  qed
qed

text \<open>C31: evaluating a marker ends on every input, with a value or an error the code reports: the
  evaluator never reads past the end of its tokens, and the bound on its depth is never reached.\<close>

theorem EvaluateMarker_returns:
  "EvaluateMarker expression t \<noteq> Inl OutOfFuel \<and> EvaluateMarker expression t \<noteq> Inl IndexPanic"
proof (cases "tokenizeMarker expression")
  case (Inl e)
  then show ?thesis using tokenize_proper [OF Inl] by (simp add: EvaluateMarker_def proper_def)
next
  case (Inr ts)
  have e: "ended ts" by (rule tokenize_ended [OF Inr])
  have p: "parsed True ts (marker_parser (marker_fuel ts) t ParseOr ts)"
    using marker_parser_parsed [OF e, of ParseOr] by (simp add: marker_fuel_def consumes_def)
  show ?thesis
  proof (cases "marker_parser (marker_fuel ts) t ParseOr ts")
    case (Inl err)
    then show ?thesis using p Inr by (simp add: EvaluateMarker_def proper_def)
  next
    case (Inr x)
    obtain v ts' where x: "x = (v, ts')" by fastforce
    then have "ended ts'" using p Inr by simp
    then show ?thesis using Inr x \<open>tokenizeMarker expression = Inr ts\<close>
      by (elim ended_head) (auto simp: EvaluateMarker_def current_def split: if_splits)
  qed
qed

end
