(* ===== verification/Marker_Roundtrip.thy ===== *)
theory Marker_Roundtrip
  imports Marker_Properties
begin

text \<open>
  Printing and evaluating markers. An expression over the supported variables and operators is
  printed with as few parentheses as its precedences need; the evaluator gives back its meaning.
\<close>

section \<open>The evaluator without fuel\<close>

definition refined :: "parse_result \<Rightarrow> parse_result \<Rightarrow> bool" where
  "refined a b \<longleftrightarrow> a = Inl OutOfFuel \<or> b = a"

lemma refined_refl [intro, simp]: "refined a a"
  by (simp add: refined_def)

lemma refined_bind:
  assumes "refined a b" "\<And>v ts. refined (f (v, ts)) (g (v, ts))"
  shows "refined (bindE a f) (bindE b g)"
  using assms by (cases a) (auto simp: refined_def)

lemma parser_step_mono:
  assumes "\<And>m us. refined (p m us) (q m us)"
  shows "refined (parser_step t p mode ts) (parser_step t q mode ts)"
  unfolding parser_step_def
  by (cases mode; cases "current ts") (auto intro!: refined_bind assms)

lemma marker_parser_mono: "refined (marker_parser n t mode ts) (marker_parser (n + k) t mode ts)"
proof (induction n arbitrary: mode ts)
  case 0
  then show ?case by (simp add: refined_def)
next
  case (Suc n)
  then show ?case by (simp add: parser_step_mono)
qed

text \<open>What the evaluator gives with enough fuel.\<close>

definition parse :: "target \<Rightarrow> parse_mode \<Rightarrow> token list \<Rightarrow> parse_result" where
  "parse t mode ts = marker_parser (LEAST n. marker_parser n t mode ts \<noteq> Inl OutOfFuel) t mode ts"

lemma parse_eq:
  assumes "marker_parser n t mode ts \<noteq> Inl OutOfFuel"
  shows "parse t mode ts = marker_parser n t mode ts"
proof -
  let ?l = "LEAST n. marker_parser n t mode ts \<noteq> Inl OutOfFuel"
  have "marker_parser ?l t mode ts \<noteq> Inl OutOfFuel" using assms by (rule LeastI)
  moreover have "?l \<le> n" using assms by (rule Least_le)
  then obtain k where "n = ?l + k" using le_Suc_ex by blast
  ultimately show ?thesis using marker_parser_mono [of ?l t mode ts k] by (simp add: refined_def parse_def)
qed

lemma parse_refines: "refined (marker_parser n t mode ts) (parse t mode ts)"
  using parse_eq by (auto simp: refined_def)

lemma enough_fuel: "ended ts \<Longrightarrow> fuel_needed mode (length ts) \<le> n \<Longrightarrow> marker_parser n t mode ts \<noteq> Inl OutOfFuel"
  using marker_parser_parsed [of ts mode n t] by (auto simp: proper_def)

lemma parse_unfold:
  assumes "ended ts"
  shows "parse t mode ts = parser_step t (parse t) mode ts"
proof -
  let ?n = "fuel_needed mode (length ts)"
  have ne: "parser_step t (marker_parser ?n t) mode ts \<noteq> Inl OutOfFuel"
    using enough_fuel [OF assms, of mode "Suc ?n" t] by simp
  then have "parse t mode ts = parser_step t (marker_parser ?n t) mode ts"
    using parse_eq [of "Suc ?n" t mode ts] by simp
  moreover have "refined (parser_step t (marker_parser ?n t) mode ts) (parser_step t (parse t) mode ts)"
    by (rule parser_step_mono) (rule parse_refines)
  ultimately show ?thesis using ne by (simp add: refined_def)
qed

lemmas parse_or = parse_unfold [of _ _ ParseOr, unfolded parser_step_def parse_mode.case]
  and parse_or_loop = parse_unfold [of _ _ "OrLoop l" for l, unfolded parser_step_def parse_mode.case]
  and parse_and = parse_unfold [of _ _ ParseAnd, unfolded parser_step_def parse_mode.case]
  and parse_and_loop = parse_unfold [of _ _ "AndLoop l" for l, unfolded parser_step_def parse_mode.case]
  and parse_term = parse_unfold [of _ _ ParseTerm, unfolded parser_step_def parse_mode.case]

section \<open>Expressions\<close>

datatype operand = Variable string | Literal string

datatype marker = Comparison operand string operand | MAnd marker marker | MOr marker marker

fun operand_value :: "target \<Rightarrow> operand \<Rightarrow> string" where
  "operand_value t (Variable v) = the (markerVariableValue v t)"
| "operand_value t (Literal s) = s"

fun operand_variable :: "operand \<Rightarrow> string" where
  "operand_variable (Variable v) = v"
| "operand_variable (Literal s) = []"

fun meaning :: "target \<Rightarrow> marker \<Rightarrow> bool" where
  "meaning t (Comparison a op b) =
     compareMarkerValues (operand_value t a) (operand_value t b) op (operand_variable a) (operand_variable b)"
| "meaning t (MAnd a b) = (meaning t a \<and> meaning t b)"
| "meaning t (MOr a b) = (meaning t a \<or> meaning t b)"

definition marker_variables :: "string list" where
  "marker_variables = [''python_version'', ''python_full_version'', ''sys_platform'', ''os_name'', ''platform_system'',
     ''implementation_name'', ''platform_python_implementation'', ''implementation_version'', ''extra'']"

definition printable_operators :: "string list" where
  "printable_operators = [''=='', ''!='', ''<'', ''<='', ''>'', ''>='', ''~='', ''in'', ''not in'']"

fun operand_ok :: "operand \<Rightarrow> bool" where
  "operand_ok (Variable v) = (v \<in> set marker_variables)"
| "operand_ok (Literal s) = (CHR 0x22 \<notin> set s)"

fun marker_ok :: "marker \<Rightarrow> bool" where
  "marker_ok (Comparison a op b) = (operand_ok a \<and> op \<in> set printable_operators \<and> operand_ok b)"
| "marker_ok (MAnd a b) = (marker_ok a \<and> marker_ok b)"
| "marker_ok (MOr a b) = (marker_ok a \<and> marker_ok b)"

fun operand_token :: "operand \<Rightarrow> token" where
  "operand_token (Variable v) = (markerWord, v)"
| "operand_token (Literal s) = (markerString, s)"

definition operator_tokens :: "string \<Rightarrow> token list" where
  "operator_tokens op = (if op = ''in'' then [(markerWord, ''in'')]
     else if op = ''not in'' then [(markerWord, ''not''), (markerWord, ''in'')]
     else [(markerOperator, op)])"

definition paren :: "bool \<Rightarrow> token list \<Rightarrow> token list" where
  "paren b ts = (if b then (markerLeftParen, ''('') # ts @ [(markerRightParen, '')'')] else ts)"

text \<open>Precedence 0 is a disjunction, 1 a conjunction and 2 a term.\<close>

fun render :: "nat \<Rightarrow> marker \<Rightarrow> token list" where
  "render p (Comparison a op b) = operand_token a # operator_tokens op @ [operand_token b]"
| "render p (MAnd a b) = paren (p > 1) (render 1 a @ (markerWord, ''and'') # render 2 b)"
| "render p (MOr a b) = paren (p > 0) (render 0 a @ (markerWord, ''or'') # render 1 b)"

section \<open>Tokens evaluate to the meaning\<close>

lemma parseOperand_token: "operand_ok a \<Longrightarrow> parseOperand t (operand_token a # ts) = Inr ((operand_value t a, operand_variable a), ts)"
  by (cases a) (auto simp: parseOperand_def current_def marker_variables_def markerVariableValue_def)

lemma parseOperator_tokens:
  assumes "op \<in> set printable_operators"
  shows "parseOperator (operator_tokens op @ ts) = Inr (op, ts)"
proof -
  have fold: "equal_fold ''in'' ''in''" "\<not> equal_fold ''not'' ''in''" "equal_fold ''not'' ''not''" by code_simp+
  show ?thesis using assms fold
    by (auto simp: printable_operators_def operator_tokens_def parseOperator_def current_def marker_operators_def peek_def)
qed

lemma parse_comparison_tokens:
  assumes "marker_ok (Comparison a op b)"
  shows "parse_comparison t (render p (Comparison a op b) @ ts) = Inr (meaning t (Comparison a op b), ts)"
  using assms parseOperand_token parseOperator_tokens [of op "operand_token b # ts"] by (simp add: parse_comparison_def)

lemma operand_token_kind: "operand_token a = (kind, word) \<Longrightarrow> kind \<noteq> markerLeftParen"
  by (cases a) auto

definition stops :: "string list \<Rightarrow> token list \<Rightarrow> bool" where
  "stops words ts \<longleftrightarrow> ts \<noteq> [] \<and> (\<forall>w\<in>set words. \<not> equal_fold (snd (hd ts)) w)"

lemma or_loop_stops: "ended ts \<Longrightarrow> stops [''or''] ts \<Longrightarrow> parse t (OrLoop v) ts = Inr (v, ts)"
  by (subst parse_or_loop, assumption, cases ts) (simp_all add: stops_def current_def case_prod_unfold)

lemma and_loop_stops: "ended ts \<Longrightarrow> stops [''and''] ts \<Longrightarrow> parse t (AndLoop v) ts = Inr (v, ts)"
  by (subst parse_and_loop, assumption, cases ts) (simp_all add: stops_def current_def case_prod_unfold)

lemma connectives: "equal_fold ''or'' ''or''" "equal_fold ''and'' ''and''" "\<not> equal_fold ''or'' ''and''"
  "\<not> equal_fold '')'' ''or''" "\<not> equal_fold '')'' ''and''" "\<not> equal_fold [] ''or''" "\<not> equal_fold [] ''and''"
  by code_simp+

text \<open>How the three levels of the grammar follow from each other; \<open>r\<close> are the tokens of an expression
  with value \<open>v\<close>.\<close>

lemma conjunction_of_term:
  "ended ts \<Longrightarrow> parse t ParseTerm (r @ ts) = Inr (v, ts) \<Longrightarrow> parse t ParseAnd (r @ ts) = parse t (AndLoop v) ts"
  by (subst parse_and) simp_all

lemma disjunction_of_conjunction:
  "ended ts \<Longrightarrow> stops [''and''] ts \<Longrightarrow> parse t ParseAnd (r @ ts) = parse t (AndLoop v) ts \<Longrightarrow>
   parse t ParseOr (r @ ts) = parse t (OrLoop v) ts"
  by (subst parse_or) (simp_all add: and_loop_stops)

lemma term_of_disjunction:
  assumes "ended ts" "parse t ParseOr (r @ (markerRightParen, '')'') # ts) = parse t (OrLoop v) ((markerRightParen, '')'') # ts)"
  shows "parse t ParseTerm ((markerLeftParen, ''('') # r @ (markerRightParen, '')'') # ts) = Inr (v, ts)"
proof -
  have e: "ended ((markerRightParen, '')'') # ts)" using assms(1) by (simp add: ended_Cons)
  have "parse t (OrLoop v) ((markerRightParen, '')'') # ts) = Inr (v, (markerRightParen, '')'') # ts)"
    by (rule or_loop_stops [OF e]) (simp add: stops_def connectives)
  with assms e show ?thesis by (subst parse_term) (simp_all add: current_def ended_Cons)
qed

lemma and_loop_continues:
  assumes "ended ts" "parse t ParseTerm (r @ ts) = Inr (v, ts)"
  shows "parse t (AndLoop u) ((markerWord, ''and'') # r @ ts) = parse t (AndLoop (u \<and> v)) ts"
  using assms by (subst parse_and_loop) (simp_all add: current_def connectives ended_Cons)

lemma or_loop_continues:
  assumes "ended ts" "stops [''and''] ts" "parse t ParseAnd (r @ ts) = parse t (AndLoop v) ts"
  shows "parse t (OrLoop u) ((markerWord, ''or'') # r @ ts) = parse t (OrLoop (u \<or> v)) ts"
  using assms by (subst parse_or_loop) (simp_all add: current_def connectives ended_Cons and_loop_stops)

lemma render_parse:
  "marker_ok m \<Longrightarrow>
     (\<forall>ts. ended ts \<longrightarrow> parse t ParseTerm (render 2 m @ ts) = Inr (meaning t m, ts)) \<and>
     (\<forall>ts. ended ts \<longrightarrow> parse t ParseAnd (render 1 m @ ts) = parse t (AndLoop (meaning t m)) ts) \<and>
     (\<forall>ts. ended ts \<and> stops [''and''] ts \<longrightarrow> parse t ParseOr (render 0 m @ ts) = parse t (OrLoop (meaning t m)) ts)"
proof (induction m)
  case (Comparison a op b)
  have T: "parse t ParseTerm (render 2 (Comparison a op b) @ ts) = Inr (meaning t (Comparison a op b), ts)" if "ended ts" for ts
    using that parse_comparison_tokens [OF Comparison.prems, of t 2 ts]
    by (subst parse_term) (auto simp: current_def ended_Cons split: prod.split dest: operand_token_kind)
  have A: "parse t ParseAnd (render 1 (Comparison a op b) @ ts) = parse t (AndLoop (meaning t (Comparison a op b))) ts"
    if "ended ts" for ts using conjunction_of_term [OF that T [OF that]] by simp
  have "parse t ParseOr (render 0 (Comparison a op b) @ ts) = parse t (OrLoop (meaning t (Comparison a op b))) ts"
    if "ended ts" "stops [''and''] ts" for ts using disjunction_of_conjunction [OF that A [OF that(1)]] by simp
  with T A show ?case by blast
next
  case (MAnd a b)
  have A: "parse t ParseAnd (render 1 (MAnd a b) @ ts) = parse t (AndLoop (meaning t (MAnd a b))) ts" if "ended ts" for ts
    using MAnd that and_loop_continues [OF that] by (simp add: paren_def ended_Cons)
  have O: "parse t ParseOr (render 0 (MAnd a b) @ ts) = parse t (OrLoop (meaning t (MAnd a b))) ts"
    if "ended ts" "stops [''and''] ts" for ts
    using disjunction_of_conjunction [OF that A [OF that(1)]] by (simp add: paren_def)
  have "parse t ParseTerm (render 2 (MAnd a b) @ ts) = Inr (meaning t (MAnd a b), ts)" if "ended ts" for ts
    using term_of_disjunction [OF that, of t "render 0 (MAnd a b)"] O [of "(markerRightParen, '')'') # ts"] that
    by (simp add: paren_def ended_Cons stops_def connectives)
  with A O show ?case by blast
next
  case (MOr a b)
  have O: "parse t ParseOr (render 0 (MOr a b) @ ts) = parse t (OrLoop (meaning t (MOr a b))) ts"
    if "ended ts" "stops [''and''] ts" for ts
    using MOr that or_loop_continues [OF that] by (simp add: paren_def ended_Cons stops_def connectives)
  have T: "parse t ParseTerm (render 2 (MOr a b) @ ts) = Inr (meaning t (MOr a b), ts)" if "ended ts" for ts
    using term_of_disjunction [OF that, of t "render 0 (MOr a b)"] O [of "(markerRightParen, '')'') # ts"] that
    by (simp add: paren_def ended_Cons stops_def connectives)
  have "parse t ParseAnd (render 1 (MOr a b) @ ts) = parse t (AndLoop (meaning t (MOr a b))) ts" if "ended ts" for ts
    using conjunction_of_term [OF that T [OF that]] by (simp add: paren_def)
  with T O show ?case by blast
qed

section \<open>Text\<close>

fun token_text :: "token \<Rightarrow> string" where
  "token_text (markerString, s) = [CHR 0x22] @ s @ [CHR 0x22]"
| "token_text (kind, s) = s"

definition marker_text :: "marker \<Rightarrow> string" where
  "marker_text m = concat (map (\<lambda>u. token_text u @ '' '') (render 0 m))"

fun token_ok :: "token \<Rightarrow> bool" where
  "token_ok (markerWord, w) = (w \<noteq> [] \<and> list_all word_char w)"
| "token_ok (markerString, s) = (CHR 0x22 \<notin> set s)"
| "token_ok (markerOperator, op) = (op \<in> set [''=='', ''!='', ''<'', ''<='', ''>'', ''>='', ''~=''])"
| "token_ok (markerLeftParen, w) = (w = ''('')"
| "token_ok (markerRightParen, w) = (w = '')'')"
| "token_ok (markerEOF, w) = False"

lemma word_chars: "\<not> word_char CHR '' ''" "\<not> word_char CHR ''(''" "\<not> word_char CHR '')''" "word_char c \<Longrightarrow> \<not> space_byte c"
  "word_char c \<Longrightarrow> c \<noteq> CHR ''(''" "word_char c \<Longrightarrow> c \<noteq> CHR '')''" "word_char c \<Longrightarrow> c \<notin> set quotes"
  "word_char c \<Longrightarrow> c \<notin> set comparison_chars"
  by (auto simp: word_char_def space_byte_def comparison_chars_def)

lemma tokenize_space [simp]: "tokenizeMarker (CHR '' '' # s) = tokenizeMarker s"
  by (simp add: space_byte_def)

lemma tokenize_word:
  assumes "w \<noteq> []" "list_all word_char w"
  shows "tokenizeMarker (w @ CHR '' '' # s) = bindE (tokenizeMarker s) (\<lambda>ts. Inr ((markerWord, w) # ts))"
proof -
  obtain c cs where w: "w = c # cs" using assms(1) by (cases w) auto
  have cs: "dropWhile word_char (cs @ CHR '' '' # s) = CHR '' '' # s" "takeWhile word_char (cs @ CHR '' '' # s) = cs"
    using assms(2) w word_chars(1) by (auto simp: list_all_iff dropWhile_append takeWhile_append)
  have "word_char c" using assms(2) w by simp
  then show ?thesis using word_chars(4-8) [of c] cs
    unfolding w append_Cons tokenizeMarker.simps(2) [of c] by (simp del: tokenizeMarker.simps(2))
qed

lemma tokenize_literal:
  assumes "CHR 0x22 \<notin> set x"
  shows "tokenizeMarker (CHR 0x22 # x @ CHR 0x22 # CHR '' '' # s) = bindE (tokenizeMarker s) (\<lambda>ts. Inr ((markerString, x) # ts))"
proof -
  have q: "CHR 0x22 \<in> set quotes" "\<not> space_byte CHR 0x22" by (simp_all add: quotes_def space_byte_def)
  have d: "dropWhile (\<lambda>y. y \<noteq> CHR 0x22) (x @ CHR 0x22 # CHR '' '' # s) = CHR 0x22 # CHR '' '' # s"
    "takeWhile (\<lambda>y. y \<noteq> CHR 0x22) (x @ CHR 0x22 # CHR '' '' # s) = x"
    using assms by (auto simp: dropWhile_append takeWhile_append)
  show ?thesis unfolding tokenizeMarker.simps(2) [of "CHR 0x22"] by (simp add: q d del: tokenizeMarker.simps(2))
qed

lemma tokenize_token:
  assumes "token_ok u"
  shows "tokenizeMarker (token_text u @ CHR '' '' # s) = bindE (tokenizeMarker s) (\<lambda>ts. Inr (u # ts))"
proof -
  obtain kind w where u: "u = (kind, w)" by fastforce
  show ?thesis
  proof (cases kind)
    case markerString
    then show ?thesis using assms tokenize_literal u by simp
  next
    case markerWord
    then show ?thesis using assms tokenize_word u by simp
  next
    case markerOperator
    then show ?thesis using assms u by (auto simp: space_byte_def quotes_def comparison_chars_def)
  qed (use assms u in \<open>simp_all add: space_byte_def\<close>)
qed

lemma tokenize_tokens:
  "list_all token_ok us \<Longrightarrow> tokenizeMarker (concat (map (\<lambda>u. token_text u @ '' '') us)) = Inr (us @ [eof])"
  by (induction us) (simp_all add: tokenize_token eof_def del: tokenizeMarker.simps(2))

lemma variables_are_words: "list_all (\<lambda>v. v \<noteq> [] \<and> list_all word_char v) (marker_variables @ [''in'', ''not'', ''and'', ''or''])"
  by code_simp

lemma render_tokens_ok: "marker_ok m \<Longrightarrow> list_all token_ok (render p m)"
proof (induction m arbitrary: p)
  case (Comparison a op b)
  have operand: "operand_ok o' \<Longrightarrow> token_ok (operand_token o')" for o'
    using variables_are_words by (cases o') (auto simp: list_all_iff)
  have "op \<in> set printable_operators \<Longrightarrow> list_all token_ok (operator_tokens op)"
    using variables_are_words by (auto simp: printable_operators_def operator_tokens_def list_all_iff)
  with operand Comparison show ?case by simp
qed (use variables_are_words in \<open>auto simp: paren_def list_all_iff\<close>)

text \<open>C32: a marker printed from an expression over the supported variables and operators evaluates to
  the meaning of the expression: \<^verbatim>\<open>and\<close> binds tighter than \<^verbatim>\<open>or\<close>, parentheses group, and no operator
  is lost or misread.\<close>

theorem EvaluateMarker_meaning:
  assumes "marker_ok m"
  shows "EvaluateMarker (marker_text m) t = Inr (meaning t m)"
proof -
  have tok: "tokenizeMarker (marker_text m) = Inr (render 0 m @ [eof])"
    unfolding marker_text_def by (rule tokenize_tokens [OF render_tokens_ok [OF assms]])
  have e: "ended [eof]" "ended (render 0 m @ [eof])" by (simp_all add: ended_Cons)
  have "parse t ParseOr (render 0 m @ [eof]) = parse t (OrLoop (meaning t m)) [eof]"
    using render_parse [OF assms, of t] e by (simp add: stops_def eof_def connectives)
  also have "\<dots> = Inr (meaning t m, [eof])"
    by (rule or_loop_stops [OF e(1)]) (simp add: stops_def eof_def connectives)
  finally have "marker_parser (marker_fuel (render 0 m @ [eof])) t ParseOr (render 0 m @ [eof]) = Inr (meaning t m, [eof])"
    using parse_eq [OF enough_fuel [OF e(2), of ParseOr "marker_fuel (render 0 m @ [eof])" t]] by (simp add: marker_fuel_def)
  with tok show ?thesis by (simp add: EvaluateMarker_def current_def eof_def)
qed

definition demo_marker :: marker where
  "demo_marker = MAnd (Comparison (Variable ''python_version'') ''>='' (Literal ''3.8''))
     (MOr (Comparison (Variable ''os_name'') ''=='' (Literal ''nt'')) (Comparison (Literal ''linux'') ''in'' (Variable ''sys_platform'')))"

definition demo_target :: target where
  "demo_target = \<lparr>PythonVersion = ''3.11'', PythonFullVersion = ''3.11.0'', Platform = ''linux'', SysPlatform = ''linux'',
     OSName = ''posix'', PlatformSystem = ''Linux'', Implementation = ''cpython''\<rparr>"

theorem EvaluateMarker_meaning_witness:
  "marker_ok demo_marker \<and> EvaluateMarker (marker_text demo_marker) demo_target = Inr True"
proof -
  have ok: "marker_ok demo_marker" and m: "meaning demo_target demo_marker" by code_simp+
  show ?thesis using ok m EvaluateMarker_meaning [OF ok, of demo_target] by simp
qed

text \<open>The tokenizer takes at most one \<^verbatim>\<open>=\<close> after the first operator character, so the operator \<^verbatim>\<open>===\<close>
  that \<^verbatim>\<open>parseOperator\<close> accepts is never produced.\<close>

theorem arbitrary_equality_unreachable:
  "EvaluateMarker ([CHR 0x27] @ ''a'' @ [CHR 0x27] @ '' === '' @ [CHR 0x27] @ ''a'' @ [CHR 0x27]) demo_target = Inl (ExpectedOperand ''='')"
  by code_simp

end
