(* ===== verification/Manifests.thy ===== *)
theory Manifests
  imports Pypi_Requirement Gomod_Selection
begin

text \<open>
  Dependency manifests (\<^verbatim>\<open>src/internal/depfile\<close>): \<^verbatim>\<open>package.json\<close>, \<^verbatim>\<open>pyproject.toml\<close>,
  \<^verbatim>\<open>requirements.txt\<close> and \<^verbatim>\<open>go.mod\<close>. The JSON, TOML and go.mod decoders are parameters; a Go map
  is an association list in the order of its iteration.
\<close>

section \<open>Error texts\<close>

fun pypi_error_text :: "pypi_error \<Rightarrow> string" where
  "pypi_error_text (BadVersion v) = ''pypi: invalid PEP 440 version '' @ quote v"
| "pypi_error_text (BadEpoch v) = ''pypi: invalid epoch in version '' @ quote v"
| "pypi_error_text (BadRelease v) = ''pypi: invalid release in version '' @ quote v"
| "pypi_error_text (MissingVersion c) = ''pypi: missing version in constraint '' @ quote c"
| "pypi_error_text (NotTwoSegments c) =
     ''pypi: compatible constraint requires at least two release segments in '' @ quote c"
| "pypi_error_text (CombinedArbitrary c) = ''pypi: arbitrary equality cannot be combined in '' @ quote c"
| "pypi_error_text (WildcardOperator c) = ''pypi: wildcard requires == or != in '' @ quote c"
| "pypi_error_text (BadWildcard c) = ''pypi: invalid wildcard constraint '' @ quote c"
| "pypi_error_text (BadConstraint c e) = ''pypi: invalid constraint '' @ quote c @ '': '' @ pypi_error_text e"
| "pypi_error_text (NoVersion c) = ''pypi: no version satisfies constraint '' @ quote c"

fun requirement_error_text :: "requirement_error \<Rightarrow> string" where
  "requirement_error_text (BadTargetVersion v) =
     ''python target version must be stable major.minor or major.minor.patch, got '' @ quote v"
| "requirement_error_text (BadPlatform p) = ''unsupported Python platform '' @ quote p @ '' (want linux, windows, or darwin)''"
| "requirement_error_text EmptyRequirement = ''empty Python requirement''"
| "requirement_error_text (UnsupportedSource r) = ''unsupported local, VCS, or URL requirement '' @ quote r"
| "requirement_error_text (BadName r) = ''invalid Python package name in requirement '' @ quote r"
| "requirement_error_text (Extras r) = ''requirement extras are not supported in '' @ quote r"
| "requirement_error_text (DirectURL r) = ''direct URL requirements are not supported in '' @ quote r"
| "requirement_error_text (RequirementConstraint n e) = ''invalid constraint for '' @ n @ '': '' @ pypi_error_text e"
| "requirement_error_text UnterminatedString = ''unterminated marker string''"
| "requirement_error_text (UnexpectedCharacter c) = ''unexpected marker character '' @ quote c"
| "requirement_error_text (UnexpectedToken w) = ''unexpected marker token '' @ quote w"
| "requirement_error_text MissingParenthesis = ''missing closing marker parenthesis''"
| "requirement_error_text (ExpectedOperand w) = ''expected marker operand, got '' @ quote w"
| "requirement_error_text (UnsupportedVariable w) = ''unsupported marker variable '' @ quote w"
| "requirement_error_text (UnsupportedOperator w) = ''unsupported marker operator '' @ quote w"
| "requirement_error_text (ExpectedOperator w) = ''expected marker comparison operator, got '' @ quote w"
| "requirement_error_text (RequirementMarker n e) = ''invalid marker for '' @ n @ '': '' @ requirement_error_text e"
| "requirement_error_text OutOfFuel = []"
| "requirement_error_text IndexPanic = []"

definition requirement_failure :: "requirement_error \<Rightarrow> go_error" where
  "requirement_failure e = PlainError (requirement_error_text e)"

section \<open>Dependencies\<close>

record dependency =
  d_Name :: string
  d_VersionRange :: string

record manifest =
  mn_Name :: string
  mn_Dependencies :: "dependency list"

definition dependency_before :: "dependency \<Rightarrow> dependency \<Rightarrow> bool" where
  "dependency_before a b =
     (if d_Name a = d_Name b then d_VersionRange a < d_VersionRange b else d_Name a < d_Name b)"

definition dependency_of :: "string \<times> string \<Rightarrow> dependency" where
  "dependency_of p = \<lparr>d_Name = fst p, d_VersionRange = snd p\<rparr>"

section \<open>package.json\<close>

record package_json =
  pj_Name :: string
  pj_Dependencies :: "(string \<times> string) list"
  pj_DevDependencies :: "(string \<times> string) list"

definition ParsePackageJSON :: "(string \<Rightarrow> go_error + package_json) \<Rightarrow> string \<Rightarrow> bool \<Rightarrow> go_error + manifest" where
  "ParsePackageJSON decode data includeDevDeps =
     (case decode data of
        Inl err \<Rightarrow> Inl (Wrapped ''depfile: decode package.json'' err)
      | Inr pkg \<Rightarrow> Inr
          \<lparr>mn_Name = pj_Name pkg,
           mn_Dependencies = sort_by dependency_before
             (map dependency_of (pj_Dependencies pkg) @
              (if includeDevDeps then map dependency_of (pj_DevDependencies pkg) else []))\<rparr>)"

section \<open>go.mod\<close>

record root_mod_file =
  rf_Module :: "string option"
  rf_Go :: "string option"
  rf_Require :: "(string \<times> string) list"
  rf_Replace :: nat
  rf_Exclude :: nat

definition check_requirement :: "module_env \<Rightarrow> string \<times> string \<Rightarrow> go_error option" where
  "check_requirement env r =
     (let path = fst r; version = snd r; what = ''depfile: go.mod requirement '' @ path @ ''@'' @ version
      in case module_check env path version of
        Some err \<Rightarrow> Some (Wrapped what err)
      | None \<Rightarrow>
          if canonical_version env version \<noteq> version then Some (PlainError (what @ '': version must be canonical''))
          else if is_pseudo_version env version then
            (case pseudo_version_time env version of
               Some err \<Rightarrow> Some (Wrapped (what @ '': invalid pseudo-version'') err)
             | None \<Rightarrow> (case pseudo_version_base env version of
                 Some err \<Rightarrow> Some (Wrapped (what @ '': invalid pseudo-version'') err)
               | None \<Rightarrow> None))
          else None)"

fun first_failing :: "('a \<Rightarrow> go_error option) \<Rightarrow> 'a list \<Rightarrow> go_error option" where
  "first_failing check [] = None"
| "first_failing check (x # xs) = (case check x of Some err \<Rightarrow> Some err | None \<Rightarrow> first_failing check xs)"

definition go_dependency_before :: "module_env \<Rightarrow> dependency \<Rightarrow> dependency \<Rightarrow> bool" where
  "go_dependency_before env a b =
     (if d_Name a \<noteq> d_Name b then d_Name a < d_Name b
      else let comparison = semver_compare env (d_VersionRange a) (d_VersionRange b)
           in if comparison \<noteq> 0 then comparison < 0 else d_VersionRange a < d_VersionRange b)"

definition ParseGoMod :: "module_env \<Rightarrow> (string \<Rightarrow> go_error + root_mod_file) \<Rightarrow> string \<Rightarrow> go_error + manifest \<times> string" where
  "ParseGoMod env parse data =
     (case parse data of
        Inl err \<Rightarrow> Inl (Wrapped ''depfile: parse go.mod'' err)
      | Inr file \<Rightarrow>
          (case rf_Module file of
             None \<Rightarrow> Inl (PlainError ''depfile: go.mod requires a module directive'')
           | Some modulePath \<Rightarrow>
               if trim_space modulePath = [] then Inl (PlainError ''depfile: go.mod requires a module directive'')
               else (case check_path env modulePath of
                 Some err \<Rightarrow> Inl (Wrapped (''depfile: go.mod module '' @ quote modulePath) err)
               | None \<Rightarrow>
                   (case rf_Go file of
                      None \<Rightarrow> Inl (PlainError ''depfile: go.mod requires a go directive'')
                    | Some goVersion \<Rightarrow>
                        if trim_space goVersion = [] then Inl (PlainError ''depfile: go.mod requires a go directive'')
                        else if rf_Replace file \<noteq> 0 then Inl (PlainError ''depfile: go.mod replace directives are not supported'')
                        else if rf_Exclude file \<noteq> 0 then Inl (PlainError ''depfile: go.mod exclude directives are not supported'')
                        else (case first_failing (check_requirement env) (rf_Require file) of
                          Some err \<Rightarrow> Inl err
                        | None \<Rightarrow> Inr
                            (\<lparr>mn_Name = modulePath,
                              mn_Dependencies = sort_by (go_dependency_before env) (map dependency_of (rf_Require file))\<rparr>,
                             goVersion))))))"

section \<open>Python requirements\<close>

type_synonym constraint_map = "(string \<times> string list) list"

definition add_constraint :: "pip_requirement \<Rightarrow> constraint_map \<Rightarrow> constraint_map" where
  "add_constraint r m =
     (if \<not> pr_Active r then m
      else
        let constraint = trim_space (pr_Constraint r);
            values = (case map_of m (pr_Name r) of Some vs \<Rightarrow> vs | None \<Rightarrow> [])
        in if constraint \<noteq> [] \<and> constraint \<notin> set values then AList.update (pr_Name r) (values @ [constraint]) m
           else if map_of m (pr_Name r) = None then AList.update (pr_Name r) [] m
           else m)"

definition collect_constraints :: "pip_requirement list \<Rightarrow> constraint_map" where
  "collect_constraints rs = fold add_constraint rs []"

definition merged :: "constraint_map \<Rightarrow> (string \<times> string) list" where
  "merged m = map (\<lambda>(name, values). (name, join '','' (sort_by (<) values))) m"

definition pythonDependencies :: "pip_requirement list \<Rightarrow> dependency list" where
  "pythonDependencies rs = sort_by dependency_before (map dependency_of (merged (collect_constraints rs)))"

fun parse_numbered :: "target \<Rightarrow> (nat \<Rightarrow> string) \<Rightarrow> (string \<times> nat) list \<Rightarrow> go_error + pip_requirement list" where
  "parse_numbered t label [] = Inr []"
| "parse_numbered t label ((v, n) # items) =
     (case ParseRequirement v t of
        Inl e \<Rightarrow> Inl (Wrapped (label n) (requirement_failure e))
      | Inr r \<Rightarrow> bindE (parse_numbered t label items) (\<lambda>rs. Inr (r # rs)))"

definition parsePythonRequirements :: "string list \<Rightarrow> target \<Rightarrow> string \<Rightarrow> go_error + dependency list" where
  "parsePythonRequirements values t source =
     bindE (parse_numbered t (\<lambda>n. ''depfile: '' @ source @ '' requirement '' @ nat_text n)
              (zip values [1..<Suc (length values)]))
       (\<lambda>parsed. Inr (pythonDependencies parsed))"

record pyproject =
  pp_Name :: string
  pp_Dependencies :: "string list"
  pp_Dynamic :: "string list"

definition ParsePyProject :: "(string \<Rightarrow> go_error + pyproject) \<Rightarrow> string \<Rightarrow> target \<Rightarrow> go_error + manifest" where
  "ParsePyProject decode data t =
     (case decode data of
        Inl err \<Rightarrow> Inl (Wrapped ''depfile: decode pyproject.toml'' err)
      | Inr document \<Rightarrow>
          (let name = trim_space (pp_Name document)
           in if name = [] then Inl (PlainError ''depfile: pyproject.toml requires [project].name'')
              else if list_ex (\<lambda>field. equal_fold (trim_space field) ''dependencies'') (pp_Dynamic document) then
                Inl (PlainError ''depfile: dynamic pyproject.toml dependencies are not supported'')
              else bindE (parsePythonRequirements (pp_Dependencies document) t ''pyproject.toml'')
                (\<lambda>dependencies. Inr \<lparr>mn_Name = name, mn_Dependencies = dependencies\<rparr>)))"

section \<open>requirements.txt\<close>

definition blanks :: string where
  "blanks = [CHR '' '', CHR 0x09, CHR 0x0D]"

definition hasLineContinuation :: "string \<Rightarrow> bool" where
  "hasLineContinuation line =
     odd (length (takeWhile (\<lambda>c. c = CHR 0x5C) (rev (trim_right line blanks))))"

text \<open>\<^verbatim>\<open>stripRequirementsComment\<close>, with the byte before the current one.\<close>

fun strip_comment :: "char option \<Rightarrow> char option \<Rightarrow> string \<Rightarrow> string" where
  "strip_comment within prev [] = []"
| "strip_comment within prev (c # s) =
     (case within of
        Some q \<Rightarrow> c # strip_comment (if c = q then None else Some q) (Some c) s
      | None \<Rightarrow>
          if c \<in> set quotes then c # strip_comment (Some c) (Some c) s
          else if c = CHR ''#'' \<and> prev \<in> {None, Some (CHR '' ''), Some (CHR 0x09)} then []
          else c # strip_comment None (Some c) s)"

definition stripRequirementsComment :: "string \<Rightarrow> string" where
  "stripRequirementsComment line = strip_comment None None line"

definition validateRequirementsLine :: "string \<Rightarrow> go_error option" where
  "validateRequirementsLine line =
     (let lower = to_lower (trim_space line)
      in if has_prefix lower ''-'' then Some (PlainError (''pip directives and options are not supported: '' @ quote line))
         else if contains line ''${'' then Some (PlainError ''environment-variable substitution is not supported'')
         else if contains lower '' --hash'' \<or> contains lower '' --'' then
           Some (PlainError (''per-requirement pip options are not supported: '' @ quote line))
         else None)"

text \<open>\<^verbatim>\<open>bufio.Scanner\<close>: lines without their ends; a line that fills the buffer stops it with an error.\<close>

definition maxRequirementsLine :: int where
  "maxRequirementsLine = 1048576"

definition drop_cr :: "string \<Rightarrow> string" where
  "drop_cr l = (if l \<noteq> [] \<and> last l = CHR 0x0D then butlast l else l)"

definition raw_lines :: "string \<Rightarrow> string list" where
  "raw_lines data = (let ls = split_on CHR 0x0A data in if last ls = [] then butlast ls else ls)"

definition too_long :: "string \<Rightarrow> bool" where
  "too_long l \<longleftrightarrow> maxRequirementsLine \<le> int (length l)"

definition requirements_line :: "nat \<Rightarrow> string" where
  "requirements_line n = ''depfile: requirements.txt line '' @ nat_text n"

text \<open>The loop over the lines: \<open>n\<close> is \<^verbatim>\<open>lineNumber\<close>, \<open>buf\<close> is \<^verbatim>\<open>continued\<close> and \<open>start\<close> is
  \<^verbatim>\<open>continuedLine\<close>.\<close>

fun logical_lines :: "nat \<Rightarrow> string \<Rightarrow> nat \<Rightarrow> string list \<Rightarrow> go_error + (string \<times> nat) list" where
  "logical_lines n buf start [] =
     (if buf \<noteq> [] then Inl (PlainError (requirements_line start @ '': unterminated line continuation'')) else Inr [])"
| "logical_lines n buf start (l # ls) =
     (if too_long l then Inl (Wrapped ''depfile: read requirements.txt'' (PlainError ''bufio.Scanner: token too long''))
      else
        let line = drop_cr l; start' = (if buf = [] then n else start)
        in if hasLineContinuation line then
             logical_lines (Suc n)
               (buf @ trim_space (trim_suffix (trim_right line blanks) [CHR 0x5C]) @ '' '') start' ls
           else
             let logical = trim_space (stripRequirementsComment (buf @ line))
             in if logical = [] then logical_lines (Suc n) [] start' ls
                else case validateRequirementsLine logical of
                  Some err \<Rightarrow> Inl (Wrapped (requirements_line start') err)
                | None \<Rightarrow> bindE (logical_lines (Suc n) [] start' ls) (\<lambda>rest. Inr ((logical, start') # rest)))"

definition ParseRequirements :: "string \<Rightarrow> string \<Rightarrow> target \<Rightarrow> go_error + manifest" where
  "ParseRequirements data rootName t =
     (if trim_space rootName = [] then Inl (PlainError ''depfile: requirements.txt root name is required'')
      else bindE (logical_lines 1 [] 0 (raw_lines data)) (\<lambda>items.
           bindE (parse_numbered t requirements_line items) (\<lambda>parsed.
             Inr \<lparr>mn_Name = rootName, mn_Dependencies = pythonDependencies parsed\<rparr>)))"

end
