(* ===== verification/Manifest_Properties.thy ===== *)
theory Manifest_Properties
  imports Manifests
begin

text \<open>
  The dependencies of a Python manifest as a function of the set of its requirements.
\<close>

section \<open>Sorting strings and dependencies\<close>

lemma sort_by_strings: "sort_by (<) xs = sort (xs :: string list)"
proof (rule properties_for_sort [symmetric])
  show "mset (sort_by (<) xs) = mset xs" by simp
  show "sorted (sort_by (<) xs)" using string_order.sorted [of xs] by (simp add: not_less)
qed

lemma dependency_before_less2: "dependency_before = less2 d_Name d_VersionRange"
  by (intro ext) (auto simp: dependency_before_def less2_def)

interpretation dependency_order: slice_order dependency_before "\<lambda>a. (d_Name a, d_VersionRange a)"
  unfolding dependency_before_less2 by (rule less2_order)

lemma sort_dependencies_by_name:
  assumes "distinct (map d_Name ds)" "\<And>d. d \<in> set ds \<Longrightarrow> d = \<lparr>d_Name = d_Name d, d_VersionRange = f (d_Name d)\<rparr>"
  shows "sort_by dependency_before ds =
    map (\<lambda>n. \<lparr>d_Name = n, d_VersionRange = f n\<rparr>) (sorted_list_of_set (d_Name ` set ds))"
proof -
  let ?r = "sort_by dependency_before ds"
  have m: "mset (map d_Name ?r) = mset (map d_Name ds)" by simp
  have "sorted_wrt (\<lambda>a b. d_Name a \<le> d_Name b) ?r"
    by (rule sorted_wrt_mono_rel [OF _ dependency_order.sorted]) (auto simp: dependency_before_def split: if_splits)
  then have "sorted (map d_Name ?r)" by (simp add: sorted_wrt_map)
  moreover have "distinct (map d_Name ?r)" using assms(1) m mset_eq_imp_distinct_iff by blast
  ultimately have "map d_Name ?r = sorted_list_of_set (set (map d_Name ?r))"
    by (intro sorted_distinct_set_unique) simp_all
  then have names: "map d_Name ?r = sorted_list_of_set (d_Name ` set ds)" by simp
  have "?r = map (\<lambda>d. \<lparr>d_Name = d_Name d, d_VersionRange = f (d_Name d)\<rparr>) ?r"
    using assms(2) by (intro map_idI [symmetric]) auto
  then show ?thesis unfolding names [symmetric] by (simp add: comp_def)
qed

section \<open>Collecting constraints\<close>

definition active_names :: "pip_requirement set \<Rightarrow> string set" where
  "active_names R = pr_Name ` {r \<in> R. pr_Active r}"

definition constraints_for :: "pip_requirement set \<Rightarrow> string \<Rightarrow> string set" where
  "constraints_for R n = (\<lambda>r. trim_space (pr_Constraint r)) ` {r \<in> R. pr_Active r \<and> pr_Name r = n} - {[]}"

definition collected :: "pip_requirement set \<Rightarrow> constraint_map \<Rightarrow> bool" where
  "collected R m \<longleftrightarrow> distinct (map fst m) \<and> fst ` set m = active_names R \<and>
     (\<forall>n vs. map_of m n = Some vs \<longrightarrow> distinct vs \<and> set vs = constraints_for R n)"

lemma collected_step:
  assumes "collected R m"
  shows "collected (insert r R) (add_constraint r m)"
proof (cases "pr_Active r")
  case False
  then have "{q \<in> insert r R. pr_Active q} = {q \<in> R. pr_Active q}"
    "\<And>n. {q \<in> insert r R. pr_Active q \<and> pr_Name q = n} = {q \<in> R. pr_Active q \<and> pr_Name q = n}" by auto
  then have "active_names (insert r R) = active_names R" "constraints_for (insert r R) = constraints_for R"
    by (auto simp: active_names_def constraints_for_def)
  then show ?thesis using assms False by (simp add: collected_def add_constraint_def)
next
  case True
  have keys: "distinct (map fst m)" "fst ` set m = active_names R" using assms by (simp_all add: collected_def)
  have entries: "distinct vs \<and> set vs = constraints_for R k" if "map_of m k = Some vs" for k vs
    using assms that by (auto simp: collected_def)
  let ?n = "pr_Name r" and ?c = "trim_space (pr_Constraint r)"
  define old where "old = (case map_of m ?n of Some vs \<Rightarrow> vs | None \<Rightarrow> [])"
  have add: "add_constraint r m = (if ?c \<noteq> [] \<and> ?c \<notin> set old then AList.update ?n (old @ [?c]) m
      else if map_of m ?n = None then AList.update ?n [] m else m)"
    using True unfolding add_constraint_def old_def Let_def by (simp only: not_True_eq_False if_False)
  have names: "active_names (insert r R) = insert ?n (active_names R)" using True by (auto simp: active_names_def)
  have other: "constraints_for (insert r R) k = constraints_for R k" if "k \<noteq> ?n" for k
    using that by (auto simp: constraints_for_def)
  have same: "constraints_for (insert r R) ?n = constraints_for R ?n \<union> ({?c} - {[]})"
    using True by (auto simp: constraints_for_def)
  have none: "constraints_for R ?n = {}" if "map_of m ?n = None"
  proof -
    have "?n \<notin> active_names R" using that keys by (simp add: map_of_eq_None_iff)
    then have "{q \<in> R. pr_Active q \<and> pr_Name q = ?n} = {}" unfolding active_names_def image_iff by fastforce
    then show ?thesis unfolding constraints_for_def by (metis image_empty empty_Diff)
  qed
  have old: "distinct old \<and> set old = constraints_for R ?n"
  proof (cases "map_of m ?n")
    case (Some ws)
    then show ?thesis using entries [OF Some] by (simp add: old_def)
  qed (use none in \<open>simp add: old_def\<close>)
  have upd: "collected (insert r R) (AList.update ?n ws m)" if "distinct ws" "set ws = constraints_for (insert r R) ?n" for ws
    unfolding collected_def
  proof (intro conjI allI impI)
    show "distinct (map fst (AList.update ?n ws m))" using keys by (simp add: distinct_update)
    show "fst ` set (AList.update ?n ws m) = active_names (insert r R)"
      unfolding dom_update names using keys by simp
    fix k vs
    assume "map_of (AList.update ?n ws m) k = Some vs"
    then have "k = ?n \<and> vs = ws \<or> k \<noteq> ?n \<and> map_of m k = Some vs" by (auto simp: update_conv' split: if_splits)
    then show "distinct vs" "set vs = constraints_for (insert r R) k" using entries [of k vs] that other [of k] by auto
  qed
  show ?thesis
  proof (cases "?c \<noteq> [] \<and> ?c \<notin> set old")
    case True
    have "distinct (old @ [?c])" "set (old @ [?c]) = constraints_for (insert r R) ?n" using True old same by auto
    then show ?thesis using upd add True by simp
  next
    case False
    then have eq: "constraints_for (insert r R) ?n = constraints_for R ?n" using same old by auto
    show ?thesis
    proof (cases "map_of m ?n")
      case None
      then show ?thesis using upd [of "[]"] add False eq none by simp
    next
      case (Some ws)
      then have "?n \<in> active_names R" using keys(2) by (force dest: map_of_SomeD)
      then have "active_names (insert r R) = active_names R" using names by auto
      moreover have "constraints_for (insert r R) = constraints_for R" using eq other by (intro ext) metis
      ultimately show ?thesis using Some add False assms by (simp add: collected_def)
    qed
  qed
qed

lemma collect_constraints_collected: "collected (set rs) (collect_constraints rs)"
proof -
  have all: "collected (set rs \<union> R) (fold add_constraint rs m)" if "collected R m" for R m
    using that
  proof (induction rs arbitrary: R m)
    case (Cons r rs)
    from Cons.IH [OF collected_step [OF Cons.prems, of r]] show ?case by (simp add: insert_commute Un_insert_right)
  qed simp
  have "collected {} []" by (simp add: collected_def active_names_def)
  from all [OF this] show ?thesis by (simp add: collect_constraints_def)
qed

text \<open>C33: the dependencies of a Python manifest are, in order of their names, the active packages, each
  with the sorted and de-duplicated constraints of all its active lines joined by commas. The
  order of the lines, repeated lines and the iteration order of Go maps make no difference.\<close>

theorem pythonDependencies_exact:
  "pythonDependencies rs =
     map (\<lambda>n. \<lparr>d_Name = n, d_VersionRange = join '','' (sorted_list_of_set (constraints_for (set rs) n))\<rparr>)
       (sorted_list_of_set (active_names (set rs)))"
proof -
  let ?m = "collect_constraints rs" and ?f = "\<lambda>n. join '','' (sorted_list_of_set (constraints_for (set rs) n))"
  have c: "collected (set rs) ?m" by (rule collect_constraints_collected)
  have entry: "join '','' (sort_by (<) vs) = ?f n" if "(n, vs) \<in> set ?m" for n vs
  proof -
    have "map_of ?m n = Some vs" using c that by (simp add: collected_def)
    then have "distinct vs" "set vs = constraints_for (set rs) n" using c by (auto simp: collected_def)
    then show ?thesis unfolding sort_by_strings by (metis sorted_list_of_set_sort_remdups distinct_remdups_id)
  qed
  let ?ds = "map dependency_of (merged ?m)"
  have nm: "map d_Name ?ds = map fst ?m" by (auto simp: merged_def dependency_of_def)
  have "pythonDependencies rs = map (\<lambda>n. \<lparr>d_Name = n, d_VersionRange = ?f n\<rparr>) (sorted_list_of_set (d_Name ` set ?ds))"
    unfolding pythonDependencies_def
  proof (rule sort_dependencies_by_name)
    show "distinct (map d_Name ?ds)" using c nm by (simp add: collected_def)
    show "d = \<lparr>d_Name = d_Name d, d_VersionRange = ?f (d_Name d)\<rparr>" if "d \<in> set ?ds" for d
      using that entry by (auto simp: merged_def dependency_of_def)
  qed
  moreover have "d_Name ` set ?ds = active_names (set rs)"
    using nm c by (metis collected_def list.set_map)
  ultimately show ?thesis by simp
qed

end
