(* ===== verification/Registries.thy ===== *)
theory Registries
  imports Manifests Pypi_Properties
begin

text \<open>
  The clients of package registries: PyPI (\<^verbatim>\<open>src/internal/pypi/client.go\<close>), npm
  (\<^verbatim>\<open>src/internal/auditor/registry.go\<close> with \<^verbatim>\<open>src/internal/semver\<close>) and manifests on GitHub
  (\<^verbatim>\<open>src/internal/github/client.go\<close>). URL parsing, the HTTP round trip and the JSON decoders are
  parameters; the body of a response is what reading it gave.
\<close>

record web_response =
  wr_status :: int
  wr_body :: "go_error + string"

section \<open>PyPI\<close>

definition normalizeLicense :: "string \<Rightarrow> string" where
  "normalizeLicense v =
     (let l = to_lower v
      in if l \<in> set [''mit'', ''mit license''] then ''MIT''
         else if l \<in> set [''apache-2.0'', ''apache 2.0'', ''apache software license''] then ''Apache-2.0''
         else if l \<in> set [''isc'', ''isc license''] then ''ISC''
         else if l \<in> set [''bsd-2-clause'', ''2-clause bsd'', ''bsd 2-clause''] then ''BSD-2-Clause''
         else if l \<in> set [''bsd-3-clause'', ''3-clause bsd'', ''bsd 3-clause'', ''bsd''] then ''BSD-3-Clause''
         else v)"

definition classifierLicense :: "string \<Rightarrow> string" where
  "classifierLicense classifier =
     (let lower = to_lower classifier
      in if contains lower ''mit license'' then ''MIT''
         else if contains lower ''apache software license'' then ''Apache-2.0''
         else if contains lower ''isc license'' then ''ISC''
         else if contains lower ''bsd license'' then ''BSD-3-Clause''
         else if contains lower ''mozilla public license 2.0'' then ''MPL-2.0''
         else if contains lower ''gnu general public license v3'' then ''GPL-3.0-only''
         else [])"

definition pythonLicense :: "string \<Rightarrow> string \<Rightarrow> string list \<Rightarrow> string" where
  "pythonLicense expression legacy classifiers =
     (if trim_space expression \<noteq> [] then trim_space expression
      else if normalizeLicense (trim_space legacy) \<noteq> [] then normalizeLicense (trim_space legacy)
      else case find (\<lambda>l. l \<noteq> []) (map classifierLicense classifiers) of Some l \<Rightarrow> l | None \<Rightarrow> ''UNKNOWN'')"

definition displayConstraint :: "string \<Rightarrow> string" where
  "displayConstraint c = (if trim_space c = [] then [] else '' '' @ c)"

text \<open>\<^verbatim>\<open>parseReleaseDependencies\<close>: the same collection as \<^verbatim>\<open>pythonDependencies\<close>, into a map.\<close>

fun parse_requires :: "target \<Rightarrow> string list \<Rightarrow> go_error + pip_requirement list" where
  "parse_requires t [] = Inr []"
| "parse_requires t (v # vs) =
     (case ParseRequirement v t of
        Inl e \<Rightarrow> Inl (Wrapped (''Requires-Dist '' @ quote v) (requirement_failure e))
      | Inr r \<Rightarrow> bindE (parse_requires t vs) (\<lambda>rs. Inr (r # rs)))"

definition parseReleaseDependencies :: "target \<Rightarrow> string list \<Rightarrow> go_error + (string \<times> string) list" where
  "parseReleaseDependencies t values = bindE (parse_requires t values) (\<lambda>rs. Inr (merged (collect_constraints rs)))"

record release_info =
  ri_Name :: string
  ri_Version :: string
  ri_License :: string
  ri_LicenseExpression :: string
  ri_Classifiers :: "string list"
  ri_RequiresDist :: "string list"

text \<open>\<open>py_decode_project\<close> gives each release with the \<^verbatim>\<open>yanked\<close> flags of its files.\<close>

record pypi_env =
  py_Target :: target
  py_base_path :: "go_error + string"
  py_new_request :: "string \<Rightarrow> go_error option"
  py_do :: "string \<Rightarrow> go_error + web_response"
  py_decode_project :: "string \<Rightarrow> go_error + (string \<times> bool list) list"
  py_decode_release :: "string \<Rightarrow> go_error + release_info"
  py_sort :: "candidate list \<Rightarrow> candidate list"

definition maxMetadataBytes :: int where
  "maxMetadataBytes = 5242880"

definition getJSON :: "pypi_env \<Rightarrow> string list \<Rightarrow> (string \<Rightarrow> go_error + 'a) \<Rightarrow> go_error + 'a" where
  "getJSON env segments decode =
     (case py_base_path env of
        Inl err \<Rightarrow> Inl (Wrapped ''invalid PyPI base URL'' err)
      | Inr base \<Rightarrow>
          (let path = trim_right base ''/'' @ ''/'' @ join ''/'' segments
           in case py_new_request env path of
             Some err \<Rightarrow> Inl (Wrapped ''create PyPI request'' err)
           | None \<Rightarrow>
               (case py_do env path of
                  Inl err \<Rightarrow> Inl (Wrapped ''PyPI request failed'' err)
                | Inr r \<Rightarrow>
                    if wr_status r = 404 then Inl (PlainError (''PyPI resource '' @ quote path @ '' was not found (404)''))
                    else if wr_status r = 429 then Inl (PlainError (''PyPI rate limit exceeded for '' @ quote path @ '' (429)''))
                    else if wr_status r \<noteq> 200 then
                      Inl (PlainError (''PyPI returned status '' @ int_text (wr_status r) @ '' for '' @ quote path))
                    else (case wr_body r of
                      Inl err \<Rightarrow> Inl (Wrapped ''read PyPI response'' err)
                    | Inr data \<Rightarrow>
                        if maxMetadataBytes < int (length data) then Inl (PlainError ''PyPI metadata exceeds the 5 MiB limit'')
                        else (case decode data of
                          Inl err \<Rightarrow> Inl (Wrapped ''decode PyPI response'' err) | Inr x \<Rightarrow> Inr x)))))"

definition installable :: "string \<times> bool list \<Rightarrow> bool" where
  "installable r = (case ParseVersion (fst r) of
     Inl _ \<Rightarrow> False | Inr _ \<Rightarrow> snd r \<noteq> [] \<and> list_ex (\<lambda>yanked. \<not> yanked) (snd r))"

definition fetchAvailableVersions :: "pypi_env \<Rightarrow> string \<Rightarrow> go_error + string list" where
  "fetchAvailableVersions env name =
     bindE (getJSON env [''pypi'', name, ''json''] (py_decode_project env))
       (\<lambda>releases. Inr (map fst (filter installable releases)))"

definition fetchRelease :: "pypi_env \<Rightarrow> string \<Rightarrow> string \<Rightarrow> go_error + release_info" where
  "fetchRelease env name version = getJSON env [''pypi'', name, version, ''json''] (py_decode_release env)"

definition PyPI_FetchPackage :: "pypi_env \<Rightarrow> string \<Rightarrow> string \<Rightarrow> go_error + package_metadata" where
  "PyPI_FetchPackage env name0 constraint =
     (let name = NormalizeName name0; what = ''pypi: resolve '' @ name @ displayConstraint constraint
      in case fetchAvailableVersions env name of
        Inl err \<Rightarrow> Inl (Wrapped what err)
      | Inr available \<Rightarrow>
          (case ResolveVersion (py_sort env) constraint available of
             Inl err \<Rightarrow> Inl (Wrapped what (PlainError (pypi_error_text err)))
           | Inr exact \<Rightarrow>
               (let fetching = ''pypi: fetch '' @ name @ ''@'' @ exact
                in case fetchRelease env name exact of
                  Inl err \<Rightarrow> Inl (Wrapped fetching err)
                | Inr release \<Rightarrow>
                    if trim_space (ri_Name release) = [] \<or> trim_space (ri_Version release) = [] then
                      Inl (PlainError (fetching @ '': response is missing package name or version''))
                    else (case ParseVersion (ri_Version release) of
                      Inl _ \<Rightarrow> Inl (PlainError (fetching @ '': invalid resolved version '' @ quote (ri_Version release)))
                    | Inr _ \<Rightarrow>
                        (case parseReleaseDependencies (py_Target env) (ri_RequiresDist release) of
                           Inl err \<Rightarrow> Inl (Wrapped (''pypi: parse dependencies for '' @ name @ ''@'' @ exact) err)
                         | Inr dependencies \<Rightarrow> Inr
                             \<lparr>m_name = (if NormalizeName (ri_Name release) = [] then name else NormalizeName (ri_Name release)),
                              m_version = ri_Version release,
                              m_license = pythonLicense (ri_LicenseExpression release) (ri_License release) (ri_Classifiers release),
                              m_dependencies = dependencies\<rparr>)))))"

section \<open>npm\<close>

text \<open>\<^verbatim>\<open>github.com/Masterminds/semver\<close>: constraints, versions, matching and order.\<close>

record ('c, 'v) semver_env =
  ms_NewConstraint :: "string \<Rightarrow> go_error + 'c"
  ms_NewVersion :: "string \<Rightarrow> 'v option"
  ms_Check :: "'c \<Rightarrow> 'v \<Rightarrow> bool"
  ms_LessThan :: "'v \<Rightarrow> 'v \<Rightarrow> bool"
  ms_Original :: "'v \<Rightarrow> string"
  ms_sort :: "'v list \<Rightarrow> 'v list"

definition ParseRange :: "('c, 'v) semver_env \<Rightarrow> string \<Rightarrow> go_error + 'c \<times> string" where
  "ParseRange ms rangeStr =
     (case ms_NewConstraint ms rangeStr of
        Inl err \<Rightarrow> Inl (Wrapped (''semver: parse range '' @ quote rangeStr) err)
      | Inr c \<Rightarrow> Inr (c, rangeStr))"

definition semver_candidates :: "('c, 'v) semver_env \<Rightarrow> 'c \<Rightarrow> string list \<Rightarrow> 'v list" where
  "semver_candidates ms c available = filter (ms_Check ms c) (List.map_filter (ms_NewVersion ms) available)"

definition Resolve :: "('c, 'v) semver_env \<Rightarrow> 'c \<times> string \<Rightarrow> string list \<Rightarrow> go_error + string" where
  "Resolve ms c available =
     (let candidates = semver_candidates ms (fst c) available
      in if candidates = [] then Inl (PlainError (''semver: no version satisfies constraint '' @ quote (snd c)))
         else Inr (ms_Original ms (last (ms_sort ms candidates))))"

record npm_meta =
  nm_Name :: string
  nm_Version :: string
  nm_License :: string
  nm_Dependencies :: "(string \<times> string) list"

record npm_env =
  np_baseURL :: string
  np_new_request :: "string \<Rightarrow> go_error option"
  np_do :: "string \<Rightarrow> go_error + web_response"
  np_decode_versions :: "string \<Rightarrow> go_error + string list"
  np_decode_meta :: "string \<Rightarrow> go_error + npm_meta"

definition npm_get :: "npm_env \<Rightarrow> string \<Rightarrow> string \<Rightarrow> go_error + web_response" where
  "npm_get env what url =
     (case np_new_request env url of
        Some err \<Rightarrow> Inl (Wrapped (''npm: build request for '' @ what) err)
      | None \<Rightarrow> (case np_do env url of
          Inl err \<Rightarrow> Inl (Wrapped (''npm: GET '' @ url) err) | Inr r \<Rightarrow> Inr r))"

definition unexpected_status :: "string \<Rightarrow> int \<Rightarrow> go_error" where
  "unexpected_status url status = PlainError (''npm: GET '' @ url @ '': unexpected status '' @ int_text status)"

definition fetchAllVersions :: "npm_env \<Rightarrow> string \<Rightarrow> go_error + string list" where
  "fetchAllVersions env name =
     (let url = np_baseURL env @ ''/'' @ name
      in bindE (npm_get env name url) (\<lambda>r.
         if wr_status r \<noteq> 200 then Inl (unexpected_status url (wr_status r))
         else case bindE (wr_body r) (np_decode_versions env) of
           Inl err \<Rightarrow> Inl (Wrapped (''npm: decode versions for '' @ name) err)
         | Inr versions \<Rightarrow> Inr versions))"

definition fetchVersionMeta :: "npm_env \<Rightarrow> string \<Rightarrow> string \<Rightarrow> go_error + npm_meta" where
  "fetchVersionMeta env name version =
     (let url = np_baseURL env @ ''/'' @ name @ ''/'' @ version; what = name @ ''@'' @ version
      in bindE (npm_get env what url) (\<lambda>r.
         if wr_status r = 404 then Inl (PlainError (''npm: '' @ what @ '' not found (404)''))
         else if wr_status r \<noteq> 200 then Inl (unexpected_status url (wr_status r))
         else case bindE (wr_body r) (np_decode_meta env) of
           Inl err \<Rightarrow> Inl (Wrapped (''npm: decode metadata for '' @ what) err)
         | Inr meta \<Rightarrow> Inr meta))"

definition npm_resolveVersion :: "('c, 'v) semver_env \<Rightarrow> npm_env \<Rightarrow> string \<Rightarrow> string \<Rightarrow> go_error + string" where
  "npm_resolveVersion ms env name rangeStr =
     (case ParseRange ms rangeStr of
        Inl _ \<Rightarrow> Inr rangeStr
      | Inr c \<Rightarrow> bindE (fetchAllVersions env name) (Resolve ms c))"

definition Npm_FetchPackage :: "('c, 'v) semver_env \<Rightarrow> npm_env \<Rightarrow> string \<Rightarrow> string \<Rightarrow> go_error + package_metadata" where
  "Npm_FetchPackage ms env name version =
     (case npm_resolveVersion ms env name version of
        Inl err \<Rightarrow> Inl (Wrapped (''npm: resolve '' @ name @ ''@'' @ version) err)
      | Inr exact \<Rightarrow>
          (case fetchVersionMeta env name exact of
             Inl err \<Rightarrow> Inl (Wrapped (''npm: fetch '' @ name @ ''@'' @ exact) err)
           | Inr meta \<Rightarrow> Inr \<lparr>m_name = nm_Name meta, m_version = nm_Version meta, m_license = nm_License meta,
                            m_dependencies = nm_Dependencies meta\<rparr>))"

end
