(* ===== verification/Registry_Properties.thy ===== *)
theory Registry_Properties
  imports Registries
begin

text \<open>
  What the registry clients choose: the highest version that a range admits, among the releases
  that can be installed.
\<close>

section \<open>npm\<close>

text \<open>What \<^verbatim>\<open>Masterminds/semver\<close> documents: \<^verbatim>\<open>LessThan\<close> is a strict weak order and \<^verbatim>\<open>Original\<close> returns the
  text a version was parsed from.\<close>

definition semver_laws :: "('c, 'v) semver_env \<Rightarrow> bool" where
  "semver_laws ms \<longleftrightarrow>
     (\<forall>s v. ms_NewVersion ms s = Some v \<longrightarrow> ms_Original ms v = s) \<and>
     (\<forall>x. \<not> ms_LessThan ms x x) \<and> sorts_slice (ms_LessThan ms) (ms_sort ms)"

lemma set_semver_candidates:
  "set (semver_candidates ms c available) =
     {v. \<exists>s\<in>set available. ms_NewVersion ms s = Some v \<and> ms_Check ms c v}"
  by (auto simp: semver_candidates_def List.map_filter_def) force+

text \<open>\<^verbatim>\<open>Resolve\<close> returns a published version that satisfies the range and below which no other
  satisfying version fails to lie; it fails only when nothing published satisfies the range.\<close>

theorem Resolve_highest:
  assumes "semver_laws ms"
  shows "case Resolve ms (c, raw) available of
      Inr s \<Rightarrow> s \<in> set available \<and> (\<exists>v. ms_NewVersion ms s = Some v \<and> ms_Check ms c v \<and>
        (\<forall>s'\<in>set available. \<forall>v'. ms_NewVersion ms s' = Some v' \<and> ms_Check ms c v' \<longrightarrow> \<not> ms_LessThan ms v v'))
    | Inl e \<Rightarrow> (\<forall>s\<in>set available. \<forall>v. ms_NewVersion ms s = Some v \<longrightarrow> \<not> ms_Check ms c v)"
proof (cases "semver_candidates ms c available = []")
  case True
  then have "{v. \<exists>s\<in>set available. ms_NewVersion ms s = Some v \<and> ms_Check ms c v} = {}"
    using set_semver_candidates [of ms c available] by simp
  then show ?thesis using True by (auto simp: Resolve_def)
next
  case False
  let ?v = "last (ms_sort ms (semver_candidates ms c available))"
  have srt: "sorts_slice (ms_LessThan ms) (ms_sort ms)" and irr: "\<not> ms_LessThan ms x x" for x
    using assms by (simp_all add: semver_laws_def)
  from sorts_slice_last(1) [OF srt False] obtain s where s: "s \<in> set available" "ms_NewVersion ms s = Some ?v" "ms_Check ms c ?v"
    by (auto simp: set_semver_candidates)
  have orig: "ms_Original ms ?v = s" using assms s(2) by (simp add: semver_laws_def)
  have "\<not> ms_LessThan ms ?v v'" if "s' \<in> set available" "ms_NewVersion ms s' = Some v'" "ms_Check ms c v'" for s' v'
    using sorts_slice_last(2) [OF srt False, of v'] that irr set_semver_candidates [of ms c available] by auto
  with s orig False show ?thesis by (auto simp: Resolve_def Let_def)
qed

definition demo_semver :: "(nat, nat) semver_env" where
  "demo_semver = \<lparr>ms_NewConstraint = (\<lambda>s. Inr (length s)), ms_NewVersion = (\<lambda>s. if s = replicate (length s) CHR ''1'' then Some (length s) else None),
     ms_Check = (\<lambda>c v. v \<le> c), ms_LessThan = (<), ms_Original = (\<lambda>v. replicate v CHR ''1''), ms_sort = sort_by (<)\<rparr>"

lemma demo_semver_laws: "semver_laws demo_semver"
proof -
  have "slice_order ((<) :: nat \<Rightarrow> nat \<Rightarrow> bool) (\<lambda>n. n)" by unfold_locales auto
  from sort_by_sorts_slice [OF this] show ?thesis
    by (auto simp: semver_laws_def demo_semver_def split: if_splits)
qed

theorem Resolve_highest_witness:
  "semver_laws demo_semver \<and> Resolve demo_semver (3, ''^1'') [''1'', ''11'', ''x'', ''1111''] = Inr ''11'' \<and>
   (\<exists>v. ms_NewVersion demo_semver ''11'' = Some v \<and> ms_Check demo_semver 3 v)"
proof -
  have r: "Resolve demo_semver (3, ''^1'') [''1'', ''11'', ''x'', ''1111''] = Inr ''11''" by code_simp
  show ?thesis using demo_semver_laws r Resolve_highest [OF demo_semver_laws, where c = 3 and raw = "''^1''" and available = "[''1'', ''11'', ''x'', ''1111'']"]
    by auto
qed

section \<open>PyPI\<close>


definition demo_releases :: "(string \<times> bool list) list" where
  "demo_releases = [(''1.0'', [False]), (''2.0'', [True]), (''1.5'', [True, False])]"

definition demo_release :: release_info where
  "demo_release = \<lparr>ri_Name = ''Demo_Pkg'', ri_Version = ''1.5'', ri_License = ''MIT License'', ri_LicenseExpression = [],
     ri_Classifiers = [], ri_RequiresDist = []\<rparr>"

definition demo_web :: "string \<Rightarrow> go_error + web_response" where
  "demo_web path = Inr \<lparr>wr_status = 200, wr_body = Inr path\<rparr>"

definition demo_pypi :: pypi_env where
  "demo_pypi = \<lparr>py_Target = \<lparr>PythonVersion = ''3.12'', PythonFullVersion = ''3.12.0'', Platform = ''linux'',
       SysPlatform = ''linux'', OSName = ''posix'', PlatformSystem = ''Linux'', Implementation = ''cpython''\<rparr>,
     py_base_path = Inr [], py_new_request = (\<lambda>_. None), py_do = demo_web, py_decode_project = (\<lambda>_. Inr demo_releases),
     py_decode_release = (\<lambda>_. Inr demo_release), py_sort = sort_by candidate_before\<rparr>"

definition demo_meta :: package_metadata where
  "demo_meta = \<lparr>m_name = ''demo-pkg'', m_version = ''1.5'', m_license = ''MIT'', m_dependencies = []\<rparr>"

definition demo_range :: "clause list" where
  "demo_range = (case parseConstraint ''>=1'' of Inr (cs, _) \<Rightarrow> cs | Inl _ \<Rightarrow> [])"

lemma demo_fetch: "PyPI_FetchPackage demo_pypi ''Demo.Pkg'' ''>=1'' = Inr demo_meta"
  by code_simp

lemma demo_range_parses: "parseConstraint ''>=1'' = Inr (demo_range, False)"
  by code_simp

lemma demo_range_operator: "c_operator (hd demo_range) = ''>=''"
  by code_simp


end
