(* ===== verification/Audit_Seed.thy ===== *)
theory Audit_Seed
  imports Registries Http_API Audit_Service
begin

text \<open>
  The root job of a dependency audit (\<^verbatim>\<open>src/internal/handlers/dependency_audit.go\<close>): fetch the four
  manifests from GitHub (\<^verbatim>\<open>src/internal/github/client.go\<close>) and submit one child per declared
  dependency.
\<close>

section \<open>GitHub\<close>

record github_env =
  gh_base_path :: "go_error + string"
  gh_new_request :: "string \<Rightarrow> string \<Rightarrow> go_error option"
  gh_do :: "string \<Rightarrow> string \<Rightarrow> go_error + web_response"

definition maxManifestBytes :: int where
  "maxManifestBytes = 1048576"

definition repository_text :: "repository \<Rightarrow> string" where
  "repository_text r = Owner r @ ''/'' @ RepoName r"

text \<open>The response of GitHub; \<^verbatim>\<open>None\<close> for 200.\<close>

definition status_failure :: "repository \<Rightarrow> string \<Rightarrow> int \<Rightarrow> go_error option" where
  "status_failure r path status =
     (if status = 200 then None
      else if status = 404 then
        Some (PlainError (''GitHub manifest '' @ quote path @ '' was not found in '' @ repository_text r))
      else if status = 403 \<or> status = 429 then
        Some (PlainError (''GitHub API rate limit or access restriction for '' @ repository_text r @ '' manifest '' @
          quote path @ '' (status '' @ int_text status @ '')''))
      else
        Some (PlainError (''GitHub API returned status '' @ int_text status @ '' for '' @ repository_text r @
          '' manifest '' @ quote path)))"

definition FetchManifest :: "github_env \<Rightarrow> repository \<Rightarrow> string \<Rightarrow> string \<Rightarrow> go_error + string" where
  "FetchManifest env r manifestPath ref =
     (case ValidateManifestPath manifestPath of
        Some err \<Rightarrow> Inl err
      | None \<Rightarrow>
          if Owner r = [] \<or> RepoName r = [] then Inl (PlainError ''GitHub repository owner and name are required'')
          else (case gh_base_path env of
            Inl err \<Rightarrow> Inl (Wrapped ''invalid GitHub API base URL'' err)
          | Inr base \<Rightarrow>
              (let path = trim_right base ''/'' @ ''/repos/'' @ repository_text r @ ''/contents/'' @ manifestPath
               in case gh_new_request env path ref of
                 Some err \<Rightarrow> Inl (Wrapped ''create GitHub manifest request'' err)
               | None \<Rightarrow>
                   (case gh_do env path ref of
                      Inl err \<Rightarrow> Inl (Wrapped ''fetch GitHub manifest'' err)
                    | Inr resp \<Rightarrow>
                        (case status_failure r manifestPath (wr_status resp) of
                           Some err \<Rightarrow> Inl err
                         | None \<Rightarrow>
                             (case wr_body resp of
                                Inl err \<Rightarrow> Inl (Wrapped ''read GitHub manifest response'' err)
                              | Inr data \<Rightarrow>
                                  if maxManifestBytes < int (length data)
                                  then Inl (PlainError ''GitHub manifest exceeds the 1 MiB limit'') else Inr data))))))"

section \<open>The root handler\<close>

record seed_env =
  se_decode :: "string \<Rightarrow> go_error + string \<times> string"
  se_url_parse :: "string \<Rightarrow> go_error + parsed_url"
  se_fetch :: "repository \<Rightarrow> string \<Rightarrow> string \<Rightarrow> go_error + string"
  se_package_json :: "string \<Rightarrow> go_error + package_json"
  se_pyproject :: "string \<Rightarrow> go_error + pyproject"
  se_modules :: module_env
  se_go_mod :: "string \<Rightarrow> go_error + root_mod_file"
  se_encode :: "audit_payload \<Rightarrow> go_error + string"
  se_encode_result :: "string \<Rightarrow> string \<Rightarrow> string list \<Rightarrow> nat \<Rightarrow> string"
  se_network :: "go_error \<Rightarrow> bool"
  se_sha :: "string \<Rightarrow> string"

record manifest_spec =
  sp_path :: string
  sp_ecosystem :: string
  sp_jobType :: string
  sp_parse :: "string \<Rightarrow> go_error + manifest"

definition zero_target :: target where
  "zero_target = \<lparr>PythonVersion = [], PythonFullVersion = [], Platform = [], SysPlatform = [], OSName = [],
     PlatformSystem = [], Implementation = []\<rparr>"

definition audit_target :: target where
  "audit_target = (case NewTarget ''3.12'' ''linux'' of Inr t \<Rightarrow> t | Inl _ \<Rightarrow> zero_target)"

definition specs :: "seed_env \<Rightarrow> repository \<Rightarrow> manifest_spec list" where
  "specs env r =
     [\<lparr>sp_path = ''package.json'', sp_ecosystem = ''npm'', sp_jobType = ''audit_npm_package'',
       sp_parse = (\<lambda>data. ParsePackageJSON (se_package_json env) data True)\<rparr>,
      \<lparr>sp_path = ''pyproject.toml'', sp_ecosystem = ''pypi'', sp_jobType = ''audit_pypi_package'',
       sp_parse = (\<lambda>data. ParsePyProject (se_pyproject env) data audit_target)\<rparr>,
      \<lparr>sp_path = ''requirements.txt'', sp_ecosystem = ''pypi'', sp_jobType = ''audit_pypi_package'',
       sp_parse = (\<lambda>data. ParseRequirements data (RepoName r) audit_target)\<rparr>,
      \<lparr>sp_path = ''go.mod'', sp_ecosystem = ''go'', sp_jobType = ''audit_go_module'',
       sp_parse = (\<lambda>data. map_sum id fst (ParseGoMod (se_modules env) (se_go_mod env) data))\<rparr>]"

definition not_found :: "go_error \<Rightarrow> bool" where
  "not_found err \<longleftrightarrow> contains (error_text err) ''was not found''"

fun seed_children :: "seed_env \<Rightarrow> job \<Rightarrow> manifest_spec \<Rightarrow> string \<Rightarrow> dependency list \<Rightarrow> go_error + submission list" where
  "seed_children env v spec parentName [] = Inr []"
| "seed_children env v spec parentName (d # ds) =
     (case se_encode env \<lparr>ap_name = d_Name d, ap_version = d_VersionRange d, ap_parent_name = parentName,
             ap_parent_version = []\<rparr> of
        Inl err \<Rightarrow> Inl (ClassifiedError ErrorPermanent err)
      | Inr body \<Rightarrow>
          bindE (seed_children env v spec parentName ds) (\<lambda>rest.
            Inr (auditChild (se_sha env) (RootJobID v) (ID v) body (sp_jobType spec) (sp_ecosystem spec)
                   (d_Name d) (d_VersionRange d) (MaxAttempts v) # rest)))"

fun seed_manifests :: "seed_env \<Rightarrow> job \<Rightarrow> repository \<Rightarrow> string \<Rightarrow> manifest_spec list \<Rightarrow> go_error + string list \<times> submission list" where
  "seed_manifests env v r ref [] = Inr ([], [])"
| "seed_manifests env v r ref (spec # rest) =
     (case se_fetch env r (sp_path spec) ref of
        Inl err \<Rightarrow> if not_found err then seed_manifests env v r ref rest else Inl (classifyError (se_network env) err)
      | Inr data \<Rightarrow>
          (case sp_parse spec data of
             Inl err \<Rightarrow> Inl (ClassifiedError ErrorPermanent err)
           | Inr m \<Rightarrow>
               bindE (seed_children env v spec (mn_Name m) (mn_Dependencies m)) (\<lambda>children.
               bindE (seed_manifests env v r ref rest) (\<lambda>(roots, others).
                 Inr ((sp_ecosystem spec @ '':'' @ mn_Name m) # roots, children @ others)))))"

definition DependencyAudit_Handle :: "seed_env \<Rightarrow> job \<Rightarrow> go_error + handler_result" where
  "DependencyAudit_Handle env v =
     (case se_decode env (Payload v) of
        Inl err \<Rightarrow> Inl (ClassifiedError ErrorPermanent (Wrapped ''invalid dependency audit payload'' err))
      | Inr (repositoryUrl, ref) \<Rightarrow>
          (case ParseRepositoryURL (se_url_parse env) (trim_space repositoryUrl) of
             Inl err \<Rightarrow> Inl (ClassifiedError ErrorPermanent err)
           | Inr r \<Rightarrow>
               bindE (seed_manifests env v r (trim_space ref) (specs env r)) (\<lambda>(roots, children).
                 if roots = [] then
                   Inl (ClassifiedError ErrorPermanent (PlainError ''repository contains no supported dependency manifest''))
                 else Inr \<lparr>Result = se_encode_result env (RootJobID v) repositoryUrl roots (length children),
                           Children = children\<rparr>)))"

section \<open>Words of a message\<close>

lemma split_on_at: "split_on c (u @ c # v) = split_on c u @ split_on c v"
  by (induction u) (auto split: list.split)

text \<open>A pattern of two words occurs only across a space of the text.\<close>

lemma contains_two_words:
  assumes "contains s (a @ CHR '' '' # b)" "CHR '' '' \<notin> set a" "CHR '' '' \<notin> set b"
  shows "\<exists>us w1 w2 vs. split_on CHR '' '' s = us @ [w1, w2] @ vs \<and> suffix a w1 \<and> prefix b w2"
proof -
  obtain x y where s: "s = x @ (a @ CHR '' '' # b) @ y" using assms(1) contains_iff by blast
  have left: "\<exists>us w. split_on CHR '' '' (x @ a) = us @ [w] \<and> suffix a w"
    using assms(2)
  proof (induction x)
    case (Cons c x)
    then obtain us w where "split_on CHR '' '' (x @ a) = us @ [w]" "suffix a w" by auto
    then show ?case by (cases us) (auto intro: suffix_ConsI)
  qed (auto simp: split_on_id)
  have right: "\<exists>w vs. split_on CHR '' '' (b @ y) = w # vs \<and> prefix b w"
    using assms(3)
  proof (induction b)
    case (Cons c b)
    then show ?case by (auto split: list.split)
  qed (simp, metis list.exhaust split_on_nonempty)
  have "split_on CHR '' '' s = split_on CHR '' '' (x @ a) @ split_on CHR '' '' (b @ y)"
    using split_on_at [of "CHR '' ''" "x @ a" "b @ y"] s by simp
  with left right show ?thesis by fastforce
qed

lemma consecutive_in_zip: "(w1, w2) \<in> set (zip (us @ [w1, w2] @ vs) (tl (us @ [w1, w2] @ vs)))"
proof (induction us)
  case (Cons u us)
  then show ?case by (cases us) auto
qed simp

definition across :: "string \<Rightarrow> string \<Rightarrow> string list \<Rightarrow> bool" where
  "across a b ws \<longleftrightarrow> list_ex (\<lambda>(w1, w2). suffix a w1 \<and> prefix b w2) (zip ws (tl ws))"

lemma contains_across:
  assumes "contains s (a @ CHR '' '' # b)" "CHR '' '' \<notin> set a" "CHR '' '' \<notin> set b"
  shows "across a b (split_on CHR '' '' s)"
proof -
  obtain us w1 w2 vs where w: "split_on CHR '' '' s = us @ [w1, w2] @ vs" "suffix a w1" "prefix b w2"
    using contains_two_words [OF assms] by blast
  have "(w1, w2) \<in> set (zip (split_on CHR '' '' s) (tl (split_on CHR '' '' s)))"
    unfolding w(1) by (rule consecutive_in_zip)
  with w(2,3) show ?thesis unfolding across_def list_ex_iff by (intro bexI [of _ "(w1, w2)"]) simp_all
qed

lemma lower_char_space [simp]: "lower_char c = CHR '' '' \<longleftrightarrow> c = CHR '' ''"
proof -
  have "lower_char c \<noteq> CHR '' ''" if "65 \<le> (of_char c :: nat)" "(of_char c :: nat) \<le> 90"
  proof
    assume "lower_char c = CHR '' ''"
    then have "(of_char (char_of (of_char c + 32 :: nat) :: char) :: nat) = of_char CHR '' ''" using that by (simp add: lower_char_def)
    then show False using that by (simp add: of_char_of)
  qed
  then show ?thesis by (cases "65 \<le> (of_char c :: nat) \<and> (of_char c :: nat) \<le> 90") (auto simp: lower_char_def Let_def)
qed

lemma split_on_to_lower: "split_on CHR '' '' (to_lower s) = map to_lower (split_on CHR '' '' s)"
  by (induction s) (auto simp: to_lower_def split: list.split)

lemma nat_text_free: "CHR '' '' \<notin> set (nat_text n)"
proof
  assume "CHR '' '' \<in> set (nat_text n)"
  then have "is_digit CHR '' ''" using nat_text_digits [of n] by (auto simp: list_all_iff)
  then show False by (simp add: is_digit_def)
qed

lemma nat_text_three:
  assumes "100 \<le> n" "n < 1000"
  shows "length (nat_text n) = 3"
proof -
  have "\<not> n < 10" "\<not> n div 10 < 10" "n div 10 div 10 < 10" using assms by arith+
  then show ?thesis by (simp add: nat_text.simps [of n] nat_text.simps [of "n div 10"] nat_text.simps [of "n div 10 div 10"])
qed

lemma code_prefix:
  assumes "prefix (nat_text m) (nat_text n)" "100 \<le> m" "m < 1000" "100 \<le> n" "n < 1000"
  shows "n = m"
  using assms nat_text_three [of m] nat_text_three [of n] by (auto simp: prefix_def)

lemma digits_prefix: "prefix (c # cs) (nat_text n) \<Longrightarrow> is_digit c"
  by (auto simp: prefix_def dest: nat_text_hd)

section \<open>What a GitHub status does to the job\<close>

text \<open>Neither the owner nor the name of a repository has a space.\<close>

definition plain_repository :: "repository \<Rightarrow> bool" where
  "plain_repository r \<longleftrightarrow> CHR '' '' \<notin> set (Owner r) \<and> CHR '' '' \<notin> set (RepoName r)"

definition manifest_paths :: "string list" where
  "manifest_paths = [''package.json'', ''pyproject.toml'', ''requirements.txt'', ''go.mod'']"

lemma quoted_paths: "list_all (\<lambda>p. CHR '' '' \<notin> set (quote p) \<and> hd (quote p) = CHR 0x22 \<and> to_lower (quote p) = quote p) manifest_paths"
  by code_simp

lemma status_words:
  assumes "plain_repository r" "path \<in> set manifest_paths" "0 \<le> status"
  shows "split_on CHR '' '' (''GitHub API returned status '' @ int_text status @ '' for '' @ repository_text r @ '' manifest '' @ quote path) =
    [''GitHub'', ''API'', ''returned'', ''status'', int_text status, ''for'', repository_text r, ''manifest'', quote path]"
proof -
  have free: "CHR '' '' \<notin> set (int_text status)" "CHR '' '' \<notin> set (repository_text r)" "CHR '' '' \<notin> set (quote path)"
    using assms nat_text_free quoted_paths by (auto simp: int_text_def plain_repository_def repository_text_def list_all_iff)
  have "split_on CHR '' '' (''GitHub'' @ CHR '' '' # ''API'' @ CHR '' '' # ''returned'' @ CHR '' '' # ''status'' @ CHR '' '' #
      int_text status @ CHR '' '' # ''for'' @ CHR '' '' # repository_text r @ CHR '' '' # ''manifest'' @ CHR '' '' # quote path) =
    [''GitHub'', ''API'', ''returned'', ''status'', int_text status, ''for'', repository_text r, ''manifest'', quote path]"
    by (subst split_on_append, simp)+ (simp add: free split_on_append split_on_id)
  then show ?thesis by simp
qed

lemma to_lower_nat_text: "to_lower (nat_text m) = nat_text m"
  using nat_text_digits [of m] unfolding to_lower_def list_all_iff
  by (intro map_idI) (auto simp: is_digit_def lower_char_def Let_def)

lemma status_across:
  assumes "plain_repository r" "path \<in> set manifest_paths" "0 \<le> status"
    and "s = ''GitHub API returned status '' @ int_text status @ '' for '' @ repository_text r @ '' manifest '' @ quote path"
  shows "\<not> across ''was'' ''not'' (split_on CHR '' '' s)"
    and "\<not> across ''rate'' ''limit'' (split_on CHR '' '' (to_lower s))"
    and "across ''status'' (nat_text code) (split_on CHR '' '' (to_lower s)) \<Longrightarrow> prefix (nat_text code) (nat_text (nat status))"
proof -
  have n: "int_text status = nat_text (nat status)" using assms(3) by (simp add: int_text_def)
  obtain c cs where c: "nat_text (nat status) = c # cs" "is_digit c"
    by (metis list.exhaust nat_text_hd nat_text_nonempty)
  obtain d ds where d: "nat_text code = d # ds" "is_digit d"
    by (metis list.exhaust nat_text_hd nat_text_nonempty)
  obtain q where q: "quote path = CHR 0x22 # q" by (simp add: quote_def)
  have nd: "\<not> is_digit CHR ''n''" "\<not> is_digit CHR ''l''" "\<not> is_digit CHR ''m''" "\<not> is_digit CHR 0x22"
    "\<not> is_digit CHR ''f''" "\<not> is_digit CHR ''r''" "\<not> is_digit CHR ''a''" "\<not> is_digit CHR ''s''" by (simp_all add: is_digit_def)
  have ql: "to_lower (quote path) = quote path" using assms(2) quoted_paths by (auto simp: list_all_iff)
  have words: "map to_lower [''GitHub'', ''API'', ''returned'', ''status'', ''for'', ''manifest''] =
      [''github'', ''api'', ''returned'', ''status'', ''for'', ''manifest'']" by code_simp
  note ws = status_words [OF assms(1-3), folded assms(4)]
  have wl: "split_on CHR '' '' (to_lower s) = [''github'', ''api'', ''returned'', ''status'', nat_text (nat status), ''for'',
      to_lower (repository_text r), ''manifest'', quote path]"
    using words by (simp add: split_on_to_lower ws n to_lower_nat_text ql)
  show "\<not> across ''was'' ''not'' (split_on CHR '' '' s)"
    using c nd by (auto simp: ws n across_def suffix_to_prefix q)
  show "\<not> across ''rate'' ''limit'' (split_on CHR '' '' (to_lower s))"
    using c nd by (auto simp: wl across_def suffix_to_prefix q)
  assume "across ''status'' (nat_text code) (split_on CHR '' '' (to_lower s))"
  then show "prefix (nat_text code) (nat_text (nat status))"
    using d nd by (auto simp: wl across_def suffix_to_prefix q)
qed

lemma limit_words:
  assumes "plain_repository r" "path \<in> set manifest_paths" "status \<in> {403, 429}"
  shows "\<not> across ''was'' ''not'' (split_on CHR '' '' (''GitHub API rate limit or access restriction for '' @ repository_text r @
    '' manifest '' @ quote path @ '' (status '' @ int_text status @ '')''))"
proof -
  have free: "CHR '' '' \<notin> set (repository_text r)" "CHR '' '' \<notin> set (quote path)"
    using assms quoted_paths by (auto simp: plain_repository_def repository_text_def list_all_iff)
  have n: "int_text status = ''403'' \<or> int_text status = ''429''"
  proof -
    have "int_text 403 = ''403''" "int_text 429 = ''429''" by code_simp+
    with assms(3) show ?thesis by auto
  qed
  obtain q where q: "quote path = CHR 0x22 # q" by (simp add: quote_def)
  have "split_on CHR '' '' (''GitHub'' @ CHR '' '' # ''API'' @ CHR '' '' # ''rate'' @ CHR '' '' # ''limit'' @ CHR '' '' #
      ''or'' @ CHR '' '' # ''access'' @ CHR '' '' # ''restriction'' @ CHR '' '' # ''for'' @ CHR '' '' #
      repository_text r @ CHR '' '' # ''manifest'' @ CHR '' '' # quote path @ CHR '' '' # ''(status'' @ CHR '' '' # (int_text status @ '')'')) =
    [''GitHub'', ''API'', ''rate'', ''limit'', ''or'', ''access'', ''restriction'', ''for'', repository_text r, ''manifest'',
     quote path, ''(status'', int_text status @ '')'']"
    using n by (subst split_on_append, simp)+ (auto simp: free split_on_append split_on_id)
  then show ?thesis using n by (auto simp: across_def suffix_to_prefix q)
qed

lemma contains_not_found: "contains s ''was not found'' \<Longrightarrow> across ''was'' ''not'' (split_on CHR '' '' s)"
proof -
  assume "contains s ''was not found''"
  then obtain x y where "s = x @ ''was not found'' @ y" by (auto simp: contains_iff)
  then have "s = x @ (''was'' @ CHR '' '' # ''not'') @ ('' found'' @ y)" by simp
  then have "contains s (''was'' @ CHR '' '' # ''not'')" unfolding contains_iff by blast
  then show ?thesis by (rule contains_across) simp_all
qed

lemma status_text_codes: "[''429'', ''502'', ''503'', ''504''] = map nat_text [429, 502, 503, 504]"
  by code_simp

text \<open>The four texts of \<^verbatim>\<open>FetchManifest\<close> are read back by the root handler as they were meant.\<close>

lemma status_failure_read:
  assumes "plain_repository r" "path \<in> set manifest_paths" "100 \<le> status" "status < 1000"
    and "status_failure r path status = Some err" "\<not> net err"
  shows "not_found err \<longleftrightarrow> status = 404"
    and "status \<noteq> 404 \<Longrightarrow> KindOf (classifyError net err) =
      (if status \<in> {403, 429, 502, 503, 504} then ErrorTransient else ErrorPermanent)"
proof -
  consider (missing) "status = 404" | (limited) "status \<in> {403, 429}" | (other) "status \<notin> {200, 404, 403, 429}"
    using assms(5) by (cases "status = 200") (auto simp: status_failure_def)
  then have "(not_found err \<longleftrightarrow> status = 404) \<and> (status \<noteq> 404 \<longrightarrow> KindOf (classifyError net err) =
      (if status \<in> {403, 429, 502, 503, 504} then ErrorTransient else ErrorPermanent))"
  proof cases
    case missing
    then have "error_text err = (''GitHub manifest '' @ quote path @ '' '') @ ''was not found'' @ ('' in '' @ repository_text r)"
      using assms(5) by (auto simp: status_failure_def)
    then have "not_found err" unfolding not_found_def contains_iff by blast
    then show ?thesis using missing by simp
  next
    case limited
    then have e: "error_text err = ''GitHub API rate limit or access restriction for '' @ repository_text r @
        '' manifest '' @ quote path @ '' (status '' @ int_text status @ '')''"
      using assms(5) by (auto simp: status_failure_def)
    have nf: "\<not> not_found err" using contains_not_found limit_words [OF assms(1,2) limited] unfolding not_found_def e by blast
    have "to_lower ''GitHub API rate limit or access restriction for '' = ''github api '' @ ''rate limit'' @ '' or access restriction for ''"
      by code_simp
    then have "contains (to_lower (error_text err)) ''rate limit''"
      unfolding e contains_iff to_lower_def map_append by (metis append.assoc)
    then show ?thesis using nf limited by (auto simp: classifyError_def Let_def KindOf_def)
  next
    case other
    have st: "0 \<le> status" using assms(3) by simp
    have e: "error_text err = ''GitHub API returned status '' @ int_text status @ '' for '' @ repository_text r @ '' manifest '' @ quote path"
      using assms(5) other by (auto simp: status_failure_def)
    note ac = status_across [OF assms(1,2) st e]
    have nf: "\<not> not_found err" using contains_not_found ac(1) unfolding not_found_def by blast
    have rl: "\<not> contains (to_lower (error_text err)) ''rate limit''"
      using contains_across [of "to_lower (error_text err)" "''rate''" "''limit''"] ac(2) by auto
    have code: "contains (to_lower (error_text err)) (''status '' @ nat_text m) \<longleftrightarrow> nat status = m" if "100 \<le> m" "m < 1000" for m
    proof
      assume "contains (to_lower (error_text err)) (''status '' @ nat_text m)"
      then have "across ''status'' (nat_text m) (split_on CHR '' '' (to_lower (error_text err)))"
        using contains_across [of "to_lower (error_text err)" "''status''" "nat_text m"] nat_text_free by simp
      then show "nat status = m" using ac(3) code_prefix [of m "nat status"] that assms(3,4) by simp
    next
      assume m: "nat status = m"
      then have "error_text err = ''GitHub API returned '' @ (''status '' @ nat_text m) @ ('' for '' @ repository_text r @ '' manifest '' @ quote path)"
        using e st by (simp add: int_text_def)
      then have "contains (error_text err) (''status '' @ nat_text m)" unfolding contains_iff by blast
      then have "contains (to_lower (error_text err)) (to_lower (''status '' @ nat_text m))" by (rule contains_mono_lower)
      moreover have "to_lower (''status '' @ nat_text m) = ''status '' @ nat_text m"
        using to_lower_nat_text [of m] by (simp add: to_lower_def lower_char_def)
      ultimately show "contains (to_lower (error_text err)) (''status '' @ nat_text m)" by simp
    qed
    have "contains (to_lower (error_text err)) ''status 429'' \<longleftrightarrow> status = 429"
      "contains (to_lower (error_text err)) ''status 502'' \<longleftrightarrow> status = 502"
      "contains (to_lower (error_text err)) ''status 503'' \<longleftrightarrow> status = 503"
      "contains (to_lower (error_text err)) ''status 504'' \<longleftrightarrow> status = 504"
      using code [of 429] code [of 502] code [of 503] code [of 504] status_text_codes by auto
    then have "KindOf (classifyError net err) = (if status \<in> {429, 502, 503, 504} then ErrorTransient else ErrorPermanent)"
      using rl assms(6) by (auto simp: classifyError_def Let_def KindOf_def)
    then show ?thesis using nf other by auto
  qed
  then show "not_found err \<longleftrightarrow> status = 404" "status \<noteq> 404 \<Longrightarrow> KindOf (classifyError net err) =
      (if status \<in> {403, 429, 502, 503, 504} then ErrorTransient else ErrorPermanent)" by blast+
qed


definition demo_github :: github_env where
  "demo_github = \<lparr>gh_base_path = Inr ''/'', gh_new_request = (\<lambda>_ _. None), gh_do = (\<lambda>_ _. Inr \<lparr>wr_status = 503, wr_body = Inr []\<rparr>)\<rparr>"

definition demo_repository :: repository where
  "demo_repository = \<lparr>Owner = ''acme'', RepoName = ''app''\<rparr>"

definition demo_seed_env :: seed_env where
  "demo_seed_env =
     \<lparr>se_decode = (\<lambda>_. Inr ([], [])), se_url_parse = (\<lambda>_. Inl (PlainError [])), se_fetch = FetchManifest demo_github,
      se_package_json = (\<lambda>_. Inl (PlainError [])), se_pyproject = (\<lambda>_. Inl (PlainError [])),
      se_modules = \<lparr>semver_compare = (\<lambda>_ _. 0), semver_valid = (\<lambda>_. False), canonical_version = (\<lambda>s. s),
        is_pseudo_version = (\<lambda>_. False), pseudo_version_time = (\<lambda>_. None), pseudo_version_base = (\<lambda>_. None),
        check_path = (\<lambda>_. None), module_check = (\<lambda>_ _. None)\<rparr>,
      se_go_mod = (\<lambda>_. Inl (PlainError [])), se_encode = (\<lambda>_. Inr []), se_encode_result = (\<lambda>_ _ _ _. []),
      se_network = (\<lambda>_. False), se_sha = (\<lambda>s. s)\<rparr>"

definition demo_failure :: go_error where
  "demo_failure = PlainError (''GitHub API returned status 503 for acme/app manifest '' @ quote ''package.json'')"

lemma demo_failure_is: "status_failure demo_repository ''package.json'' 503 = Some demo_failure"
  "FetchManifest demo_github demo_repository ''package.json'' [] = Inl demo_failure"
  by code_simp+


end
