(* ===== verification/Audit_Markdown.thy ===== *)
theory Audit_Markdown
  imports Audit_Report Go_Sort "HOL-Library.AList"
begin

text \<open>
  The Markdown report (\<^verbatim>\<open>src/internal/auditor/markdown.go\<close>): sorted copies of the packages, edges and
  violations, two Mermaid graphs, a path per violation and two tables. A Go map is an
  association list; \<^verbatim>\<open>strings.NewReplacer\<close> tries its pairs in order at each position.
\<close>

section \<open>Escaping\<close>

function replacer :: "(string \<times> string) list \<Rightarrow> string \<Rightarrow> string" where
  "replacer pairs [] = []"
| "replacer pairs (c # s) =
     (case find (\<lambda>(old, new). old \<noteq> [] \<and> has_prefix (c # s) old) pairs of
        None \<Rightarrow> c # replacer pairs s
      | Some (old, new) \<Rightarrow> new @ replacer pairs (drop (length old) (c # s)))"
  by pat_completeness auto
termination
  by (relation "measure (\<lambda>(pairs, s). length s)") (auto simp: find_Some_iff)

definition newline :: char where "newline = CHR 0x0A"

definition carriage :: char where "carriage = CHR 0x0D"

definition backslash :: char where "backslash = CHR 0x5C"

definition backtick :: char where "backtick = CHR 0x60"

definition line_breaks :: "(string \<times> string) list" where
  "line_breaks = [([carriage, newline], '' ''), ([carriage], '' ''), ([newline], '' '')]"

definition escapeMermaidLabel :: "string \<Rightarrow> string" where
  "escapeMermaidLabel v =
     replacer ([([backslash], [backslash, backslash]), ([CHR 0x22], [backslash, CHR 0x22])] @ line_breaks) v"

definition inline_pairs :: "(string \<times> string) list" where
  "inline_pairs = line_breaks @ [(''|'', [backslash] @ ''|''), ([backtick], ''&#96;'')]"

definition markdownInlineCode :: "string \<Rightarrow> string" where
  "markdownInlineCode v = [backtick] @ replacer inline_pairs v @ [backtick]"

definition packageCoordinate :: "string \<Rightarrow> string \<Rightarrow> string" where
  "packageCoordinate name version = (if version = [] then name else name @ ''@'' @ version)"

section \<open>Edges and nodes\<close>

definition dependencyEdgeLess :: "dependency_edge \<Rightarrow> dependency_edge \<Rightarrow> bool" where
  "dependencyEdgeLess a b =
     (if FromName a \<noteq> FromName b then FromName a < FromName b
      else if FromVersion a \<noteq> FromVersion b then FromVersion a < FromVersion b
      else if ToName a \<noteq> ToName b then ToName a < ToName b
      else ToVersion a < ToVersion b)"

text \<open>The slice \<^verbatim>\<open>deduplicated\<close> is a list in reverse.\<close>

fun dedup_loop :: "dependency_edge list \<Rightarrow> dependency_edge list \<Rightarrow> dependency_edge list" where
  "dedup_loop acc [] = rev acc"
| "dedup_loop acc (e # es) = (if acc = [] \<or> hd acc \<noteq> e then dedup_loop (e # acc) es else dedup_loop acc es)"

definition deduplicateDependencyEdges :: "dependency_edge list \<Rightarrow> dependency_edge list" where
  "deduplicateDependencyEdges edges = (if length edges < 2 then edges else dedup_loop [] edges)"

definition directDependencyEdges :: "string \<Rightarrow> dependency_edge list \<Rightarrow> dependency_edge list" where
  "directDependencyEdges root edges = filter (\<lambda>e. FromName e = root \<and> FromVersion e = []) edges"

type_synonym node = "string \<times> string"

definition markdownGraphNodeKey :: "string \<Rightarrow> string \<Rightarrow> string" where
  "markdownGraphNodeKey name version = name @ [CHR 0x00] @ version"

definition add_node :: "node \<Rightarrow> (string \<times> node) list \<Rightarrow> (string \<times> node) list" where
  "add_node n m = AList.update (markdownGraphNodeKey (fst n) (snd n)) n m"

definition graph_endpoints :: "package list \<Rightarrow> dependency_edge list \<Rightarrow> node list" where
  "graph_endpoints packages edges =
     map (\<lambda>p. (pk_name p, pk_version p)) packages @
     concat (map (\<lambda>e. [(FromName e, FromVersion e), (ToName e, ToVersion e)]) edges)"

definition node_id :: "nat \<Rightarrow> string" where
  "node_id i = ''n'' @ nat_text i"

definition markdownGraphNodes :: "package list \<Rightarrow> dependency_edge list \<Rightarrow> node list \<times> (string \<times> string) list" where
  "markdownGraphNodes packages edges =
     (let byKey = fold add_node (graph_endpoints packages edges) [];
          nodes = sort_by (less2 fst snd) (map snd byKey);
          ids = fold (\<lambda>(i, n). AList.update (markdownGraphNodeKey (fst n) (snd n)) (node_id i)) (zip [0..<length nodes] nodes) []
      in (nodes, ids))"

definition id_of :: "(string \<times> string) list \<Rightarrow> string \<Rightarrow> string \<Rightarrow> string" where
  "id_of ids name version = (case map_of ids (markdownGraphNodeKey name version) of Some i \<Rightarrow> i | None \<Rightarrow> [])"

section \<open>Rendering\<close>

definition line :: "string \<Rightarrow> string" where
  "line s = s @ [newline]"

definition fence :: string where
  "fence = [backtick, backtick, backtick]"

definition elk_config :: string where
  "elk_config = concat (map line [''---'', ''config:'', ''  layout: elk'', ''  flowchart:'', ''    useMaxWidth: false'',
     ''    nodeSpacing: 35'', ''    rankSpacing: 60'', ''---''])"

definition node_line :: "string \<Rightarrow> string \<Rightarrow> string" where
  "node_line nodeID label = line (''    '' @ nodeID @ ''['' @ [CHR 0x22] @ escapeMermaidLabel label @ [CHR 0x22] @ '']'')"

definition arrow_line :: "string \<Rightarrow> string \<Rightarrow> string" where
  "arrow_line a b = line (''    '' @ a @ '' --> '' @ b)"

definition writeMermaidGraph :: "package list \<Rightarrow> dependency_edge list \<Rightarrow> bool \<Rightarrow> string" where
  "writeMermaidGraph packages edges useELK =
     (let (nodes, ids) = markdownGraphNodes packages edges
      in line (fence @ ''mermaid'') @ (if useELK then elk_config else []) @ line ''flowchart TB'' @
         concat (map (\<lambda>n. node_line (id_of ids (fst n) (snd n)) (packageCoordinate (fst n) (snd n))) nodes) @
         concat (map (\<lambda>e. arrow_line (id_of ids (FromName e) (FromVersion e)) (id_of ids (ToName e) (ToVersion e))) edges) @
         line fence @ line [])"

definition path_id :: "nat \<Rightarrow> string" where
  "path_id i = ''p'' @ nat_text i"

definition writeMermaidPath :: "string list \<Rightarrow> string" where
  "writeMermaidPath path =
     line (fence @ ''mermaid'') @ line ''flowchart LR'' @
     concat (map (\<lambda>(i, coordinate). node_line (path_id i) coordinate) (zip [0..<length path] path)) @
     concat (map (\<lambda>i. arrow_line (path_id (i - 1)) (path_id i)) [1..<length path]) @
     line fence @ line []"

text \<open>A table row: cells between bars.\<close>

definition table_row :: "string list \<Rightarrow> string" where
  "table_row cells = line (''|'' @ concat (map (\<lambda>c. '' '' @ c @ '' |'') cells))"

definition license_cell :: "string \<Rightarrow> string" where
  "license_cell license = (if license \<noteq> [] then markdownInlineCode license else ''Not declared'')"

text \<open>An arrow between spaces, in UTF-8.\<close>

definition path_arrow :: string where
  "path_arrow = [CHR '' '', CHR 0xE2, CHR 0x86, CHR 0x92, CHR '' '']"

definition package_row :: "package \<Rightarrow> string" where
  "package_row p = table_row [markdownInlineCode (pk_name p), markdownInlineCode (pk_version p),
     license_cell (pk_license p), markdownInlineCode (verdict_text (pk_verdict p))]"

definition violation_coordinate :: "package_violation \<Rightarrow> string" where
  "violation_coordinate v = packageCoordinate (pk_name (v_package v)) (pk_version (v_package v))"

definition violation_row :: "package_violation \<Rightarrow> string" where
  "violation_row v = table_row [markdownInlineCode (violation_coordinate v), license_cell (pk_license (v_package v)),
     if v_path v \<noteq> [] then markdownInlineCode (join path_arrow (v_path v)) else ''Not available'']"

definition violation_section :: "package_violation \<Rightarrow> string" where
  "violation_section v =
     line (''### '' @ markdownInlineCode (violation_coordinate v)) @ line [] @
     writeMermaidPath (if v_path v = [] then [violation_coordinate v] else v_path v)"

definition violation_less :: "package_violation \<Rightarrow> package_violation \<Rightarrow> bool" where
  "violation_less a b =
     (if pk_name (v_package a) \<noteq> pk_name (v_package b) then pk_name (v_package a) < pk_name (v_package b)
      else if pk_version (v_package a) \<noteq> pk_version (v_package b) then pk_version (v_package a) < pk_version (v_package b)
      else join [CHR 0x00] (v_path a) < join [CHR 0x00] (v_path b))"

record markdown_input =
  mi_Root :: string
  mi_Packages :: "package list"
  mi_Edges :: "dependency_edge list"
  mi_Report :: "report option"
  mi_Metadata :: "(string \<times> string) list"

definition heading :: "string \<Rightarrow> string" where
  "heading s = line s @ line []"

definition GenerateMarkdownReport :: "markdown_input \<Rightarrow> string + string" where
  "GenerateMarkdownReport input =
     (case mi_Report input of
        None \<Rightarrow> Inl ''markdown report: report is required''
      | Some rep \<Rightarrow>
          (let packages = sort_by (less2 pk_name pk_version) (mi_Packages input);
               edges = deduplicateDependencyEdges (sort_by dependencyEdgeLess (mi_Edges input));
               violations = sort_by violation_less (PolicyViolations rep);
               metadataKeys = sort_by (<) (map fst (mi_Metadata input));
               overview = (if mi_Root input \<noteq> []
                           then [\<lparr>pk_name = mi_Root input, pk_version = [], pk_license = [], pk_verdict = VerdictPass\<rparr>] else [])
           in Inr
             (heading ''# Dependency Audit Report'' @ heading ''## Summary'' @
              line (''- Root: '' @ markdownInlineCode (mi_Root input)) @
              concat (map (\<lambda>k. line (''- '' @ k @ '': '' @ markdownInlineCode (the (map_of (mi_Metadata input) k)))) metadataKeys) @
              line (''- Packages scanned: '' @ nat_text (TotalPackages rep)) @
              heading (''- Policy violations: '' @ nat_text (length violations)) @
              heading ''## Dependency Overview'' @
              writeMermaidGraph overview (directDependencyEdges (mi_Root input) edges) False @
              heading ''## Violation Paths'' @
              (if violations = [] then heading ''No policy violation paths.'' else []) @
              concat (map violation_section violations) @
              heading ''## Complete Dependency Graph'' @
              line ''<details>'' @
              heading (''<summary>Show all '' @ nat_text (length packages) @ '' packages and '' @ nat_text (length edges) @
                '' edges</summary>'') @
              writeMermaidGraph packages edges True @
              heading ''</details>'' @
              heading ''## Packages'' @
              line ''| Package | Version | License | Verdict |'' @ line ''|---|---|---|---|'' @
              concat (map package_row packages) @ line [] @
              heading ''## Policy Violations'' @
              line ''| Package | License | Dependency path |'' @ line ''|---|---|---|'' @
              concat (map violation_row violations))))"

end
