(* ===== verification/Markdown_Properties.thy ===== *)
theory Markdown_Properties
  imports Audit_Markdown
begin

text \<open>
  The Markdown report: cells stay in their columns, the graph's arrows join the boxes of their
  coordinates, and the text does not depend on the order of its inputs.
\<close>

section \<open>Table cells\<close>

text \<open>How a table row is read: a bar ends a cell unless a backslash is right before it; \<open>esc\<close> tells
  whether one is.\<close>

fun split_cells :: "bool \<Rightarrow> string \<Rightarrow> string \<Rightarrow> string list" where
  "split_cells esc acc [] = [rev acc]"
| "split_cells esc acc (c # s) =
     (if c = CHR ''|'' \<and> \<not> esc then rev acc # split_cells False [] s else split_cells (c = backslash) (c # acc) s)"

definition row_cells :: "string \<Rightarrow> string list" where
  "row_cells row = map (\<lambda>c. butlast (tl c)) (butlast (tl (split_cells False [] (butlast row))))"

text \<open>A piece of text that no bar can cut.\<close>

definition bar_safe :: "string \<Rightarrow> bool" where
  "bar_safe p \<longleftrightarrow> (\<forall>esc acc rest.
     split_cells esc acc (p @ rest) = split_cells (if p = [] then esc else last p = backslash) (rev p @ acc) rest)"

lemma bar_safe_append: "bar_safe a \<Longrightarrow> bar_safe b \<Longrightarrow> bar_safe (a @ b)"
  by (auto simp: bar_safe_def)

lemma bar_safe_char: "c \<noteq> CHR ''|'' \<Longrightarrow> bar_safe [c]"
  by (simp add: bar_safe_def)

lemma bar_safe_plain: "CHR ''|'' \<notin> set s \<Longrightarrow> bar_safe s"
proof (induction s)
  case (Cons c s)
  then show ?case using bar_safe_append [OF bar_safe_char, of c s] by auto
qed (simp add: bar_safe_def)

lemma bar_safe_escaped: "bar_safe [backslash, CHR ''|'']"
  by (simp add: bar_safe_def backslash_def)

text \<open>What the pairs of \<^verbatim>\<open>markdownInlineCode\<close> put in place of a piece of the text.\<close>

lemma inline_pairs_new: "(old, new) \<in> set inline_pairs \<Longrightarrow> new \<in> {'' '', [backslash, CHR ''|''], ''&#96;''}"
  by (auto simp: inline_pairs_def line_breaks_def)

lemma inline_pairs_none:
  "find (\<lambda>(old, new). old \<noteq> [] \<and> has_prefix (c # s) old) inline_pairs = None \<Longrightarrow>
   c \<notin> {CHR ''|'', newline, carriage, backtick}"
  by (auto simp: inline_pairs_def line_breaks_def has_prefix_def split: if_splits)

text \<open>A property of pieces that holds of what is put in and of the characters that stay, and is closed under
  concatenation, holds of the whole.\<close>

lemma replaced_induct:
  assumes "P []" and "\<And>a b. P a \<Longrightarrow> P b \<Longrightarrow> P (a @ b)"
    and "P '' ''" "P [backslash, CHR ''|'']" "P ''&#96;''"
    and "\<And>c. c \<notin> {CHR ''|'', newline, carriage, backtick} \<Longrightarrow> P [c]"
  shows "P (replacer inline_pairs v)"
proof (induction v rule: length_induct)
  case (1 v)
  show ?case
  proof (cases v)
    case (Cons c s)
    show ?thesis
    proof (cases "find (\<lambda>(old, new). old \<noteq> [] \<and> has_prefix (c # s) old) inline_pairs")
      case None
      then have "P [c]" using inline_pairs_none assms(6) by blast
      moreover have "P (replacer inline_pairs s)" using 1 Cons by simp
      ultimately show ?thesis using assms(2) [of "[c]"] None Cons by simp
    next
      case (Some p)
      obtain old new where p: "p = (old, new)" by fastforce
      have in_pairs: "(old, new) \<in> set inline_pairs" "old \<noteq> []" using find_Some_in [OF Some] p by auto
      have "P new" using inline_pairs_new [OF in_pairs(1)] assms(3-5) by auto
      moreover have "length (drop (length old) (c # s)) < length v" using Cons in_pairs by (cases old) auto
      ultimately have "P (new @ replacer inline_pairs (drop (length old) (c # s)))" using 1 by (intro assms(2)) blast+
      then show ?thesis using Some p Cons by simp
    qed
  qed (simp add: assms(1))
qed

lemma inline_code_safe: "bar_safe (markdownInlineCode v)"
proof -
  have "bar_safe (replacer inline_pairs v)"
    by (rule replaced_induct) (auto simp: bar_safe_append bar_safe_plain bar_safe_escaped)
  then show ?thesis unfolding markdownInlineCode_def
    by (intro bar_safe_append) (simp_all add: bar_safe_char backtick_def)
qed

lemma inline_code_one_line: "newline \<notin> set (markdownInlineCode v)"
proof -
  have "newline \<notin> set (replacer inline_pairs v)"
    by (rule replaced_induct) (auto simp: newline_def backslash_def)
  then show ?thesis by (simp add: markdownInlineCode_def newline_def backtick_def)
qed

lemma split_cells_row:
  assumes "\<forall>c\<in>set cells. bar_safe c"
  shows "split_cells False [] (concat (map (\<lambda>c. '' '' @ c @ '' |'') cells)) = map (\<lambda>c. '' '' @ c @ '' '') cells @ [[]]"
  using assms
proof (induction cells)
  case (Cons c cells)
  have safe: "bar_safe ('' '' @ c @ '' '')"
    using Cons.prems by (intro bar_safe_append) (simp_all add: bar_safe_char)
  have "split_cells False [] (('' '' @ c @ '' '') @ CHR ''|'' # concat (map (\<lambda>c. '' '' @ c @ '' |'') cells)) =
      rev (rev ('' '' @ c @ '' '') @ []) # split_cells False [] (concat (map (\<lambda>c. '' '' @ c @ '' |'') cells))"
    using safe [unfolded bar_safe_def, rule_format, of False "[]"] by (simp add: backslash_def)
  with Cons show ?case by simp
qed simp

lemma row_cells_table_row:
  assumes "\<forall>c\<in>set cells. bar_safe c"
  shows "row_cells (table_row cells) = cells"
  using split_cells_row [OF assms]
  by (simp add: row_cells_def table_row_def line_def butlast_append comp_def)

lemma table_row_one_line:
  assumes "\<forall>c\<in>set cells. newline \<notin> set c"
  shows "newline \<notin> set (butlast (table_row cells))"
  using assms by (auto simp: table_row_def line_def newline_def butlast_append)

lemma license_cell_safe: "bar_safe (license_cell l)" "newline \<notin> set (license_cell l)"
  using inline_code_safe inline_code_one_line by (simp_all add: license_cell_def bar_safe_plain newline_def)

text \<open>C35: whatever text the registries gave for names, versions, licences and paths, a row of the report's
  two tables is one line that reads back as exactly its cells: no name can open a new column
  or a new row.\<close>

theorem table_rows_intact:
  "row_cells (package_row p) = [markdownInlineCode (pk_name p), markdownInlineCode (pk_version p),
     license_cell (pk_license p), markdownInlineCode (verdict_text (pk_verdict p))] \<and>
   row_cells (violation_row v) = [markdownInlineCode (violation_coordinate v), license_cell (pk_license (v_package v)),
     if v_path v \<noteq> [] then markdownInlineCode (join path_arrow (v_path v)) else ''Not available''] \<and>
   newline \<notin> set (butlast (package_row p)) \<and> newline \<notin> set (butlast (violation_row v))"
  unfolding package_row_def violation_row_def
  using inline_code_safe inline_code_one_line license_cell_safe
  by (intro conjI row_cells_table_row table_row_one_line) (simp_all add: bar_safe_plain newline_def)

section \<open>Arrows join the boxes of their coordinates\<close>

definition no_nul :: "string \<Rightarrow> bool" where
  "no_nul s \<longleftrightarrow> CHR 0x00 \<notin> set s"

lemma node_key_inj:
  assumes "no_nul n" "no_nul n'" "markdownGraphNodeKey n v = markdownGraphNodeKey n' v'"
  shows "n = n' \<and> v = v'"
  using assms unfolding markdownGraphNodeKey_def no_nul_def
proof (induction n arbitrary: n')
  case Nil
  then show ?case by (cases n') auto
next
  case (Cons c n)
  then show ?case by (cases n') auto
qed

definition node_key :: "node \<Rightarrow> string" where
  "node_key n = markdownGraphNodeKey (fst n) (snd n)"

lemma node_key_eq: "no_nul (fst a) \<Longrightarrow> no_nul (fst b) \<Longrightarrow> node_key a = node_key b \<longleftrightarrow> a = b"
  using node_key_inj [of "fst a" "fst b" "snd a" "snd b"] by (auto simp: node_key_def prod_eq_iff)

definition keyed :: "(string \<times> node) list \<Rightarrow> bool" where
  "keyed m \<longleftrightarrow> distinct (map fst m) \<and> (\<forall>k n. map_of m k = Some n \<longrightarrow> k = node_key n)"

lemma add_node_keyed: "keyed m \<Longrightarrow> keyed (add_node n m)"
  unfolding keyed_def add_node_def node_key_def by (simp add: distinct_update update_conv')

lemma added_keyed: "keyed m \<Longrightarrow> keyed (fold add_node ns m)"
  by (induction ns arbitrary: m) (simp_all add: add_node_keyed)

lemma keyed_values: "keyed m \<Longrightarrow> distinct (map snd m) \<and> (\<forall>n. n \<in> set (map snd m) \<longleftrightarrow> map_of m (node_key n) = Some n)"
proof -
  assume m: "keyed m"
  then have entry: "map_of m k = Some n" "k = node_key n" if "(k, n) \<in> set m" for k n
    using that unfolding keyed_def by (metis map_of_eq_Some_iff)+
  have "inj_on snd (set m)" using entry(2) by (intro inj_onI) (metis prod.collapse)
  with m have "distinct (map snd m)" by (simp add: keyed_def distinct_map)
  moreover have "n \<in> set (map snd m) \<longleftrightarrow> map_of m (node_key n) = Some n" for n
    using entry by (force dest: map_of_SomeD)
  ultimately show ?thesis by blast
qed

lemma added_node:
  assumes "no_nul (fst e)" "\<forall>n\<in>set ns. no_nul (fst n)"
  shows "map_of (fold add_node ns m) (node_key e) = (if e \<in> set ns then Some e else map_of m (node_key e))"
  using assms
proof (induction ns arbitrary: m)
  case (Cons n ns)
  have "map_of (add_node n m) (node_key e) = (if e = n then Some e else map_of m (node_key e))"
    using Cons.prems node_key_eq [of e n] by (auto simp: add_node_def update_conv' node_key_def [symmetric])
  with Cons show ?case by auto
qed simp

lemma added_members:
  assumes "\<forall>n\<in>set ns. no_nul (fst n)"
  shows "set (map snd (fold add_node ns [])) = set ns"
proof -
  have sub: "snd ` set (fold add_node ns m) \<subseteq> set ns \<union> snd ` set m" for m
  proof (induction ns arbitrary: m)
    case (Cons n ns)
    have "snd ` set (add_node n m) \<subseteq> insert n (snd ` set m)" by (induction m) (auto simp: add_node_def)
    with Cons [of "add_node n m"] show ?case by auto
  qed simp
  have "keyed (fold add_node ns [])" by (rule added_keyed) (simp add: keyed_def)
  then have "n \<in> set (map snd (fold add_node ns []))" if "n \<in> set ns" for n
    using that assms added_node [of n ns "[]"] keyed_values by metis
  with sub [of "[]"] show ?thesis by auto
qed

text \<open>Identifiers are positions.\<close>

fun position :: "'a \<Rightarrow> 'a list \<Rightarrow> nat" where
  "position x [] = 0"
| "position x (y # ys) = (if x = y then 0 else Suc (position x ys))"

lemma position_nth: "distinct xs \<Longrightarrow> i < length xs \<Longrightarrow> position (xs ! i) xs = i"
  by (induction xs arbitrary: i) (auto simp: nth_Cons split: nat.split)

lemma position_less: "x \<in> set xs \<Longrightarrow> position x xs < length xs \<and> xs ! position x xs = x"
  by (induction xs) auto

definition add_id :: "nat \<times> node \<Rightarrow> (string \<times> string) list \<Rightarrow> (string \<times> string) list" where
  "add_id p m = AList.update (node_key (snd p)) (node_id (fst p)) m"

lemma ids_other: "node_key n \<notin> node_key ` snd ` set ps \<Longrightarrow> map_of (fold add_id ps m) (node_key n) = map_of m (node_key n)"
  by (induction ps arbitrary: m) (auto simp: add_id_def update_conv')

lemma ids_at:
  assumes "distinct (map (node_key \<circ> snd) ps)" "(i, n) \<in> set ps"
  shows "map_of (fold add_id ps m) (node_key n) = Some (node_id i)"
  using assms
proof (induction ps arbitrary: m)
  case (Cons p ps)
  show ?case
  proof (cases "p = (i, n)")
    case True
    then show ?thesis using Cons.prems ids_other [of n ps "add_id p m"]
      by (simp add: image_image) (simp add: add_id_def update_conv')
  next
    case False
    with Cons show ?thesis by simp
  qed
qed simp

context slice_order
begin

lemma strictly_sorted:
  assumes "sorted_wrt (\<lambda>a b. \<not> lt b a) xs" "distinct xs" "inj_on key (set xs)"
  shows "sorted_wrt lt xs"
  using assms
proof (induction xs)
  case (Cons x xs)
  have "lt x y" if "y \<in> set xs" for y
  proof -
    have "key x \<noteq> key y" using that Cons.prems(2,3) by (auto dest: inj_onD)
    with that Cons.prems(1) show ?thesis using total by auto
  qed
  with Cons show ?case by simp
qed simp

lemma strictly_distinct: "sorted_wrt lt xs \<Longrightarrow> distinct xs"
  using irrefl by (induction xs) auto

text \<open>A strictly sorted list is given by its members.\<close>

lemma members_unique:
  assumes "sorted_wrt lt xs" "sorted_wrt lt ys" "set xs = set ys" "inj_on key (set xs)"
  shows "xs = ys"
proof (rule sorted_unique)
  show "mset xs = mset ys" using assms strictly_distinct by (simp add: set_eq_iff_mset_eq_distinct)
  show "sorted_wrt (\<lambda>a b. \<not> lt b a) xs" "sorted_wrt (\<lambda>a b. \<not> lt b a) ys"
    using assms asym by (auto elim: sorted_wrt_mono_rel [rotated])
qed (rule assms(4))

end

interpretation node_order: slice_order "less2 fst snd :: node \<Rightarrow> node \<Rightarrow> bool" "\<lambda>n. (fst n, snd n)"
  by (rule less2_order)

lemma graph_nodes:
  assumes "\<forall>n\<in>set (graph_endpoints packages edges). no_nul (fst n)" "markdownGraphNodes packages edges = (nodes, ids)"
  shows "sorted_wrt (less2 fst snd) nodes" "set nodes = set (graph_endpoints packages edges)"
    and "n \<in> set nodes \<Longrightarrow> id_of ids (fst n) (snd n) = node_id (position n nodes)"
proof -
  define byKey where "byKey = fold add_node (graph_endpoints packages edges) []"
  have nodes: "nodes = sort_by (less2 fst snd) (map snd byKey)"
    and ids: "ids = fold add_id (zip [0..<length nodes] nodes) []"
    using assms(2) by (auto simp: markdownGraphNodes_def byKey_def add_id_def [abs_def] node_key_def Let_def case_prod_beta')
  have "keyed byKey" unfolding byKey_def by (rule added_keyed) (simp add: keyed_def)
  then have "distinct (map snd byKey)" using keyed_values by blast
  then have distinct: "distinct nodes" using nodes by (metis mset_sort_by mset_eq_imp_distinct_iff)
  show members: "set nodes = set (graph_endpoints packages edges)"
    using added_members [OF assms(1)] nodes by (simp add: byKey_def)
  show "sorted_wrt (less2 fst snd) nodes"
    using node_order.sorted distinct nodes by (intro node_order.strictly_sorted) (auto intro: inj_onI)
  assume n: "n \<in> set nodes"
  have snds: "map snd (zip [0..<length nodes] nodes) = nodes" by simp
  have "inj_on node_key (set nodes)" using assms(1) members node_key_eq by (intro inj_onI) blast
  then have "distinct (map (node_key \<circ> snd) (zip [0..<length nodes] nodes))"
    using distinct snds by (metis distinct_map map_map)
  moreover have "(position n nodes, n) \<in> set (zip [0..<length nodes] nodes)"
    using position_less [OF n] by (force simp: set_zip)
  ultimately have "map_of ids (node_key n) = Some (node_id (position n nodes))" unfolding ids by (rule ids_at)
  then show "id_of ids (fst n) (snd n) = node_id (position n nodes)" by (simp add: id_of_def node_key_def)
qed

lemma edge_endpoints:
  "e \<in> set edges \<Longrightarrow> (FromName e, FromVersion e) \<in> set (graph_endpoints packages edges) \<and>
     (ToName e, ToVersion e) \<in> set (graph_endpoints packages edges)"
  by (force simp: graph_endpoints_def)

text \<open>The dependency graph of the report draws each coordinate that is a package or an end of an edge as
  one box, in the order of the coordinates, and each edge as the arrow between the boxes of its two ends,
  when no package name holds a NUL character (which separates name and version in the map's keys).\<close>

theorem writeMermaidGraph_draws_edges:
  assumes "\<forall>n\<in>set (graph_endpoints packages edges). no_nul (fst n)"
  shows "\<exists>nodes. sorted_wrt (less2 fst snd) nodes \<and> set nodes = set (graph_endpoints packages edges) \<and>
    writeMermaidGraph packages edges useELK =
      line (fence @ ''mermaid'') @ (if useELK then elk_config else []) @ line ''flowchart TB'' @
      concat (map (\<lambda>i. node_line (node_id i) (packageCoordinate (fst (nodes ! i)) (snd (nodes ! i)))) [0..<length nodes]) @
      concat (map (\<lambda>e. arrow_line (node_id (position (FromName e, FromVersion e) nodes))
        (node_id (position (ToName e, ToVersion e) nodes))) edges) @
      line fence @ line []"
proof -
  obtain nodes ids where graph: "markdownGraphNodes packages edges = (nodes, ids)" by fastforce
  note facts = graph_nodes [OF assms graph]
  have "map (\<lambda>n. node_line (id_of ids (fst n) (snd n)) (packageCoordinate (fst n) (snd n))) nodes =
      map (\<lambda>i. node_line (node_id i) (packageCoordinate (fst (nodes ! i)) (snd (nodes ! i)))) [0..<length nodes]"
  proof (rule nth_equalityI)
    fix i assume "i < length (map (\<lambda>n. node_line (id_of ids (fst n) (snd n)) (packageCoordinate (fst n) (snd n))) nodes)"
    then have "i < length nodes" by simp
    moreover from this have "id_of ids (fst (nodes ! i)) (snd (nodes ! i)) = node_id i"
      using facts(3) [OF nth_mem] position_nth node_order.strictly_distinct [OF facts(1)] by metis
    ultimately show "map (\<lambda>n. node_line (id_of ids (fst n) (snd n)) (packageCoordinate (fst n) (snd n))) nodes ! i =
      map (\<lambda>i. node_line (node_id i) (packageCoordinate (fst (nodes ! i)) (snd (nodes ! i)))) [0..<length nodes] ! i"
      by simp
  qed simp
  moreover have "map (\<lambda>e. arrow_line (id_of ids (FromName e) (FromVersion e)) (id_of ids (ToName e) (ToVersion e))) edges =
      map (\<lambda>e. arrow_line (node_id (position (FromName e, FromVersion e) nodes))
        (node_id (position (ToName e, ToVersion e) nodes))) edges"
  proof (intro map_cong refl)
    fix e assume "e \<in> set edges"
    then have "(FromName e, FromVersion e) \<in> set nodes" "(ToName e, ToVersion e) \<in> set nodes"
      using edge_endpoints [of e edges packages] facts(2) by auto
    then show "arrow_line (id_of ids (FromName e) (FromVersion e)) (id_of ids (ToName e) (ToVersion e)) =
        arrow_line (node_id (position (FromName e, FromVersion e) nodes)) (node_id (position (ToName e, ToVersion e) nodes))"
      using facts(3) by fastforce
  qed
  ultimately show ?thesis using facts(1,2) by (intro exI [of _ nodes]) (simp only: writeMermaidGraph_def graph prod.case Let_def simp_thms)
qed

definition demo_edge :: dependency_edge where
  "demo_edge = \<lparr>FromName = ''web'', FromVersion = [], ToName = ''left-pad'', ToVersion = ''1.3.0''\<rparr>"

definition demo_package :: package where
  "demo_package = \<lparr>pk_name = ''left-pad'', pk_version = ''1.3.0'', pk_license = ''WTFPL'', pk_verdict = VerdictPolicyViolation\<rparr>"

lemma demo_no_nul: "\<forall>n\<in>set (graph_endpoints [demo_package] [demo_edge]). no_nul (fst n)"
  by (simp add: graph_endpoints_def demo_package_def demo_edge_def no_nul_def)

theorem writeMermaidGraph_draws_edges_witness:
  "\<exists>nodes. sorted_wrt (less2 fst snd) nodes \<and> set nodes = set (graph_endpoints [demo_package] [demo_edge]) \<and>
    writeMermaidGraph [demo_package] [demo_edge] True =
      line (fence @ ''mermaid'') @ (if True then elk_config else []) @ line ''flowchart TB'' @
      concat (map (\<lambda>i. node_line (node_id i) (packageCoordinate (fst (nodes ! i)) (snd (nodes ! i)))) [0..<length nodes]) @
      concat (map (\<lambda>e. arrow_line (node_id (position (FromName e, FromVersion e) nodes))
        (node_id (position (ToName e, ToVersion e) nodes))) [demo_edge]) @
      line fence @ line []"
  by (rule writeMermaidGraph_draws_edges [OF demo_no_nul])

section \<open>The text is a function of the audit's data\<close>

definition edge_key :: "dependency_edge \<Rightarrow> dependency_edge" where
  "edge_key e = e"

interpretation edge_order: slice_order dependencyEdgeLess edge_key
proof
  fix x y z :: dependency_edge
  show "dependencyEdgeLess x y \<Longrightarrow> dependencyEdgeLess y z \<Longrightarrow> dependencyEdgeLess x z"
    unfolding dependencyEdgeLess_def by (auto split: if_splits)
  show "dependencyEdgeLess x y \<or> dependencyEdgeLess y x \<or> edge_key x = edge_key y"
    unfolding dependencyEdgeLess_def edge_key_def
    by (cases x; cases y) (auto split: if_splits)
qed (auto simp: dependencyEdgeLess_def edge_key_def)

lemma dedup_loop_sorted:
  assumes "sorted_wrt dependencyEdgeLess (rev acc)" "sorted_wrt (\<lambda>a b. \<not> dependencyEdgeLess b a) es"
    and "\<And>a e. a \<in> set acc \<Longrightarrow> e \<in> set es \<Longrightarrow> \<not> dependencyEdgeLess e a"
  shows "sorted_wrt dependencyEdgeLess (dedup_loop acc es) \<and> set (dedup_loop acc es) = set acc \<union> set es"
  using assms
proof (induction es arbitrary: acc)
  case (Cons e es)
  show ?case
  proof (cases "acc = [] \<or> hd acc \<noteq> e")
    case True
    have "dependencyEdgeLess a e" if "a \<in> set acc" for a
    proof -
      have "a = hd acc \<or> dependencyEdgeLess a (hd acc)" using that Cons.prems(1) by (cases acc) (auto simp: sorted_wrt_append)
      moreover have "dependencyEdgeLess (hd acc) e"
        using that True Cons.prems(3) [of "hd acc" e] edge_order.total [of "hd acc" e] by (cases acc) (auto simp: edge_key_def)
      ultimately show ?thesis using edge_order.trans by blast
    qed
    then have "sorted_wrt dependencyEdgeLess (rev (e # acc))" using Cons.prems(1) by (simp add: sorted_wrt_append)
    moreover have "\<not> dependencyEdgeLess f a" if "a \<in> set (e # acc)" "f \<in> set es" for a f
      using that Cons.prems(2,3) by auto
    ultimately show ?thesis using Cons.IH [of "e # acc"] Cons.prems(2) True by auto
  next
    case False
    then have "e \<in> set acc" by (cases acc) auto
    with False Cons.IH [of acc] Cons.prems show ?thesis by auto
  qed
qed simp

lemma deduplicated:
  assumes "sorted_wrt (\<lambda>a b. \<not> dependencyEdgeLess b a) es"
  shows "sorted_wrt dependencyEdgeLess (deduplicateDependencyEdges es) \<and> set (deduplicateDependencyEdges es) = set es"
proof (cases "length es < 2")
  case True
  then show ?thesis by (cases es) (auto simp: deduplicateDependencyEdges_def)
next
  case False
  then show ?thesis using dedup_loop_sorted [of "[]" es] assms by (simp add: deduplicateDependencyEdges_def)
qed

lemma edges_unique:
  assumes "set es = set fs"
  shows "deduplicateDependencyEdges (sort_by dependencyEdgeLess es) = deduplicateDependencyEdges (sort_by dependencyEdgeLess fs)"
  using deduplicated [OF edge_order.sorted, of es] deduplicated [OF edge_order.sorted, of fs] assms
  by (intro edge_order.members_unique) (auto intro: inj_onI simp: edge_key_def)

definition violation_key :: "package_violation \<Rightarrow> string \<times> string \<times> string" where
  "violation_key v = (pk_name (v_package v), pk_version (v_package v), join [CHR 0x00] (v_path v))"

interpretation violation_order: slice_order violation_less violation_key
  by unfold_locales (auto simp: violation_less_def violation_key_def split: if_splits)

interpretation package_order: slice_order "less2 pk_name pk_version" "\<lambda>p. (pk_name p, pk_version p)"
  by (rule less2_order)

text \<open>Two inputs with the same data, each given in some order: edges possibly repeated.\<close>

definition same_audit :: "markdown_input \<Rightarrow> markdown_input \<Rightarrow> bool" where
  "same_audit a b \<longleftrightarrow>
     mi_Root a = mi_Root b \<and> mset (mi_Packages a) = mset (mi_Packages b) \<and> set (mi_Edges a) = set (mi_Edges b) \<and>
     distinct (map fst (mi_Metadata a)) \<and> distinct (map fst (mi_Metadata b)) \<and>
     set (mi_Metadata a) = set (mi_Metadata b) \<and>
     (case (mi_Report a, mi_Report b) of
        (None, None) \<Rightarrow> True
      | (Some r, Some s) \<Rightarrow> TotalPackages r = TotalPackages s \<and> mset (PolicyViolations r) = mset (PolicyViolations s)
      | _ \<Rightarrow> False)"

lemma metadata_unique:
  fixes m n :: "(string \<times> string) list"
  assumes "distinct (map fst m)" "distinct (map fst n)" "set m = set n"
  shows "sort_by (<) (map fst m) = sort_by (<) (map fst n)" "map_of m = map_of n"
proof -
  show "map_of m = map_of n" using map_of_inject_set [OF assms(1,2)] assms(3) by blast
  have "mset (map fst m) = mset (map fst n)"
    using assms by (metis distinct_map mset_set_set set_map)
  then show "sort_by (<) (map fst m) = sort_by (<) (map fst n)" by (intro string_order.sort_by_unique) (auto intro: inj_onI)
qed

text \<open>The Markdown report is deterministic, as its comment promises: the text does not depend on the
  order in which packages, edges, violations and metadata are given, nor on repeated edges, when the packages
  have distinct coordinates and the violations distinct sort keys.\<close>

theorem GenerateMarkdownReport_deterministic:
  assumes "same_audit a b"
    and "inj_on (\<lambda>p. (pk_name p, pk_version p)) (set (mi_Packages a))"
    and "\<And>r. mi_Report a = Some r \<Longrightarrow> inj_on violation_key (set (PolicyViolations r))"
  shows "GenerateMarkdownReport a = GenerateMarkdownReport b"
proof (cases "mi_Report a")
  case None
  with assms(1) have "mi_Report b = None" by (auto simp: same_audit_def split: option.splits)
  with None show ?thesis by (simp add: GenerateMarkdownReport_def)
next
  case (Some r)
  with assms(1) obtain s where s: "mi_Report b = Some s"
    and reports: "TotalPackages r = TotalPackages s" "mset (PolicyViolations r) = mset (PolicyViolations s)"
    by (auto simp: same_audit_def split: option.splits)
  have "sort_by (less2 pk_name pk_version) (mi_Packages a) = sort_by (less2 pk_name pk_version) (mi_Packages b)"
    using assms(1,2) by (intro package_order.sort_by_unique) (simp_all add: same_audit_def)
  moreover have "sort_by violation_less (PolicyViolations r) = sort_by violation_less (PolicyViolations s)"
    using reports(2) assms(3) [OF Some] by (rule violation_order.sort_by_unique)
  moreover have "deduplicateDependencyEdges (sort_by dependencyEdgeLess (mi_Edges a)) =
      deduplicateDependencyEdges (sort_by dependencyEdgeLess (mi_Edges b))"
    using assms(1) by (intro edges_unique) (simp add: same_audit_def)
  moreover have "sort_by (<) (map fst (mi_Metadata a)) = sort_by (<) (map fst (mi_Metadata b))"
    "map_of (mi_Metadata a) = map_of (mi_Metadata b)"
    using assms(1) metadata_unique by (simp_all add: same_audit_def)
  moreover have "mi_Root a = mi_Root b" using assms(1) by (simp add: same_audit_def)
  ultimately show ?thesis by (simp only: GenerateMarkdownReport_def Some s option.case reports(1))
qed

definition demo_other :: package where
  "demo_other = \<lparr>pk_name = ''react'', pk_version = ''18.2.0'', pk_license = ''MIT'', pk_verdict = VerdictPass\<rparr>"

definition demo_violation :: package_violation where
  "demo_violation = \<lparr>v_package = demo_package, v_path = [''web'', ''left-pad@1.3.0'']\<rparr>"

definition demo_report :: report where
  "demo_report = \<lparr>TotalPackages = 2, PolicyViolations = [demo_violation], DependencyPaths = [], Summary = []\<rparr>"

definition demo_input :: "package list \<Rightarrow> dependency_edge list \<Rightarrow> (string \<times> string) list \<Rightarrow> markdown_input" where
  "demo_input packages edges metadata = \<lparr>mi_Root = ''web'', mi_Packages = packages, mi_Edges = edges,
     mi_Report = Some demo_report, mi_Metadata = metadata\<rparr>"

theorem GenerateMarkdownReport_deterministic_witness:
  "GenerateMarkdownReport (demo_input [demo_package, demo_other] [demo_edge] [(''Source'', ''npm''), (''Mode'', ''strict'')]) =
   GenerateMarkdownReport (demo_input [demo_other, demo_package] [demo_edge, demo_edge] [(''Mode'', ''strict''), (''Source'', ''npm'')])"
  by (rule GenerateMarkdownReport_deterministic)
    (auto simp: same_audit_def demo_input_def demo_report_def demo_package_def demo_other_def)

end
