(* ===== verification/Progress.thy ===== *)
theory Progress
  imports Main
begin

text \<open>
  Progress of a system of events: every event leaves the state as it is or decreases a rank, and
  some event has an effect until the goal is reached. Then a run has at most as many events with
  an effect as the rank says, every state can be continued to the goal, and a state in which
  nothing has an effect any more is at the goal.
\<close>

fun effects :: "('e \<Rightarrow> 's \<Rightarrow> 's) \<Rightarrow> 'e list \<Rightarrow> 's \<Rightarrow> nat" where
  "effects step [] s = 0"
| "effects step (e # es) s = (if step e s = s then 0 else 1) + effects step es (step e s)"

locale progress_system =
  fixes ok :: "'s \<Rightarrow> bool" and allowed :: "'e \<Rightarrow> bool" and step :: "'e \<Rightarrow> 's \<Rightarrow> 's"
    and rank :: "'s \<Rightarrow> nat" and goal :: "'s \<Rightarrow> bool"
  assumes ok_step: "ok s \<Longrightarrow> allowed e \<Longrightarrow> ok (step e s)"
    and rank_step: "ok s \<Longrightarrow> allowed e \<Longrightarrow> step e s = s \<or> rank (step e s) < rank s"
    and moves_on: "ok s \<Longrightarrow> \<not> goal s \<Longrightarrow> \<exists>e. allowed e \<and> step e s \<noteq> s"
begin

lemma ok_run: "ok s \<Longrightarrow> list_all allowed es \<Longrightarrow> ok (fold step es s)"
  by (induction es arbitrary: s) (simp_all add: ok_step)

lemma effects_bounded: "ok s \<Longrightarrow> list_all allowed es \<Longrightarrow> effects step es s + rank (fold step es s) \<le> rank s"
proof (induction es arbitrary: s)
  case (Cons e es)
  then have "effects step es (step e s) + rank (fold step es (step e s)) \<le> rank (step e s)" by (simp add: ok_step)
  then show ?case using rank_step [of s e] Cons.prems by auto
qed simp

lemma at_rest: "ok s \<Longrightarrow> (\<And>e. allowed e \<Longrightarrow> step e s = s) \<Longrightarrow> goal s"
  using moves_on by blast

lemma reaches_goal: "ok s \<Longrightarrow> \<exists>es. list_all allowed es \<and> goal (fold step es s)"
proof (induction "rank s" arbitrary: s rule: less_induct)
  case less
  show ?case
  proof (cases "goal s")
    case True
    then show ?thesis by (intro exI [of _ "[]"]) simp
  next
    case False
    then obtain e where e: "allowed e" "step e s \<noteq> s" using moves_on less.prems by blast
    then have "rank (step e s) < rank s" using rank_step less.prems by blast
    from less.hyps [OF this ok_step [OF less.prems e(1)]] obtain es
      where "list_all allowed es" "goal (fold step es (step e s))" by blast
    then show ?thesis using e(1) by (intro exI [of _ "e # es"]) simp
  qed
qed

end

end
