(* ===== verification/Gomod_Rounds.thy ===== *)
theory Gomod_Rounds
  imports Gomod_Client Worker_Pool
begin

text \<open>
  \<^verbatim>\<open>runChunk\<close> of \<^verbatim>\<open>src/internal/gomod/queue.go\<close> on the model of the worker pool: it submits the chunk,
  starts the pool, waits for \<^verbatim>\<open>Done\<close> or the context and shuts the pool down. The events of the run
  are those of the pool, in any order; at each return of the handler the event says what the
  client answered, so retries may see other answers. \<open>runChunk\<close> of \<open>Gomod_Client\<close>, which runs the
  handler along a schedule, is the specification that the pool refines. The options that tests pass
  to the pool (\<^verbatim>\<open>poolOptions\<close>) only change the backoff, which the events choose.
\<close>

section \<open>The chunk on the pool\<close>

fun module_error_text :: "module_error \<Rightarrow> string" where
  "module_error_text (Proxy e) = proxy_error_text e"
| "module_error_text (Other e) = error_text e"
| "module_error_text (WrappedModule s e) = s @ '': '' @ module_error_text e"

definition goWorkerPoolSize :: nat where
  "goWorkerPoolSize = 10"

definition chunk_job :: "(metadata_payload \<Rightarrow> string) \<Rightarrow> int \<Rightarrow> (coordinate \<Rightarrow> string) \<Rightarrow> coordinate \<Rightarrow> job" where
  "chunk_job encode round ids x = NewJob (ids x) goMetadataJobType (encode (round_payload round x))"

definition chunk_pool :: "gotime \<Rightarrow> db option \<Rightarrow> dlq_entry list \<Rightarrow> pool" where
  "chunk_pool now store deadLetters =
     (let (q, st) = New now goQueueBufferSize store
      in (NewWithOptions goWorkerPoolSize q st True)\<lparr>pl_dlq := Some deadLetters\<rparr>)"

text \<open>The loop of submissions, with the pool at the one that failed. Encoding a payload cannot fail. Each one waits for its send; \<open>None\<close> says that the channel is full and
  nobody receives, since the pool is not started.\<close>

fun submit_chunk ::
    "externals \<Rightarrow> gotime \<Rightarrow> (coordinate \<Rightarrow> job) \<Rightarrow> coordinate list \<Rightarrow> pool \<Rightarrow> (coordinate \<times> pool_error \<times> pool + pool) option" where
  "submit_chunk ext now mk [] p = Some (Inr p)"
| "submit_chunk ext now mk (x # xs) p =
     (if pl_stopping p then Some (Inl (x, ErrShuttingDown, p))
      else case queue_prepare ext now (mk x) (pl_queue p) (pl_store p) of
        (Inl ErrClosed, _) \<Rightarrow> Some (Inl (x, ErrShuttingDown, p))
      | (Inl err, _) \<Rightarrow> Some (Inl (x, SubmitFailed err, p))
      | (Inr _, _) \<Rightarrow>
          (let n = length (pl_senders p);
               p' = sender_step n (pool_submit ext now (mk x) p)
           in if length (pl_senders p') \<noteq> n then None else submit_chunk ext now mk xs p'))"

datatype chunk_event =
    Answer nat gotime duration "string \<Rightarrow> string \<Rightarrow> module_error + metadata"
  | Turn pool_event

text \<open>Turns of the pool other than a return of the handler; nobody else submits to this pool.\<close>

fun pool_turn :: "pool_event \<Rightarrow> bool" where
  "pool_turn (PoolSubmit _ _) = False"
| "pool_turn (WorkerStep _ (Handled _ _ _)) = False"
| "pool_turn _ = True"

definition handled_job :: "nat \<Rightarrow> pool \<Rightarrow> job option" where
  "handled_job i p =
     (if i < length (pl_workers p) then (case pl_workers p ! i of WHandling j \<Rightarrow> Some j | _ \<Rightarrow> None) else None)"

fun handler_outcome :: "module_error option \<Rightarrow> string + job list" where
  "handler_outcome None = Inr []"
| "handler_outcome (Some e) = Inl (module_error_text e)"

fun chunk_step ::
    "module_env \<Rightarrow> (string \<Rightarrow> go_error + metadata_payload) \<Rightarrow> int \<Rightarrow> externals \<Rightarrow> chunk_event
     \<Rightarrow> pool \<times> collector \<Rightarrow> pool \<times> collector" where
  "chunk_step env decode round ext (Answer i now delay client) (p, cl) =
     (case handled_job i p of
        None \<Rightarrow> (p, cl)
      | Some j \<Rightarrow>
          (let (err, cl') = metadata_handle env decode client round j cl
           in (worker_step ext i (Handled now delay (handler_outcome err)) p, cl')))"
| "chunk_step env decode round ext (Turn e) (p, cl) =
     (if pool_turn e then pool_step ext e p else p, cl)"

definition chunk_run where
  "chunk_run env decode round ext es s = fold (chunk_step env decode round ext) es s"

record chunk_trace =
  ct_now :: gotime
  ct_ids :: "coordinate \<Rightarrow> string"
  ct_work :: "chunk_event list"
  ct_cancelled :: "go_error option"
  ct_drain :: "chunk_event list"
  ct_timeout :: "go_error option"
  ct_sql :: string

text \<open>The errors of \<^verbatim>\<open>Submit\<close> for job \<open>i\<close>; \<open>sql\<close> is what the database says.\<close>

fun queue_error_value :: "string \<Rightarrow> string \<Rightarrow> queue_error \<Rightarrow> go_error" where
  "queue_error_value sql i ErrClosed = PlainError ''queue is closed''"
| "queue_error_value sql i ErrNoStore = PlainError ''queue has no durable store''"
| "queue_error_value sql i (QueueStore err) =
     Wrapped (''queue: create job '' @ i) (Wrapped (''create job '' @ quote i)
       (PlainError (case err of ErrJobExists \<Rightarrow> ''job already exists'' | _ \<Rightarrow> sql)))"

fun pool_error_value :: "string \<Rightarrow> string \<Rightarrow> pool_error \<Rightarrow> go_error" where
  "pool_error_value sql i ErrShuttingDown = PlainError ''worker pool is shutting down''"
| "pool_error_value sql i (SubmitFailed err) = queue_error_value sql i err"

definition workers_gone :: "pool \<Rightarrow> bool" where
  "workers_gone p \<longleftrightarrow> q_closed (pl_queue p) \<and> list_all (\<lambda>w. w = WExited) (pl_workers p)"

text \<open>\<^verbatim>\<open>None\<close>: with these events the call has not returned yet. Otherwise its error, the pool it leaves
  and the collector.\<close>

definition run_on_pool ::
    "module_env \<Rightarrow> (metadata_payload \<Rightarrow> string) \<Rightarrow> (string \<Rightarrow> go_error + metadata_payload) \<Rightarrow> int \<Rightarrow> externals
     \<Rightarrow> db option \<Rightarrow> dlq_entry list \<Rightarrow> chunk_trace \<Rightarrow> coordinate list \<Rightarrow> collector
     \<Rightarrow> (module_error option \<times> pool \<times> collector) option" where
  "run_on_pool env encode decode round ext store deadLetters tr coordinates cl =
     (let p0 = chunk_pool (ct_now tr) store deadLetters
      in case submit_chunk ext (ct_now tr) (chunk_job encode round (ct_ids tr)) coordinates p0 of
        None \<Rightarrow> None
      | Some (Inl (x, err, p)) \<Rightarrow>
          Some (Some (WrappedModule (''submit '' @ coordinate_text x @ '' job'') (Other (pool_error_value (ct_sql tr) (ct_ids tr x) err))),
                p\<lparr>pl_queue := Close (pl_queue p)\<rparr>, cl)
      | Some (Inr p) \<Rightarrow>
          (let (p1, cl1) = chunk_run env decode round ext (ct_work tr) (Start p, cl)
           in if ct_cancelled tr = None \<and> \<not> pl_done p1 then None
              else
                let (p2, cl2) = chunk_run env decode round ext (ct_drain tr) (Shutdown_begin p1, cl1)
                in if ct_timeout tr = None \<and> \<not> workers_gone p2 then None
                   else Some (case ct_cancelled tr of
                            Some e \<Rightarrow> Some (Other e)
                          | None \<Rightarrow> map_option (\<lambda>e. WrappedModule ''shutdown'' (Other e)) (ct_timeout tr),
                          p2, cl2)))"

end
