(* ===== verification/Round_Properties.thy ===== *)
theory Round_Properties
  imports Gomod_Rounds Pool_Properties
begin

text \<open>
  What a chunk of module metadata is worth when \<^verbatim>\<open>runChunk\<close> returns: every coordinate is found or
  dead-lettered, in every interleaving; the collector is the one of some schedule of the handler.
  With a store that has rows to reload, a full chunk is never submitted.
\<close>

section \<open>Submitting the chunk\<close>

text \<open>Without a store the whole chunk fits into the channel.\<close>

lemma submit_in_memory:
  assumes "pl_store p = None" "\<not> pl_stopping p" "\<not> q_closed (pl_queue p)" "pl_senders p = []"
    and "length (q_ch (pl_queue p)) + length xs \<le> q_cap (pl_queue p)"
  shows "submit_chunk ext now mk xs p = Some (Inr (p\<lparr>pl_counted := fold (\<lambda>x. List.insert (ID (mk x))) xs (pl_counted p),
    pl_inFlight := pl_inFlight p + int (length xs),
    pl_queue := (pl_queue p)\<lparr>q_ch := q_ch (pl_queue p) @ map (\<lambda>x. Item (mk x)) xs\<rparr>\<rparr>))"
  using assms
proof (induction xs arbitrary: p)
  case (Cons x xs)
  then show ?case
    by (simp add: pool_submit_def queue_prepare_def count_job_def sender_step_def channel_send_def Let_def)
qed simp

definition started_chunk :: "gotime \<Rightarrow> dlq_entry list \<Rightarrow> job list \<Rightarrow> pool" where
  "started_chunk now deadLetters js =
     Start ((chunk_pool now None deadLetters)\<lparr>pl_counted := fold (\<lambda>j. List.insert (ID j)) js [],
       pl_inFlight := int (length js), pl_queue := \<lparr>q_ch = map Item js, q_cap = goQueueBufferSize, q_closed = False\<rparr>\<rparr>)"

lemma submitted_chunk:
  assumes "length xs \<le> goQueueBufferSize"
  shows "\<exists>p. submit_chunk ext now mk xs (chunk_pool now None es) = Some (Inr p) \<and> Start p = started_chunk now es (map mk xs)"
  using assms by (simp add: submit_in_memory chunk_pool_def New_def NewWithOptions_def Len_def started_chunk_def fold_map comp_def)

lemmas started_chunk_simps = started_chunk_def Start_def chunk_pool_def New_def NewWithOptions_def Len_def

lemma started_chunk_balanced:
  assumes "js \<noteq> []"
  shows "balanced (started_chunk now es js) \<and> noticed (started_chunk now es js) \<and> pl_started (started_chunk now es js)"
proof -
  have z: "workers_weight (replicate n WIdle) = 0" for n by (auto simp: workers_weight_zero)
  show ?thesis using assms by (simp add: started_chunk_simps balanced_def noticed_def work_left_def z)
qed

section \<open>A run is a run of the pool\<close>

lemma chunk_step_pool:
  "\<exists>es. list_all no_submit es \<and> fst (chunk_step env decode round ext e s) = pool_run ext es (fst s)"
proof (cases s)
  case (Pair p cl)
  show ?thesis
  proof (cases e)
    case (Turn t)
    have "list_all no_submit (if pool_turn t then [t] else [])" by (cases t) (simp_all add: no_submit_def)
    then show ?thesis using Pair Turn by (intro exI [of _ "if pool_turn t then [t] else []"]) (simp add: pool_run_def)
  next
    case (Answer i now delay client)
    show ?thesis
    proof (cases "handled_job i p")
      case None
      then show ?thesis using Pair Answer by (intro exI [of _ "[]"]) (simp add: pool_run_def)
    next
      case (Some j)
      obtain err cl' where "metadata_handle env decode client round j cl = (err, cl')" by fastforce
      then show ?thesis using Pair Answer Some
        by (intro exI [of _ "[WorkerStep i (Handled now delay (handler_outcome err))]"]) (simp add: pool_run_def no_submit_def)
    qed
  qed
qed

lemma chunk_run_pool:
  "\<exists>ts. list_all no_submit ts \<and> fst (chunk_run env decode round ext es s) = pool_run ext ts (fst s)"
proof (induction es arbitrary: s)
  case Nil
  show ?case by (intro exI [of _ "[]"]) (simp add: chunk_run_def pool_run_def)
next
  case (Cons e es)
  obtain ts where ts: "list_all no_submit ts" "fst (chunk_step env decode round ext e s) = pool_run ext ts (fst s)"
    using chunk_step_pool by blast
  from Cons obtain us where us: "list_all no_submit us"
    "fst (chunk_run env decode round ext es (chunk_step env decode round ext e s)) =
     pool_run ext us (fst (chunk_step env decode round ext e s))" by blast
  have "fst (chunk_run env decode round ext (e # es) s) = pool_run ext (ts @ us) (fst s)"
    using ts(2) us(2) by (simp add: chunk_run_def pool_run_def)
  then show ?case using ts(1) us(1) by (intro exI [of _ "ts @ us"]) simp
qed

section \<open>Where the jobs of a chunk are\<close>

text \<open>What the handler reads of a job is its type and its payload.\<close>

type_synonym task = "string \<times> string"

definition task :: "job \<Rightarrow> task" where
  "task j = (Type j, Payload j)"

fun worker_tasks :: "worker_state \<Rightarrow> task set" where
  "worker_tasks (WHandling j) = {task j}"
| "worker_tasks (WSleeping j) = {task j}"
| "worker_tasks (WSendRetry j _) = {task j}"
| "worker_tasks _ = {}"

fun item_tasks :: "queued \<Rightarrow> task set" where
  "item_tasks (Item j) = {task j}"
| "item_tasks Signal = {}"

definition tasks :: "pool \<Rightarrow> task set" where
  "tasks p = \<Union> (item_tasks ` set (q_ch (pl_queue p))) \<union> \<Union> (worker_tasks ` set (pl_workers p)) \<union> task ` set (pl_lost p)"

definition dead_tasks :: "pool \<Rightarrow> task set" where
  "dead_tasks p = (\<lambda>e. task (de_Job e)) ` set (case pl_dlq p of Some es \<Rightarrow> es | None \<Rightarrow> [])"

text \<open>Only jobs of the chunk are in the pool, none of them with children.\<close>

fun of_chunk :: "task set \<Rightarrow> worker_state \<Rightarrow> bool" where
  "of_chunk T (WSendRetry j x) = (task j \<in> T \<and> x = Item j)"
| "of_chunk T (WSendChild _ _ _ _) = False"
| "of_chunk T (WSpawning _ js) = (js = [])"
| "of_chunk T w = (worker_tasks w \<subseteq> T)"

definition chunk_pool_ok :: "task set \<Rightarrow> pool \<Rightarrow> bool" where
  "chunk_pool_ok T p \<longleftrightarrow> pl_store p = None \<and> pl_poller p = PNone \<and> pl_senders p = [] \<and> pl_dlq p \<noteq> None \<and> pl_started p \<and>
     (\<forall>x\<in>set (q_ch (pl_queue p)). \<exists>j. x = Item j \<and> task j \<in> T) \<and> (\<forall>w\<in>set (pl_workers p). of_chunk T w)"

lemma list_update_keeps: "x \<in> set ws \<Longrightarrow> x \<in> set (ws[i := w]) \<or> (i < length ws \<and> x = ws ! i)"
  by (metis in_set_conv_nth length_list_update nth_list_update_neq)

text \<open>A move of worker \<open>i\<close> keeps every task it does not give away.\<close>

lemma tasks_move:
  assumes "i < length (pl_workers p)" "pl_workers p' = (pl_workers p)[i := w]"
    and "worker_tasks (pl_workers p ! i) \<union> \<Union> (item_tasks ` set (q_ch (pl_queue p))) \<union> task ` set (pl_lost p) \<subseteq>
      X \<union> worker_tasks w \<union> \<Union> (item_tasks ` set (q_ch (pl_queue p'))) \<union> task ` set (pl_lost p')"
  shows "tasks p \<subseteq> X \<union> tasks p'"
proof -
  have "w \<in> set (pl_workers p')" using assms(1,2) by (simp add: set_update_memI)
  then have w: "worker_tasks w \<subseteq> tasks p'" unfolding tasks_def by (meson UN_upper le_supI1 le_supI2)
  have q: "\<Union> (item_tasks ` set (q_ch (pl_queue p'))) \<subseteq> tasks p'" "task ` set (pl_lost p') \<subseteq> tasks p'"
    unfolding tasks_def by (simp_all only: Un_upper1 Un_upper2 le_supI1)
  have rest: "worker_tasks (pl_workers p ! i) \<union> \<Union> (item_tasks ` set (q_ch (pl_queue p))) \<union> task ` set (pl_lost p) \<subseteq> X \<union> tasks p'"
    by (rule order_trans [OF assms(3)]) (use w q in \<open>simp add: le_supI2\<close>)
  have "worker_tasks v \<subseteq> X \<union> tasks p'" if "v \<in> set (pl_workers p)" for v
  proof -
    from list_update_keeps [OF that, of i w] show ?thesis
    proof
      assume "v \<in> set ((pl_workers p)[i := w])"
      then have "worker_tasks v \<subseteq> tasks p'"
        unfolding tasks_def assms(2) [symmetric] by (meson UN_upper le_supI1 le_supI2)
      then show ?thesis by blast
    next
      assume "i < length (pl_workers p) \<and> v = pl_workers p ! i"
      then show ?thesis using rest by blast
    qed
  qed
  then have "\<Union> (worker_tasks ` set (pl_workers p)) \<subseteq> X \<union> tasks p'" by blast
  then show ?thesis using rest unfolding tasks_def [of p] by simp
qed

lemma of_chunk_move:
  assumes "chunk_pool_ok T p" "of_chunk T w" "pl_workers p' = (pl_workers p)[i := w]"
    and "pl_store p' = None" "pl_poller p' = PNone" "pl_senders p' = []" "pl_dlq p' \<noteq> None" "pl_started p'"
    and "\<forall>x\<in>set (q_ch (pl_queue p')). \<exists>j. x = Item j \<and> task j \<in> T"
  shows "chunk_pool_ok T p'"
proof -
  have "\<forall>v\<in>set (pl_workers p'). of_chunk T v"
    using assms(1,2) set_update_subset_insert [of "pl_workers p" i w] unfolding assms(3) chunk_pool_ok_def by blast
  with assms(4-9) show ?thesis unfolding chunk_pool_ok_def by blast
qed

lemma no_store_update: "pl_store p = None \<Longrightarrow> p\<lparr>pl_store := None\<rparr> = p"
  by (cases p) simp

text \<open>The turns of the pool carry the tasks along and leave the dead letters alone.\<close>

definition carries :: "task set \<Rightarrow> pool \<Rightarrow> pool \<Rightarrow> bool" where
  "carries T p p' \<longleftrightarrow> chunk_pool_ok T p' \<and> tasks p \<subseteq> tasks p' \<and> pl_dlq p' = pl_dlq p"

lemma carries_refl: "chunk_pool_ok T p \<Longrightarrow> carries T p p"
  by (simp add: carries_def)

lemma carries_move:
  assumes "chunk_pool_ok T p" "i < length (pl_workers p)" "pl_workers p' = (pl_workers p)[i := w]" "of_chunk T w"
    and "pl_store p' = None" "pl_poller p' = PNone" "pl_senders p' = []" "pl_dlq p' = pl_dlq p" "pl_started p'"
    and "\<forall>x\<in>set (q_ch (pl_queue p')). \<exists>j. x = Item j \<and> task j \<in> T"
    and "worker_tasks (pl_workers p ! i) \<union> \<Union> (item_tasks ` set (q_ch (pl_queue p))) \<union> task ` set (pl_lost p) \<subseteq>
      worker_tasks w \<union> \<Union> (item_tasks ` set (q_ch (pl_queue p'))) \<union> task ` set (pl_lost p')"
  shows "carries T p p'"
proof -
  have "pl_dlq p' \<noteq> None" using assms(1,8) by (simp add: chunk_pool_ok_def)
  with of_chunk_move [OF assms(1,4,3,5-7) _ assms(9,10)] have "chunk_pool_ok T p'" by blast
  moreover have "tasks p \<subseteq> {} \<union> tasks p'"
    by (rule tasks_move [OF assms(2,3)]) (use assms(11) in \<open>simp only: Un_empty_left\<close>)
  ultimately show ?thesis using assms(8) by (simp add: carries_def)
qed

lemma dequeue_carries:
  assumes ok: "chunk_pool_ok T p" and i: "i < length (pl_workers p)" "pl_workers p ! i = WIdle"
  shows "carries T p (worker_dequeue now locked i p)"
proof (cases "q_ch (pl_queue p)")
  case Nil
  show ?thesis
  proof (cases "q_closed (pl_queue p)")
    case True
    show ?thesis
      by (rule carries_move [OF ok i(1), of _ WExited])
        (use True Nil ok i in \<open>simp_all add: worker_dequeue_def dequeue_turn_def chunk_pool_ok_def set_worker_def\<close>)
  next
    case False
    then have "worker_dequeue now locked i p = p"
      using Nil ok by (simp add: worker_dequeue_def dequeue_turn_def chunk_pool_ok_def no_store_update)
    with ok show ?thesis by (simp add: carries_refl)
  qed
next
  case (Cons x xs)
  with ok obtain j where j: "x = Item j" "task j \<in> T" by (auto simp: chunk_pool_ok_def)
  have t: "task (j\<lparr>Status := StatusRunning\<rparr>) = task j" by (simp add: task_def)
  show ?thesis
    by (rule carries_move [OF ok i(1), of _ "WHandling (j\<lparr>Status := StatusRunning\<rparr>)"])
      (use Cons j ok i t in \<open>auto simp: worker_dequeue_def dequeue_turn_def chunk_pool_ok_def set_worker_def Let_def\<close>)
qed

lemma proceed_carries:
  assumes ok: "chunk_pool_ok T p"
  shows "carries T p (worker_step ext i (Proceed now) p)"
proof (cases "i < length (pl_workers p)")
  case False
  with ok show ?thesis by (simp add: carries_refl)
next
  case True
  then have w: "of_chunk T (pl_workers p ! i)" using ok by (simp add: chunk_pool_ok_def)
  note move = carries_move [OF ok True]
  note q = ok [unfolded chunk_pool_ok_def]
  show ?thesis
  proof (cases "pl_workers p ! i")
    case (WSleeping j)
    show ?thesis
    proof (cases "q_closed (pl_queue p)")
      case closed: True
      show ?thesis
        by (rule move [of _ WIdle]) (use True WSleeping closed q in \<open>auto simp: queue_prepare_def set_worker_def lose_def\<close>)
    next
      case opened: False
      show ?thesis
        by (rule move [of _ "WSendRetry j (Item j)"])
          (use True WSleeping opened q w in \<open>auto simp: queue_prepare_def set_worker_def\<close>)
    qed
  next
    case (WSendRetry j x)
    then have x: "x = Item j" "task j \<in> T" using w by simp_all
    consider "q_closed (pl_queue p)" | "\<not> q_closed (pl_queue p)" "length (q_ch (pl_queue p)) < q_cap (pl_queue p)"
      | "\<not> q_closed (pl_queue p)" "\<not> length (q_ch (pl_queue p)) < q_cap (pl_queue p)" by blast
    then show ?thesis
    proof cases
      case 1
      show ?thesis
        by (rule move [of _ WIdle]) (use True WSendRetry 1 q in \<open>auto simp: channel_send_def set_worker_def lose_def\<close>)
    next
      case 2
      show ?thesis
        by (rule move [of _ WIdle]) (use True WSendRetry 2 q x in \<open>auto simp: channel_send_def set_worker_def\<close>)
    qed (use True WSendRetry ok in \<open>simp add: channel_send_def carries_refl\<close>)
  next
    case (WSpawning parent js)
    then have "js = []" using w by simp
    then show ?thesis
      by (intro move [of _ WChecking]) (use True WSpawning q in \<open>simp_all add: set_worker_def release_job_def\<close>)
  next
    case WChecking
    show ?thesis
      by (rule move [of _ WIdle]) (use True WChecking q in \<open>simp_all add: set_worker_def checkDone_def\<close>)
  qed (use True ok w in \<open>simp_all add: carries_refl\<close>)
qed

lemma turn_carries:
  assumes ok: "chunk_pool_ok T p" and "pool_turn e"
  shows "carries T p (pool_step ext e p)"
proof (cases e)
  case (WorkerStep i ev)
  show ?thesis
  proof (cases ev)
    case (Dequeue now locked)
    then show ?thesis using WorkerStep dequeue_carries [OF ok, of i now locked] carries_refl [OF ok] by simp
  qed (use assms WorkerStep proceed_carries [OF ok] in simp_all)
next
  case (PollerStep pe)
  have "poller_step pe p = p"
    using ok by (cases pe) (simp_all add: chunk_pool_ok_def pollLoop_def dispatchReady_def)
  with PollerStep show ?thesis by (simp add: carries_refl [OF ok])
next
  case (SenderStep i)
  then show ?thesis using ok carries_refl [OF ok] by (simp add: sender_step_def chunk_pool_ok_def)
qed (use assms in \<open>auto simp: Start_def Shutdown_begin_def Shutdown_close_def Close_def carries_def chunk_pool_ok_def tasks_def\<close>)

section \<open>A return of the handler\<close>

text \<open>The handler reads the task only, and a success is recorded.\<close>

lemma metadata_handle_task:
  "task j = task j' \<Longrightarrow> metadata_handle env decode client round j cl = metadata_handle env decode client round j' cl"
  by (simp add: metadata_handle_def task_def)

definition chunk_task :: "(metadata_payload \<Rightarrow> string) \<Rightarrow> int \<Rightarrow> coordinate \<Rightarrow> task" where
  "chunk_task encode round x = (goMetadataJobType, encode (round_payload round x))"

lemma task_chunk_job [simp]: "task (chunk_job encode round ids x) = chunk_task encode round x"
  by (simp add: task_def chunk_job_def chunk_task_def NewJob_def)

definition found :: "collector \<Rightarrow> coordinate set" where
  "found cl = dom (map_of (cl_results cl))"

lemma found_put [simp]: "found (collector_put x md cl) = insert x (found cl)"
  by (simp add: found_def update_conv')

lemma metadata_handle_found: "found cl \<subseteq> found (snd (metadata_handle env decode client round j cl))"
  unfolding metadata_handle_def
  by (auto simp: Let_def found_def update_conv' split: sum.split option.split)

lemma metadata_handle_success:
  assumes "metadata_handle env decode client round j cl = (None, cl')" and "task j = chunk_task encode round x"
    and "decode (encode (round_payload round x)) = Inr (round_payload round x)"
  shows "x \<in> found cl'"
proof (cases x)
  case (fields a v)
  then show ?thesis using assms
    by (auto simp: metadata_handle_def task_def chunk_task_def round_payload_def Let_def found_def update_conv'
      split: sum.splits option.splits if_splits)
qed

text \<open>When it failed, the job sleeps before its retry or is a dead letter.\<close>

lemma failed_carries:
  assumes ok: "chunk_pool_ok T p" and i: "i < length (pl_workers p)" "pl_workers p ! i = WHandling j"
  shows "chunk_pool_ok T (worker_failed ext now delay i j err p) \<and>
    tasks p \<subseteq> dead_tasks (worker_failed ext now delay i j err p) \<union> tasks (worker_failed ext now delay i j err p) \<and>
    dead_tasks p \<subseteq> dead_tasks (worker_failed ext now delay i j err p)"
proof (cases "Attempts j + 1 < MaxAttempts j")
  case True
  let ?w = "WSleeping (j\<lparr>Attempts := Attempts j + 1\<rparr>)"
  have w: "of_chunk T (WHandling j)" using ok nth_mem [OF i(1)] unfolding i(2) chunk_pool_ok_def by blast
  have f: "worker_failed ext now delay i j err p = set_worker i ?w p"
    using True ok by (simp add: worker_failed_def chunk_pool_ok_def)
  have "carries T p (set_worker i ?w p)"
    by (rule carries_move [OF ok i(1), of _ ?w]) (use ok i w in \<open>auto simp: set_worker_def chunk_pool_ok_def task_def\<close>)
  then show ?thesis unfolding f by (auto simp: carries_def dead_tasks_def)
next
  case False
  obtain es where es: "pl_dlq p = Some es" and st: "pl_store p = None" using ok by (auto simp: chunk_pool_ok_def)
  define dead where "dead = j\<lparr>Attempts := Attempts j + 1, Status := StatusDeadLettered\<rparr>"
  let ?p = "set_worker i WChecking (release_job dead (p\<lparr>pl_dlq := Some (es @ [\<lparr>de_Job = dead, de_Err = err, de_DeadAt = now\<rparr>]),
    pl_store := None\<rparr>))"
  have f: "worker_failed ext now delay i j err p = ?p"
    using False es st by (simp add: worker_failed_def Publish_def Let_def dead_def)
  have t: "task dead = task j" by (simp add: dead_def task_def)
  have d: "dead_tasks ?p = insert (task j) (dead_tasks p)"
    using es t by (simp add: dead_tasks_def set_worker_def release_job_def)
  have "tasks p \<subseteq> {task j} \<union> tasks ?p"
    by (rule tasks_move [OF i(1), of _ WChecking]) (use i in \<open>auto simp: set_worker_def release_job_def\<close>)
  moreover have "chunk_pool_ok T ?p"
    by (rule of_chunk_move [OF ok, of WChecking _ i]) (use ok in \<open>simp_all add: set_worker_def release_job_def chunk_pool_ok_def\<close>)
  ultimately show ?thesis unfolding f d by blast
qed

lemma completed_carries:
  assumes ok: "chunk_pool_ok T p" and i: "i < length (pl_workers p)" "pl_workers p ! i = WHandling j"
  shows "chunk_pool_ok T (worker_completed i j [] p) \<and> tasks p \<subseteq> insert (task j) (tasks (worker_completed i j [] p)) \<and>
    pl_dlq (worker_completed i j [] p) = pl_dlq p"
proof -
  let ?w = "WSpawning (j\<lparr>Status := StatusCompleted\<rparr>) []"
  have f: "worker_completed i j [] p = set_worker i ?w p" using ok by (simp add: worker_completed_def chunk_pool_ok_def)
  have "tasks p \<subseteq> {task j} \<union> tasks (set_worker i ?w p)"
    by (rule tasks_move [OF i(1), of _ ?w]) (use i in \<open>auto simp: set_worker_def\<close>)
  moreover have "chunk_pool_ok T (set_worker i ?w p)"
    by (rule of_chunk_move [OF ok, of ?w _ i]) (use ok in \<open>simp_all add: set_worker_def chunk_pool_ok_def\<close>)
  ultimately show ?thesis unfolding f by (simp add: set_worker_def)
qed

section \<open>Every coordinate is accounted for\<close>

text \<open>The job of every coordinate is in the pool or dead-lettered, or its metadata was found.\<close>

definition accounted :: "(metadata_payload \<Rightarrow> string) \<Rightarrow> int \<Rightarrow> coordinate set \<Rightarrow> pool \<times> collector \<Rightarrow> bool" where
  "accounted encode round X s \<longleftrightarrow> chunk_pool_ok (chunk_task encode round ` X) (fst s) \<and>
     (\<forall>x\<in>X. chunk_task encode round x \<in> tasks (fst s) \<union> dead_tasks (fst s) \<or> x \<in> found (snd s))"

lemma chunk_step_accounted:
  assumes acc: "accounted encode round X s"
    and codec: "\<And>x. x \<in> X \<Longrightarrow> decode (encode (round_payload round x)) = Inr (round_payload round x)"
  shows "accounted encode round X (chunk_step env decode round ext e s)"
proof (cases s)
  case (Pair p cl)
  with acc have ok: "chunk_pool_ok (chunk_task encode round ` X) p"
    and all: "\<forall>x\<in>X. chunk_task encode round x \<in> tasks p \<union> dead_tasks p \<or> x \<in> found cl"
    by (simp_all add: accounted_def)
  show ?thesis
  proof (cases e)
    case (Turn t)
    have "carries (chunk_task encode round ` X) p (if pool_turn t then pool_step ext t p else p)"
      using turn_carries [OF ok] carries_refl [OF ok] by simp
    then show ?thesis using Pair Turn all by (auto simp: accounted_def carries_def dead_tasks_def)
  next
    case (Answer i now delay client)
    show ?thesis
    proof (cases "handled_job i p")
      case None
      then show ?thesis using Pair Answer acc by simp
    next
      case (Some j)
      then have i: "i < length (pl_workers p)" "pl_workers p ! i = WHandling j"
        by (auto simp: handled_job_def split: if_splits worker_state.splits)
      obtain err cl' where h: "metadata_handle env decode client round j cl = (err, cl')" by fastforce
      have mono: "found cl \<subseteq> found cl'" using metadata_handle_found [of cl env decode client round j] h by simp
      show ?thesis
      proof (cases err)
        case None
        let ?p = "worker_completed i j [] p"
        from completed_carries [OF ok i] have c: "chunk_pool_ok (chunk_task encode round ` X) ?p"
          "tasks p \<subseteq> insert (task j) (tasks ?p)" "dead_tasks ?p = dead_tasks p" by (simp_all add: dead_tasks_def)
        have "x \<in> found cl'" if "x \<in> X" "chunk_task encode round x = task j" for x
          using metadata_handle_success [OF h [unfolded None] that(2) [symmetric] codec [OF that(1)]] .
        then have "\<forall>x\<in>X. chunk_task encode round x \<in> tasks ?p \<union> dead_tasks ?p \<or> x \<in> found cl'"
          using all mono c(2,3) by blast
        then show ?thesis using Pair Answer Some i h None c(1) by (simp add: accounted_def)
      next
        case (Some e')
        from failed_carries [OF ok i, of ext now delay "module_error_text e'"] all mono
        have "accounted encode round X (worker_failed ext now delay i j (module_error_text e') p, cl')"
          unfolding accounted_def by auto
        then show ?thesis using Pair Answer \<open>handled_job i p = Some j\<close> i h Some by simp
      qed
    qed
  qed
qed

lemma chunk_run_accounted:
  assumes "accounted encode round X s"
    and "\<And>x. x \<in> X \<Longrightarrow> decode (encode (round_payload round x)) = Inr (round_payload round x)"
  shows "accounted encode round X (chunk_run env decode round ext es s)"
  using assms(1)
proof (induction es arbitrary: s)
  case (Cons e es)
  from Cons.IH [OF chunk_step_accounted [OF Cons.prems assms(2)]] show ?case by (simp add: chunk_run_def)
qed (simp add: chunk_run_def)

lemma started_chunk_accounted:
  assumes "X = set xs"
  shows "accounted encode round X (started_chunk now es (map (chunk_job encode round ids) xs), cl)"
  using assms by (auto simp: accounted_def chunk_pool_ok_def started_chunk_simps tasks_def)

text \<open>Once \<^verbatim>\<open>Done\<close> is closed it stays closed, and in a balanced pool no task is left.\<close>

lemma pool_updates_done [simp]:
  "pl_done (set_worker i w p) = pl_done p" "pl_done (lose j p) = pl_done p"
  "pl_done (count_job j p) = pl_done p" "pl_done (release_job j p) = pl_done p"
  by (simp_all add: pool_defs)

lemma worker_step_done: "pl_done p \<Longrightarrow> pl_done (worker_step ext i e p)"
proof (cases e)
  case (Handled now delay outcome)
  assume "pl_done p"
  then show ?thesis using Handled
    by (auto simp: worker_failed_def worker_completed_def Let_def split: worker_state.split sum.split option.split prod.split)
next
  case (Proceed now)
  assume "pl_done p"
  then show ?thesis using Proceed
    by (auto simp: submitChild_def persistChildForDispatch_def checkDone_def split: worker_state.split sum.split option.split prod.split list.split queue_error.split)
qed (auto simp: worker_dequeue_def split: prod.split dequeued.split)

lemma pool_step_done: "pl_done p \<Longrightarrow> pl_done (pool_step ext e p)"
proof (cases e)
  case (PollerStep pe)
  assume "pl_done p"
  then show ?thesis using PollerStep
    by (cases pe) (auto simp: pollLoop_def dispatchReady_def lose_def count_job_def
      split: poller_state.split option.split prod.split sum.split)
qed (auto simp: worker_step_done pool_submit_def Start_def sender_step_def Shutdown_begin_def Shutdown_close_def Let_def
      split: prod.split sum.split option.split)

lemma pool_run_done: "pl_done p \<Longrightarrow> pl_done (pool_run ext es p)"
proof (induction es arbitrary: p)
  case (Cons e es)
  then show ?case using pool_step_done [of p ext e] by (simp add: pool_run_def)
qed (simp add: pool_run_def)

lemma done_no_tasks:
  assumes "balanced p" "pl_done p"
  shows "tasks p = {}"
proof -
  have "work_left p = 0" using assms by (simp add: balanced_def)
  then have z: "q_ch (pl_queue p) = []" "pl_lost p = []" "\<forall>w\<in>set (pl_workers p). weight w = 0"
    by (simp_all add: work_left_zero)
  have "weight w = 0 \<Longrightarrow> worker_tasks w = {}" for w by (cases w) simp_all
  then show ?thesis using z by (auto simp: tasks_def)
qed

section \<open>The whole call\<close>

definition chunk_events :: "chunk_trace \<Rightarrow> chunk_event list" where
  "chunk_events tr = ct_work tr @ Turn ShutdownBegin # ct_drain tr"

lemma chunk_run_append:
  "chunk_run env decode round ext (es @ us) s = chunk_run env decode round ext us (chunk_run env decode round ext es s)"
  by (simp add: chunk_run_def)

lemma run_on_pool_run:
  assumes "run_on_pool env encode decode round ext None deadLetters tr cs cl = Some (err, p, cl')"
    and "length cs \<le> goQueueBufferSize"
  defines "s \<equiv> (started_chunk (ct_now tr) deadLetters (map (chunk_job encode round (ct_ids tr)) cs), cl)"
  shows "(p, cl') = chunk_run env decode round ext (chunk_events tr) s"
    and "ct_cancelled tr = None \<Longrightarrow> pl_done (fst (chunk_run env decode round ext (ct_work tr) s))"
    and "err = None \<Longrightarrow> ct_cancelled tr = None \<and> workers_gone p"
proof -
  from submitted_chunk [OF assms(2), of ext "ct_now tr" "chunk_job encode round (ct_ids tr)" deadLetters]
  obtain q where q: "submit_chunk ext (ct_now tr) (chunk_job encode round (ct_ids tr)) cs (chunk_pool (ct_now tr) None deadLetters) = Some (Inr q)"
    "Start q = fst s" unfolding s_def by auto
  obtain p1 cl1 where 1: "chunk_run env decode round ext (ct_work tr) s = (p1, cl1)" by fastforce
  obtain p2 cl2 where 2: "chunk_run env decode round ext (ct_drain tr) (Shutdown_begin p1, cl1) = (p2, cl2)" by fastforce
  have s: "(fst s, cl) = s" by (simp add: s_def)
  note run = assms(1) [unfolded run_on_pool_def Let_def q(1) option.case sum.case q(2) s 1 prod.case 2]
  have "chunk_run env decode round ext (chunk_events tr) s = (p2, cl2)"
    using 1 2 by (simp add: chunk_events_def chunk_run_append) (simp add: chunk_run_def)
  then show "(p, cl') = chunk_run env decode round ext (chunk_events tr) s" using run by (simp split: if_splits)
  show "pl_done (fst (chunk_run env decode round ext (ct_work tr) s))" if "ct_cancelled tr = None"
    using run that 1 by (simp split: if_splits)
  show "ct_cancelled tr = None \<and> workers_gone p" if "err = None"
    using run that by (auto split: if_splits option.splits)
qed

lemma run_on_pool_returns:
  assumes "length cs \<le> goQueueBufferSize" and "ct_cancelled tr = None" "ct_timeout tr = None"
    and s_def: "s = (started_chunk (ct_now tr) deadLetters (map (chunk_job encode round (ct_ids tr)) cs), cl)"
    and "pl_done (fst (chunk_run env decode round ext (ct_work tr) s))"
    and "chunk_run env decode round ext (chunk_events tr) s = (p, cl')" and "workers_gone p"
  shows "run_on_pool env encode decode round ext None deadLetters tr cs cl = Some (None, p, cl')"
proof -
  from submitted_chunk [OF assms(1), of ext "ct_now tr" "chunk_job encode round (ct_ids tr)" deadLetters]
  obtain q where q: "submit_chunk ext (ct_now tr) (chunk_job encode round (ct_ids tr)) cs (chunk_pool (ct_now tr) None deadLetters) = Some (Inr q)"
    "Start q = fst s" unfolding s_def by auto
  obtain p1 cl1 where 1: "chunk_run env decode round ext (ct_work tr) s = (p1, cl1)" by fastforce
  have 2: "chunk_run env decode round ext (ct_drain tr) (Shutdown_begin p1, cl1) = (p, cl')"
    using 1 assms(6) by (simp add: chunk_events_def chunk_run_append) (simp add: chunk_run_def)
  have s: "(fst s, cl) = s" by (simp add: s_def)
  show ?thesis
    unfolding run_on_pool_def Let_def q(1) option.case sum.case q(2) s 1 prod.case 2
    using 1 assms(2,3,5,7) by simp
qed


section \<open>A chunk of two modules\<close>

text \<open>Worker 0 fetches the first module. Worker 1 is told five times that the proxy is unreachable and
  dead-letters the second one, which brings the counter to zero.\<close>

definition demo_down :: "string \<Rightarrow> string \<Rightarrow> module_error + metadata" where
  "demo_down m v = Inl (Proxy \<lparr>pe_Kind = ErrorRequest, pe_ModulePath = m, pe_Version = v, pe_StatusCode = 0, pe_Err = None\<rparr>)"

definition demo_chunk :: "coordinate list" where
  "demo_chunk = take 2 demo_build_list"

definition demo_retry :: "chunk_event list" where
  "demo_retry = [Turn (WorkerStep 1 (Dequeue 2 (\<lambda>_. False))), Answer 1 3 1 demo_down,
     Turn (WorkerStep 1 (Proceed 4)), Turn (WorkerStep 1 (Proceed 4))]"

definition demo_trace :: chunk_trace where
  "demo_trace = \<lparr>ct_now = 1, ct_ids = co_path,
     ct_work = [Turn (WorkerStep 0 (Dequeue 2 (\<lambda>_. False)))] @ demo_retry @ [Answer 0 5 1 demo_client] @ concat (replicate 3 demo_retry) @
       [Turn (WorkerStep 0 (Proceed 6)), Turn (WorkerStep 0 (Proceed 6))] @ demo_retry,
     ct_cancelled = None,
     ct_drain = Turn ShutdownClose # map (\<lambda>i. Turn (WorkerStep i (Dequeue 9 (\<lambda>_. False)))) [0..<goWorkerPoolSize],
     ct_timeout = None, ct_sql = []\<rparr>"

definition demo_collector :: collector where
  "demo_collector = \<lparr>cl_results = [], cl_failures = []\<rparr>"

definition demo_started :: "pool \<times> collector" where
  "demo_started = (started_chunk 1 [] (map (chunk_job demo_encode 1 co_path) demo_chunk), demo_collector)"

definition demo_left :: "pool \<times> collector" where
  "demo_left = chunk_run demo_modules demo_decode_payload 1 pool_ext (chunk_events demo_trace) demo_started"

lemma demo_chunk_done: "pl_done (fst (chunk_run demo_modules demo_decode_payload 1 pool_ext (ct_work demo_trace) demo_started))"
  by code_simp

lemma demo_chunk_left: "workers_gone (fst demo_left)" "map fst (cl_results (snd demo_left)) = take 1 demo_chunk"
  by code_simp+

lemma demo_chunk_returns:
  "run_on_pool demo_modules demo_encode demo_decode_payload 1 pool_ext None [] demo_trace demo_chunk demo_collector =
   Some (None, demo_left)"
proof -
  have tr: "ct_now demo_trace = 1" "ct_ids demo_trace = co_path" "ct_cancelled demo_trace = None" "ct_timeout demo_trace = None"
    by (simp_all add: demo_trace_def)
  have short: "length demo_chunk \<le> goQueueBufferSize"
    by (simp add: demo_chunk_def demo_build_list_def goQueueBufferSize_def)
  have s: "demo_started = (started_chunk (ct_now demo_trace) [] (map (chunk_job demo_encode 1 (ct_ids demo_trace)) demo_chunk),
      demo_collector)" by (simp add: demo_started_def tr)
  have run: "chunk_run demo_modules demo_decode_payload 1 pool_ext (chunk_events demo_trace) demo_started =
      (fst demo_left, snd demo_left)" by (simp add: demo_left_def)
  show ?thesis using run_on_pool_returns [OF short tr(3,4) s demo_chunk_done run demo_chunk_left(1)] by simp
qed


section \<open>The schedule\<close>

text \<open>While the client does not change its answers, the collector is what the handler leaves along some
  schedule of the chunk's coordinates: the pool refines \<open>runChunk\<close> of \<open>Gomod_Client\<close>.\<close>

definition answers_of :: "(string \<Rightarrow> string \<Rightarrow> module_error + metadata) \<Rightarrow> chunk_event \<Rightarrow> bool" where
  "answers_of fetch e \<longleftrightarrow> (case e of Answer _ _ _ client \<Rightarrow> client = fetch | Turn _ \<Rightarrow> True)"

definition scheduled where
  "scheduled env encode decode fetch round x cl =
     snd (metadata_handle env decode fetch round (NewJob [] goMetadataJobType (encode (round_payload round x))) cl)"

lemma chunk_step_scheduled:
  assumes acc: "accounted encode round X (p, cl)" and "answers_of fetch e"
  obtains ys where "set ys \<subseteq> X"
    "snd (chunk_step env decode round ext e (p, cl)) = fold (scheduled env encode decode fetch round) ys cl"
proof (cases e)
  case (Turn t)
  then show ?thesis using that [of "[]"] by simp
next
  case (Answer i now delay client)
  with assms(2) have c: "client = fetch" by (simp add: answers_of_def)
  show ?thesis
  proof (cases "handled_job i p")
    case None
    then show ?thesis using that [of "[]"] Answer by simp
  next
    case (Some j)
    then have i: "i < length (pl_workers p)" "pl_workers p ! i = WHandling j"
      by (auto simp: handled_job_def split: if_splits worker_state.splits)
    have "of_chunk (chunk_task encode round ` X) (WHandling j)"
      using acc nth_mem [OF i(1)] unfolding i(2) accounted_def chunk_pool_ok_def fst_conv by blast
    then obtain x where x: "x \<in> X" "task j = chunk_task encode round x" by auto
    have "task j = task (NewJob [] goMetadataJobType (encode (round_payload round x)))"
      using x(2) by (simp add: task_def chunk_task_def NewJob_def)
    from metadata_handle_task [OF this]
    have "snd (chunk_step env decode round ext e (p, cl)) = scheduled env encode decode fetch round x cl"
      using Answer Some c by (simp add: scheduled_def split: prod.split)
    then show ?thesis using that [of "[x]"] x(1) by simp
  qed
qed

lemma chunk_run_scheduled:
  assumes "accounted encode round X s" and "list_all (answers_of fetch) es"
    and codec: "\<And>x. x \<in> X \<Longrightarrow> decode (encode (round_payload round x)) = Inr (round_payload round x)"
  shows "\<exists>ys. set ys \<subseteq> X \<and> snd (chunk_run env decode round ext es s) = fold (scheduled env encode decode fetch round) ys (snd s)"
  using assms(1,2)
proof (induction es arbitrary: s)
  case Nil
  show ?case by (intro exI [of _ "[]"]) (simp add: chunk_run_def)
next
  case (Cons e es)
  obtain p cl where s: "s = (p, cl)" by fastforce
  from Cons.prems(2) have "answers_of fetch e" by simp
  from chunk_step_scheduled [OF Cons.prems(1) [unfolded s] this] obtain ys where ys: "set ys \<subseteq> X"
    "snd (chunk_step env decode round ext e (p, cl)) = fold (scheduled env encode decode fetch round) ys cl" by blast
  from Cons.IH [OF chunk_step_accounted [OF Cons.prems(1) codec], of env ext e] Cons.prems(2) obtain zs where zs: "set zs \<subseteq> X"
    "snd (chunk_run env decode round ext es (chunk_step env decode round ext e s)) =
     fold (scheduled env encode decode fetch round) zs (snd (chunk_step env decode round ext e s))" by auto
  show ?case using ys zs by (intro exI [of _ "ys @ zs"]) (simp add: chunk_run_def s)
qed

theorem run_on_pool_refines_schedule:
  assumes "\<And>x. x \<in> set cs \<Longrightarrow> decode (encode (round_payload round x)) = Inr (round_payload round x)"
    and "length cs \<le> goQueueBufferSize" and "list_all (answers_of fetch) (chunk_events tr)"
    and "run_on_pool env encode decode round ext None deadLetters tr cs cl = Some (err, p, cl')"
  shows "\<exists>schedule. (\<forall>xs. set (schedule xs) \<subseteq> set xs) \<and>
    runChunk env encode decode fetch round schedule (\<lambda>_. err) cs cl = (err, cl')"
proof -
  note run = run_on_pool_run(1) [OF assms(4,2)]
  have "accounted encode round (set cs)
      (started_chunk (ct_now tr) deadLetters (map (chunk_job encode round (ct_ids tr)) cs), cl)"
    by (rule started_chunk_accounted [OF refl])
  from chunk_run_scheduled [OF this assms(3,1), of env ext]
  obtain ys where ys: "set ys \<subseteq> set cs" "cl' = fold (scheduled env encode decode fetch round) ys cl"
    unfolding run [symmetric] by auto
  have "runChunk env encode decode fetch round (\<lambda>xs. if xs = cs then ys else []) (\<lambda>_. err) cs cl = (err, cl')"
    using ys(2) by (simp add: runChunk_def scheduled_def [abs_def])
  moreover have "set (if xs = cs then ys else []) \<subseteq> set xs" for xs
    using ys(1) by (cases "xs = cs") simp_all
  ultimately show ?thesis by (intro exI [of _ "\<lambda>xs. if xs = cs then ys else []"] conjI allI)
qed

section \<open>With a store the submissions can wait forever\<close>

lemma submit_to_full:
  assumes "pl_store p = Some d" "\<not> pl_stopping p" "\<not> q_closed (pl_queue p)" "pl_senders p = []"
    and "length (q_ch (pl_queue p)) \<le> q_cap (pl_queue p)" "q_cap (pl_queue p) < length (q_ch (pl_queue p)) + length xs"
    and "distinct (map (\<lambda>x. ID (mk x)) xs)" "\<And>x. x \<in> set xs \<Longrightarrow> \<not> has_job d (ID (mk x))"
    and "\<And>x. x \<in> set xs \<Longrightarrow> \<not> isl (jsonValue ext (Payload (mk x)))"
  shows "submit_chunk ext now mk xs p = None"
  using assms
proof (induction xs arbitrary: p d)
  case (Cons x xs)
  from Cons.prems(8,9) [of x] obtain d' where d': "CreateJob ext now (mk x) d = Inr d'"
    by (cases "jsonValue ext (Payload (mk x))") (simp_all add: CreateJob_def Let_def)
  then have more: "has_job d' i \<longleftrightarrow> has_job d i \<or> i = ID (mk x)" for i
    by (auto simp: CreateJob_def Let_def has_job_def new_row_def split: sum.splits if_splits)
  show ?case
  proof (cases "length (q_ch (pl_queue p)) < q_cap (pl_queue p)")
    case False
    then show ?thesis using Cons.prems(1-4) d'
      by (simp add: queue_prepare_def pool_submit_def sender_step_def channel_send_def count_job_def Let_def)
  next
    case True
    let ?p = "(count_job (mk x) p)\<lparr>pl_store := Some d', pl_queue := (pl_queue p)\<lparr>q_ch := q_ch (pl_queue p) @ [Signal]\<rparr>\<rparr>"
    have s: "sender_step (length (pl_senders p)) (pool_submit ext now (mk x) p) = ?p"
      using Cons.prems(1-4) d' True by (simp add: queue_prepare_def pool_submit_def sender_step_def channel_send_def count_job_def Let_def)
    have "submit_chunk ext now mk xs ?p = None"
      by (rule Cons.IH [of _ d']) (use Cons.prems True more in \<open>auto simp: count_job_def image_iff\<close>)
    then show ?thesis using Cons.prems(1-4) d' s by (simp add: queue_prepare_def Let_def count_job_def)
  qed
qed simp

text \<open>\<^verbatim>\<open>runChunk\<close> submits before it starts the pool, and a submission waits for room in the channel. A row
  that the queue reloads from the store takes a place, so a full chunk is never submitted: for no
  course of events does the call return, and the caller's context cannot end it either.\<close>

theorem runChunk_blocks_on_reload:
  assumes "New (ct_now tr) goQueueBufferSize (Some d0) = (q, Some d)" "q_ch q \<noteq> []"
    and "length cs = goQueueBufferSize" "distinct (map (ct_ids tr) cs)" "\<And>x. x \<in> set cs \<Longrightarrow> \<not> has_job d (ct_ids tr x)"
    and "\<And>s. \<not> isl (jsonValue ext s)"
  shows "run_on_pool env encode decode round ext (Some d0) deadLetters tr cs cl = None"
proof -
  from assms(1) have q: "length (q_ch q) \<le> q_cap q" "q_cap q = max goQueueBufferSize (length (q_ch q))" "\<not> q_closed q"
    by (auto simp: New_def Let_def split: prod.splits)
  let ?mk = "chunk_job encode round (ct_ids tr)"
  have i: "ID (?mk x) = ct_ids tr x" for x by (simp add: chunk_job_def NewJob_def)
  have "0 < length (q_ch q)" using assms(2) by simp
  then have more: "q_cap q < length (q_ch q) + length cs" unfolding q(2) assms(3) by (simp add: goQueueBufferSize_def)
  have "submit_chunk ext (ct_now tr) ?mk cs (chunk_pool (ct_now tr) (Some d0) deadLetters) = None"
    by (rule submit_to_full [of _ d]) (use assms q more in \<open>simp_all add: chunk_pool_def NewWithOptions_def i\<close>)
  then show ?thesis by (simp add: run_on_pool_def)
qed

text \<open>One row of an earlier process and a chunk of a hundred coordinates.\<close>

definition hundred :: "coordinate list" where
  "hundred = map (\<lambda>n. \<lparr>co_path = ''m'', co_version = replicate n CHR ''v''\<rparr>) [0..<100]"

theorem runChunk_blocks_on_reload_witness:
  "run_on_pool demo_modules demo_encode demo_decode_payload 1 pool_ext (Some old_row_db) []
     (demo_trace\<lparr>ct_now := 60, ct_ids := co_version\<rparr>) hundred demo_collector = None"
proof -
  obtain q d where new: "New 60 goQueueBufferSize (Some old_row_db) = (q, Some d)"
    by (cases "reload (length (t_jobs (snd (ReclaimStuckJobs old_row_db)))) 60 (snd (ReclaimStuckJobs old_row_db))")
      (simp add: New_def Let_def)
  have "(case New 60 goQueueBufferSize (Some old_row_db) of (q, Some d) \<Rightarrow> q_ch q \<noteq> [] \<and> map r_id (t_jobs d) = [''old''] | _ \<Rightarrow> False)"
    by code_simp
  then have ch: "q_ch q \<noteq> []" and rows: "map r_id (t_jobs d) = [''old'']" using new by simp_all
  have "\<not> has_job d (replicate n CHR ''v'')" for n
  proof
    assume "has_job d (replicate n CHR ''v'')"
    then have "replicate n CHR ''v'' \<in> set (map r_id (t_jobs d))" unfolding has_job_def list_ex_iff set_map by (metis image_eqI)
    then have "CHR ''o'' \<in> set (replicate n CHR ''v'')" unfolding rows by simp
    then show False by simp
  qed
  then have absent: "\<And>x. x \<in> set hundred \<Longrightarrow> \<not> has_job d (co_version x)" by (auto simp: hundred_def)
  have "distinct (map co_version hundred)" by (simp add: hundred_def comp_def distinct_map inj_on_def)
  moreover have "length hundred = goQueueBufferSize" by (simp add: hundred_def goQueueBufferSize_def)
  moreover have "\<And>s. \<not> isl (jsonValue pool_ext s)" by (simp add: jsonValue_def pool_ext_def)
  ultimately show ?thesis
    using runChunk_blocks_on_reload [of "demo_trace\<lparr>ct_now := 60, ct_ids := co_version\<rparr>"] new ch absent by simp
qed

end
