(* ===== verification/Round_Progress.thy ===== *)
theory Round_Progress
  imports Progress Round_Properties
begin

text \<open>
  A chunk of module metadata ends: while the pool works, every event leaves it as it is or
  decreases a rank, and until \<^verbatim>\<open>Done\<close> closes some worker can go on; after the shutdown began the
  same holds until the workers are gone. Both are interpretations of \<open>progress_system\<close>.
\<close>

section \<open>The rank of a pool\<close>

text \<open>Six for each attempt a job has left, and the place of its worker in the loop.\<close>

definition job_rank :: "job \<Rightarrow> nat" where
  "job_rank j = 6 * max 1 (nat (MaxAttempts j - Attempts j))"

fun state_rank :: "worker_state \<Rightarrow> nat" where
  "state_rank WIdle = 1"
| "state_rank (WHandling j) = job_rank j"
| "state_rank (WSleeping j) = job_rank j + 4"
| "state_rank (WSendRetry j x) = job_rank j + 3"
| "state_rank (WSendChild j c x cs) = 0"
| "state_rank (WSpawning j cs) = 3"
| "state_rank WChecking = 2"
| "state_rank WExited = 0"

fun item_rank :: "queued \<Rightarrow> nat" where
  "item_rank (Item j) = job_rank j"
| "item_rank Signal = 0"

definition items_rank :: "pool \<Rightarrow> nat" where
  "items_rank p = sum_list (map item_rank (q_ch (pl_queue p)))"

definition pool_rank :: "pool \<Rightarrow> nat" where
  "pool_rank p = items_rank p + sum_list (map state_rank (pl_workers p)) +
     (if pl_stopping p then 0 else 1) + (if q_closed (pl_queue p) then 0 else 1)"

text \<open>An effect lowers the rank and adds no work.\<close>

definition advances :: "pool \<Rightarrow> pool \<Rightarrow> bool" where
  "advances p p' \<longleftrightarrow> p' = p \<or> pool_rank p' < pool_rank p \<and> work_left p' \<le> work_left p \<and>
     q_cap (pl_queue p') = q_cap (pl_queue p) \<and> length (pl_workers p') = length (pl_workers p) \<and>
     (\<not> q_closed (pl_queue p) \<longrightarrow> pl_lost p' = pl_lost p)"

lemma sum_list_move:
  assumes "i < length ws" and "a' + (f w :: nat) < a + f (ws ! i)"
  shows "a' + sum_list (map f (ws[i := w])) < a + sum_list (map f ws)"
  using assms
proof (induction ws arbitrary: i)
  case (Cons v ws)
  then show ?case by (cases i) fastforce+
qed simp

lemma advances_move:
  assumes "i < length (pl_workers p)" "pl_workers p' = (pl_workers p)[i := w]"
    and "pl_stopping p' = pl_stopping p" "q_closed (pl_queue p') = q_closed (pl_queue p)"
    and "q_cap (pl_queue p') = q_cap (pl_queue p)" "pl_senders p' = pl_senders p"
    and "items_rank p' + state_rank w < items_rank p + state_rank (pl_workers p ! i)"
    and "int (length (q_ch (pl_queue p'))) + weight w + int (length (pl_lost p')) \<le>
      int (length (q_ch (pl_queue p))) + weight (pl_workers p ! i) + int (length (pl_lost p))"
    and "\<not> q_closed (pl_queue p) \<longrightarrow> pl_lost p' = pl_lost p"
  shows "advances p p'"
proof -
  have "pool_rank p' < pool_rank p"
    using sum_list_move [of i "pl_workers p" "items_rank p'" state_rank w "items_rank p"] assms(1-4,7)
    by (simp add: pool_rank_def)
  moreover have "work_left p' \<le> work_left p" using assms(1,2,6,8) by (simp add: work_left_def)
  ultimately show ?thesis using assms(2,5,9) by (simp add: advances_def)
qed

lemma job_rank_pos: "6 \<le> job_rank j"
  by (simp add: job_rank_def)

lemma job_rank_retry: "Attempts j + 1 < MaxAttempts j \<Longrightarrow> job_rank j = job_rank (j\<lparr>Attempts := Attempts j + 1\<rparr>) + 6"
  by (simp add: job_rank_def)

section \<open>Every event advances the pool\<close>

lemmas advance_simps = set_worker_def items_rank_def lose_def release_job_def checkDone_def job_rank_def

lemma dequeue_advances:
  assumes ok: "chunk_pool_ok T p" and i: "i < length (pl_workers p)" "pl_workers p ! i = WIdle"
  shows "advances p (worker_dequeue now locked i p)"
proof (cases "q_ch (pl_queue p)")
  case Nil
  show ?thesis
  proof (cases "q_closed (pl_queue p)")
    case True
    show ?thesis
      by (rule advances_move [OF i(1), of _ WExited])
        (use True Nil ok i in \<open>simp_all add: worker_dequeue_def dequeue_turn_def chunk_pool_ok_def advance_simps\<close>)
  next
    case False
    then have "worker_dequeue now locked i p = p"
      using Nil ok by (simp add: worker_dequeue_def dequeue_turn_def chunk_pool_ok_def no_store_update)
    then show ?thesis by (simp add: advances_def)
  qed
next
  case (Cons x xs)
  with ok obtain j where j: "x = Item j" by (auto simp: chunk_pool_ok_def)
  show ?thesis
    by (rule advances_move [OF i(1), of _ "WHandling (j\<lparr>Status := StatusRunning\<rparr>)"])
      (use Cons j ok i in \<open>simp_all add: worker_dequeue_def dequeue_turn_def chunk_pool_ok_def advance_simps Let_def\<close>)
qed

lemma failed_advances:
  assumes ok: "chunk_pool_ok T p" and i: "i < length (pl_workers p)" "pl_workers p ! i = WHandling j"
  shows "advances p (worker_failed ext now delay i j err p)"
proof (cases "Attempts j + 1 < MaxAttempts j")
  case True
  show ?thesis
    by (rule advances_move [OF i(1), of _ "WSleeping (j\<lparr>Attempts := Attempts j + 1\<rparr>)"])
      (use True ok i job_rank_retry [OF True] in \<open>simp_all add: worker_failed_def chunk_pool_ok_def set_worker_def items_rank_def\<close>)
next
  case False
  have "state_rank WChecking < job_rank j" using job_rank_pos [of j] by simp
  with False ok i show ?thesis
    by (intro advances_move [OF i(1), of _ WChecking])
      (auto simp: worker_failed_def chunk_pool_ok_def Publish_def set_worker_def release_job_def items_rank_def Let_def)
qed

lemma completed_advances:
  assumes ok: "chunk_pool_ok T p" and i: "i < length (pl_workers p)" "pl_workers p ! i = WHandling j"
  shows "advances p (worker_completed i j [] p)"
  by (rule advances_move [OF i(1), of _ "WSpawning (j\<lparr>Status := StatusCompleted\<rparr>) []"])
    (use ok i job_rank_pos [of j] in \<open>simp_all add: worker_completed_def chunk_pool_ok_def set_worker_def items_rank_def\<close>)

lemma proceed_advances:
  assumes ok: "chunk_pool_ok T p"
  shows "advances p (worker_step ext i (Proceed now) p)"
proof (cases "i < length (pl_workers p)")
  case True
  then have w: "of_chunk T (pl_workers p ! i)" using ok by (simp add: chunk_pool_ok_def)
  have st: "pl_store p = None" using ok by (simp add: chunk_pool_ok_def)
  note move = advances_move [OF True]
  show ?thesis
  proof (cases "pl_workers p ! i")
    case (WSleeping j)
    show ?thesis
    proof (cases "q_closed (pl_queue p)")
      case closed: True
      show ?thesis
        by (rule move [of _ WIdle]) (use True WSleeping closed st in \<open>simp_all add: queue_prepare_def advance_simps\<close>)
    next
      case opened: False
      show ?thesis
        by (rule move [of _ "WSendRetry j (Item j)"])
          (use True WSleeping opened st in \<open>simp_all add: queue_prepare_def set_worker_def items_rank_def\<close>)
    qed
  next
    case (WSendRetry j x)
    then have x: "x = Item j" using w by simp
    consider "q_closed (pl_queue p)" | "\<not> q_closed (pl_queue p)" "length (q_ch (pl_queue p)) < q_cap (pl_queue p)"
      | "\<not> q_closed (pl_queue p)" "\<not> length (q_ch (pl_queue p)) < q_cap (pl_queue p)" by blast
    then show ?thesis
    proof cases
      case 1
      show ?thesis
        by (rule move [of _ WIdle]) (use True WSendRetry 1 st in \<open>simp_all add: channel_send_def advance_simps\<close>)
    next
      case 2
      show ?thesis
        by (rule move [of _ WIdle]) (use True WSendRetry 2 st x in \<open>simp_all add: channel_send_def set_worker_def items_rank_def\<close>)
    qed (use True WSendRetry in \<open>simp add: channel_send_def advances_def\<close>)
  next
    case (WSpawning parent js)
    then have "js = []" using w by simp
    then show ?thesis
      by (intro move [of _ WChecking]) (use True WSpawning in \<open>simp_all add: advance_simps\<close>)
  next
    case WChecking
    show ?thesis
      by (rule move [of _ WIdle]) (use True WChecking in \<open>simp_all add: advance_simps\<close>)
  qed (use True w in \<open>simp_all add: advances_def\<close>)
qed (simp add: advances_def)

lemma turn_advances:
  assumes ok: "chunk_pool_ok T p" and "pool_turn e"
  shows "advances p (pool_step ext e p)"
proof (cases e)
  case (WorkerStep i ev)
  show ?thesis
  proof (cases ev)
    case (Dequeue now locked)
    then show ?thesis using WorkerStep dequeue_advances [OF ok, of i now locked] by (simp add: advances_def)
  qed (use assms WorkerStep proceed_advances [OF ok] in simp_all)
next
  case (PollerStep pe)
  have "poller_step pe p = p"
    using ok by (cases pe) (simp_all add: chunk_pool_ok_def pollLoop_def dispatchReady_def)
  with PollerStep show ?thesis by (simp add: advances_def)
next
  case (SenderStep i)
  then show ?thesis using ok by (simp add: sender_step_def chunk_pool_ok_def advances_def)
next
  case ShutdownBegin
  then show ?thesis
    by (cases p) (auto simp: Shutdown_begin_def advances_def pool_rank_def items_rank_def work_left_def)
next
  case ShutdownClose
  show ?thesis
  proof (cases "q_closed (pl_queue p)")
    case True
    then have "Close (pl_queue p) = pl_queue p" by (cases "pl_queue p") (simp add: Close_def)
    then have "pool_step ext e p = p" using ShutdownClose by (cases p) (simp add: Shutdown_close_def)
    then show ?thesis by (simp add: advances_def)
  next
    case False
    then show ?thesis using ShutdownClose
      by (simp add: Shutdown_close_def Close_def advances_def pool_rank_def items_rank_def work_left_def)
  qed
qed (use assms in \<open>simp_all add: Start_def chunk_pool_ok_def advances_def\<close>)

section \<open>A chunk at work\<close>

lemma answered_moves:
  assumes "chunk_pool_ok T p" "i < length (pl_workers p)"
  shows "pl_workers (worker_failed ext now delay i j err p) ! i \<noteq> WHandling j"
    and "pl_workers (worker_completed i j [] p) ! i \<noteq> WHandling j"
  using assms by (auto simp: worker_failed_def worker_completed_def chunk_pool_ok_def Publish_def set_worker_def release_job_def Let_def)

lemma chunk_step_advances:
  assumes "chunk_pool_ok T (fst s)"
  shows "chunk_pool_ok T (fst (chunk_step env decode round ext e s)) \<and> advances (fst s) (fst (chunk_step env decode round ext e s)) \<and>
    (fst (chunk_step env decode round ext e s) = fst s \<longrightarrow> chunk_step env decode round ext e s = s)"
proof (cases s)
  case (Pair p cl)
  with assms have ok: "chunk_pool_ok T p" by simp
  show ?thesis
  proof (cases e)
    case (Turn t)
    then show ?thesis using Pair ok turn_carries [OF ok, of t ext] turn_advances [OF ok, of t ext]
      by (simp add: carries_def advances_def)
  next
    case (Answer i now delay client)
    show ?thesis
    proof (cases "handled_job i p")
      case None
      then show ?thesis using Pair Answer ok by (simp add: advances_def)
    next
      case (Some j)
      then have i: "i < length (pl_workers p)" "pl_workers p ! i = WHandling j"
        by (auto simp: handled_job_def split: if_splits worker_state.splits)
      obtain err cl' where h: "metadata_handle env decode client round j cl = (err, cl')" by fastforce
      let ?p = "worker_step ext i (Handled now delay (handler_outcome err)) p"
      have "chunk_pool_ok T ?p \<and> advances p ?p \<and> pl_workers ?p ! i \<noteq> WHandling j"
      proof (cases err)
        case None
        then show ?thesis using i completed_carries [OF ok i] completed_advances [OF ok i] answered_moves(2) [OF ok i(1)] by simp
      next
        case (Some e')
        then show ?thesis using i failed_carries [OF ok i] failed_advances [OF ok i] answered_moves(1) [OF ok i(1)] by simp
      qed
      moreover from this have "?p \<noteq> p" using i(2) by metis
      ultimately show ?thesis using Pair Answer Some h by simp
    qed
  qed
qed

definition chunk_alive :: "pool \<times> collector \<Rightarrow> bool" where
  "chunk_alive s \<longleftrightarrow> chunk_pool_ok UNIV (fst s) \<and> balanced (fst s) \<and> noticed (fst s) \<and> shut_ok (fst s) \<and>
     work_left (fst s) \<le> int (q_cap (pl_queue (fst s))) \<and> pl_workers (fst s) \<noteq> []"

lemma chunk_step_alive:
  assumes alive: "chunk_alive s"
  shows "chunk_alive (chunk_step env decode round ext e s)"
proof -
  let ?s = "chunk_step env decode round ext e s"
  from alive have ok: "chunk_pool_ok UNIV (fst s)" and "pl_started (fst s)"
    and b: "balanced (fst s)" "noticed (fst s)" "shut_ok (fst s)" by (simp_all add: chunk_alive_def chunk_pool_ok_def)
  obtain ts where "list_all no_submit ts" "fst ?s = pool_run ext ts (fst s)" using chunk_step_pool by blast
  then have "balanced (fst ?s)" "noticed (fst ?s)" "shut_ok (fst ?s)"
    using pool_run_balanced [OF b(1,2) \<open>pl_started (fst s)\<close>] shut_run [OF b(3) \<open>pl_started (fst s)\<close>] by simp_all
  moreover have "work_left (fst ?s) \<le> int (q_cap (pl_queue (fst ?s)))" "pl_workers (fst ?s) \<noteq> []"
    using chunk_step_advances [OF ok, of env decode round ext e] alive by (auto simp: advances_def chunk_alive_def)
  ultimately show ?thesis
    using chunk_step_advances [OF ok, of env decode round ext e] by (simp add: chunk_alive_def)
qed

lemma chunk_step_rank:
  assumes "chunk_alive s"
  shows "chunk_step env decode round ext e s = s \<or> pool_rank (fst (chunk_step env decode round ext e s)) < pool_rank (fst s)"
  using chunk_step_advances [of UNIV s env decode round ext e] assms by (auto simp: chunk_alive_def advances_def)

lemma worker_step_stopping: "pl_stopping (worker_step ext i e p) = pl_stopping p"
proof (cases e)
  case (Handled now delay outcome)
  then show ?thesis
    by (auto simp: worker_failed_def worker_completed_def set_worker_def lose_def release_job_def Let_def
      split: worker_state.split sum.split option.split prod.split)
next
  case (Proceed now)
  then show ?thesis
    by (auto simp: submitChild_def persistChildForDispatch_def pool_defs checkDone_def
      split: worker_state.split sum.split option.split prod.split list.split queue_error.split)
qed (auto simp: worker_dequeue_def set_worker_def split: prod.split dequeued.split)

lemma turn_stopping:
  assumes "chunk_pool_ok T p" "pool_turn e" "e \<noteq> ShutdownBegin"
  shows "pl_stopping (pool_step ext e p) = pl_stopping p"
proof (cases e)
  case (PollerStep pe)
  then show ?thesis using assms(1) by (cases pe) (simp_all add: chunk_pool_ok_def pollLoop_def dispatchReady_def)
qed (use assms in \<open>auto simp: worker_step_stopping Start_def Shutdown_close_def sender_step_def chunk_pool_ok_def\<close>)

text \<open>Before the shutdown begins nothing is lost.\<close>

fun work_event :: "chunk_event \<Rightarrow> bool" where
  "work_event (Turn ShutdownBegin) = False"
| "work_event _ = True"

definition chunk_working :: "pool \<times> collector \<Rightarrow> bool" where
  "chunk_working s \<longleftrightarrow> chunk_alive s \<and> \<not> pl_stopping (fst s) \<and> pl_lost (fst s) = []"

lemma working_open: "chunk_working s \<Longrightarrow> \<not> q_closed (pl_queue (fst s))"
  by (auto simp: chunk_working_def chunk_alive_def balanced_def)

lemma chunk_step_working:
  assumes w: "chunk_working s" and "work_event e"
  shows "chunk_working (chunk_step env decode round ext e s)"
proof -
  obtain p cl where s: "s = (p, cl)" by fastforce
  have ok: "chunk_pool_ok UNIV p" using w by (simp add: s chunk_working_def chunk_alive_def)
  have "pl_stopping (fst (chunk_step env decode round ext e s)) = pl_stopping p"
  proof (cases e)
    case (Turn t)
    then have "t \<noteq> ShutdownBegin" using assms(2) by auto
    then show ?thesis using Turn s turn_stopping [OF ok] by simp
  qed (simp add: s worker_step_stopping del: worker_step.simps split: option.split prod.split)
  moreover have "pl_lost (fst (chunk_step env decode round ext e s)) = []"
    using chunk_step_advances [of UNIV s env decode round ext e] ok w working_open [OF w]
    by (auto simp: s advances_def chunk_working_def)
  ultimately show ?thesis using chunk_step_alive w by (simp add: chunk_working_def s)
qed

lemma worker_effect:
  assumes "pl_workers (worker_step ext i we p) ! i \<noteq> pl_workers p ! i" and "pool_turn (WorkerStep i we)"
  shows "\<exists>e. work_event e \<and> chunk_step env decode round ext e (p, cl) \<noteq> (p, cl)"
proof -
  have "worker_step ext i we p \<noteq> p" using assms(1) by metis
  then show ?thesis using assms(2) by (intro exI [of _ "Turn (WorkerStep i we)"]) simp
qed

text \<open>A worker with work can go on: the channel has room for a retry, since the job that is sent
  again is not in it.\<close>

lemma working_moves:
  assumes w: "chunk_working (p, cl)" and i: "i < length (pl_workers p)" "pl_workers p ! i \<notin> {WIdle, WExited}"
  shows "\<exists>e. work_event e \<and> chunk_step env decode round ext e (p, cl) \<noteq> (p, cl)"
proof -
  have ok: "chunk_pool_ok UNIV p" and alive: "chunk_alive (p, cl)" using w by (simp_all add: chunk_working_def chunk_alive_def)
  have st: "pl_store p = None" and of: "of_chunk UNIV (pl_workers p ! i)" using ok i(1) by (simp_all add: chunk_pool_ok_def)
  have opened: "\<not> q_closed (pl_queue p)" using working_open [OF w] by simp
  note effect = worker_effect [of ext i _ p env decode round cl]
  show ?thesis
  proof (cases "pl_workers p ! i")
    case (WHandling j)
    let ?e = "Answer i 0 0 (\<lambda>_ _. Inl (Other (PlainError [])))"
    obtain err cl' where h: "metadata_handle env decode (\<lambda>_ _. Inl (Other (PlainError []))) round j cl = (err, cl')" by fastforce
    have "handled_job i p = Some j" using i WHandling by (simp add: handled_job_def)
    moreover have "pl_workers (worker_step ext i (Handled 0 0 (handler_outcome err)) p) ! i \<noteq> WHandling j"
      using i(1) WHandling answered_moves [OF ok i(1)] by (cases err) simp_all
    then have "worker_step ext i (Handled 0 0 (handler_outcome err)) p \<noteq> p" using WHandling by metis
    ultimately show ?thesis using h by (intro exI [of _ ?e]) simp
  next
    case (WSleeping j)
    then show ?thesis using i st opened
      by (intro effect [of "Proceed 0"]) (simp_all add: queue_prepare_def set_worker_def)
  next
    case (WSendRetry j x)
    have "pl_workers p ! i \<in> set (pl_workers p)" using i(1) by simp
    then have "1 \<le> workers_weight (pl_workers p)"
      using workers_weight_update [OF i(1), of WIdle] workers_weight_nonneg [of "(pl_workers p)[i := WIdle]"] WSendRetry by simp
    then have "length (q_ch (pl_queue p)) < q_cap (pl_queue p)"
      using alive by (simp add: chunk_alive_def work_left_def)
    then show ?thesis using i WSendRetry opened
      by (intro effect [of "Proceed 0"]) (simp_all add: channel_send_def set_worker_def)
  next
    case (WSpawning parent js)
    then show ?thesis using i of by (intro effect [of "Proceed 0"]) (simp_all add: set_worker_def release_job_def)
  next
    case WChecking
    then show ?thesis using i by (intro effect [of "Proceed 0"]) (simp_all add: set_worker_def checkDone_def)
  qed (use i of in simp_all)
qed

lemma working_not_stuck:
  assumes w: "chunk_working s" and "\<not> pl_done (fst s)"
  shows "\<exists>e. work_event e \<and> chunk_step env decode round ext e s \<noteq> s"
proof -
  obtain p cl where s: "s = (p, cl)" by fastforce
  show ?thesis
  proof (cases "\<exists>i<length (pl_workers p). pl_workers p ! i \<notin> {WIdle, WExited}")
    case True
    then show ?thesis using working_moves [of p cl] w unfolding s by blast
  next
    case False
    have alive: "chunk_alive (p, cl)" and opened: "\<not> q_closed (pl_queue p)" and lost: "pl_lost p = []"
      using w working_open [OF w] by (simp_all add: s chunk_working_def)
    from False have ws: "\<forall>v\<in>set (pl_workers p). v = WIdle \<or> v = WExited" by (metis in_set_conv_nth insertE singletonD)
    have ne: "WExited \<notin> set (pl_workers p)" using alive opened by (auto simp: chunk_alive_def shut_ok_def)
    have len: "0 < length (pl_workers p)" using alive by (simp add: chunk_alive_def)
    have "pl_workers p ! 0 \<in> set (pl_workers p)" by (rule nth_mem [OF len])
    then have idle: "pl_workers p ! 0 = WIdle" using ws ne by metis
    have "WChecking \<notin> set (pl_workers p)" "\<forall>v\<in>set (pl_workers p). weight v = 0" using ws by auto
    then have "q_ch (pl_queue p) \<noteq> []"
      using alive assms(2) lost work_left_zero [of p] by (auto simp: s chunk_alive_def noticed_def chunk_pool_ok_def)
    then obtain x xs where x: "q_ch (pl_queue p) = x # xs" by (cases "q_ch (pl_queue p)") auto
    have "pl_store p = None" using alive by (simp add: chunk_alive_def chunk_pool_ok_def)
    then show ?thesis unfolding s using idle len x
      by (intro worker_effect [of ext 0 "Dequeue 0 (\<lambda>_. False)"])
        (simp_all add: worker_dequeue_def dequeue_turn_def set_worker_def Let_def)
  qed
qed

section \<open>A chunk that drains\<close>

definition chunk_draining :: "pool \<times> collector \<Rightarrow> bool" where
  "chunk_draining s \<longleftrightarrow> chunk_alive s \<and> pl_stopping (fst s) \<and> pl_done (fst s)"

lemma chunk_step_draining:
  assumes d: "chunk_draining s"
  shows "chunk_draining (chunk_step env decode round ext e s)"
proof -
  obtain p cl where s: "s = (p, cl)" by fastforce
  have ok: "chunk_pool_ok UNIV p" using d by (simp add: s chunk_draining_def chunk_alive_def)
  obtain ts where ts: "fst (chunk_step env decode round ext e s) = pool_run ext ts (fst s)" using chunk_step_pool by blast
  have "pl_stopping (fst (chunk_step env decode round ext e s))"
  proof (cases e)
    case (Turn t)
    show ?thesis
    proof (cases "t = ShutdownBegin")
      case True
      then show ?thesis using Turn s by (simp add: Shutdown_begin_def)
    next
      case False
      then show ?thesis using Turn s turn_stopping [OF ok] d by (simp add: chunk_draining_def)
    qed
  qed (use d s in \<open>simp add: worker_step_stopping chunk_draining_def del: worker_step.simps split: option.split prod.split\<close>)
  then show ?thesis using chunk_step_alive ts pool_run_done d by (simp add: chunk_draining_def)
qed

lemma draining_not_stuck:
  assumes d: "chunk_draining s" and "\<not> workers_gone (fst s)"
  shows "\<exists>e. chunk_step env decode round ext e s \<noteq> s"
proof -
  obtain p cl where s: "s = (p, cl)" by fastforce
  have alive: "chunk_alive (p, cl)" and dn: "pl_stopping p" "pl_done p" using d by (simp_all add: s chunk_draining_def)
  then have "work_left p = 0" by (simp add: chunk_alive_def balanced_def)
  then have rest: "q_ch (pl_queue p) = []" "pl_senders p = []" "\<forall>w\<in>set (pl_workers p). weight w = 0"
    by (simp_all add: work_left_zero)
  have st: "pl_store p = None" "pl_poller p = PNone" using alive by (simp_all add: chunk_alive_def chunk_pool_ok_def)
  show ?thesis
  proof (cases "q_closed (pl_queue p)")
    case False
    have "list_all (\<lambda>w. case w of WSendChild _ _ _ _ \<Rightarrow> False | _ \<Rightarrow> True) (pl_workers p)"
      using rest(3) by (auto simp: list_all_iff split: worker_state.split)
    then have "pl_queue (pool_step ext ShutdownClose p) \<noteq> pl_queue p"
      using False dn st rest(2) by (cases "pl_queue p") (simp add: Shutdown_close_def Close_def)
    then have "pool_step ext ShutdownClose p \<noteq> p" by metis
    then show ?thesis unfolding s by (intro exI [of _ "Turn ShutdownClose"]) simp
  next
    case True
    then obtain w where w: "w \<in> set (pl_workers p)" "w \<noteq> WExited"
      using assms(2) by (auto simp: s workers_gone_def list_all_iff)
    then obtain i where i: "i < length (pl_workers p)" "pl_workers p ! i \<noteq> WExited" by (metis in_set_conv_nth)
    then have "weight (pl_workers p ! i) = 0" using rest(3) by simp
    with i(2) consider "pl_workers p ! i = WIdle" | "pl_workers p ! i = WChecking" by (cases "pl_workers p ! i") simp_all
    then have "\<exists>e. work_event e \<and> chunk_step env decode round ext e (p, cl) \<noteq> (p, cl)"
    proof cases
      case 1
      then show ?thesis using i rest(1) True st
        by (intro worker_effect [of ext i "Dequeue 0 (\<lambda>_. False)"])
          (simp_all add: worker_dequeue_def dequeue_turn_def set_worker_def)
    next
      case 2
      then show ?thesis using i by (intro worker_effect [of ext i "Proceed 0"]) (simp_all add: set_worker_def checkDone_def)
    qed
    then show ?thesis unfolding s by blast
  qed
qed

section \<open>Both phases make progress\<close>

interpretation working: progress_system chunk_working work_event "chunk_step env decode round ext" "\<lambda>s. pool_rank (fst s)" "\<lambda>s. pl_done (fst s)"
  for env decode round ext
proof unfold_locales
  show "chunk_working s \<Longrightarrow> work_event e \<Longrightarrow> chunk_working (chunk_step env decode round ext e s)" for s e
    by (rule chunk_step_working)
  show "chunk_working s \<Longrightarrow> work_event e \<Longrightarrow> chunk_step env decode round ext e s = s \<or>
      pool_rank (fst (chunk_step env decode round ext e s)) < pool_rank (fst s)" for s e
    by (rule chunk_step_rank) (simp add: chunk_working_def)
  show "chunk_working s \<Longrightarrow> \<not> pl_done (fst s) \<Longrightarrow> \<exists>e. work_event e \<and> chunk_step env decode round ext e s \<noteq> s" for s
    by (rule working_not_stuck)
qed

interpretation draining: progress_system chunk_draining "\<lambda>_. True" "chunk_step env decode round ext" "\<lambda>s. pool_rank (fst s)" "\<lambda>s. workers_gone (fst s)"
  for env decode round ext
proof unfold_locales
  show "chunk_draining s \<Longrightarrow> chunk_draining (chunk_step env decode round ext e s)" for s e
    by (rule chunk_step_draining)
  show "chunk_draining s \<Longrightarrow> chunk_step env decode round ext e s = s \<or>
      pool_rank (fst (chunk_step env decode round ext e s)) < pool_rank (fst s)" for s e
    by (rule chunk_step_rank) (simp add: chunk_draining_def)
  show "chunk_draining s \<Longrightarrow> \<not> workers_gone (fst s) \<Longrightarrow> \<exists>e. True \<and> chunk_step env decode round ext e s \<noteq> s" for s
    using draining_not_stuck by simp
qed

section \<open>The call returns\<close>

lemma started_chunk_working:
  assumes "cs \<noteq> []" "length cs \<le> goQueueBufferSize"
  shows "chunk_working (started_chunk now deadLetters (map (chunk_job encode round ids) cs), cl)"
proof -
  have z: "workers_weight (replicate n WIdle) = 0" for n by (auto simp: workers_weight_zero)
  show ?thesis
    using assms started_chunk_balanced [of "map (chunk_job encode round ids) cs" now deadLetters]
    by (auto simp: chunk_working_def chunk_alive_def chunk_pool_ok_def shut_ok_def started_chunk_simps work_left_def z goWorkerPoolSize_def)
qed

lemma started_chunk_rank:
  "pool_rank (started_chunk now deadLetters (map (chunk_job encode round ids) cs)) = 30 * length cs + 12"
proof -
  have "job_rank (chunk_job encode round ids x) = 30" for x
    by (simp add: job_rank_def chunk_job_def NewJob_def DefaultMaxAttempts_def)
  then have "map (item_rank \<circ> Item \<circ> chunk_job encode round ids) cs = map (\<lambda>_. 30) cs" by simp
  then show ?thesis
    by (simp add: pool_rank_def items_rank_def started_chunk_simps goWorkerPoolSize_def sum_list_replicate comp_assoc
        sum_list_triv del: map_eq_conv)
qed



text \<open>The chunk of two modules of \<open>Round_Properties\<close>.\<close>

lemma demo_chunk_short: "demo_chunk \<noteq> []" "length demo_chunk = 2" "length demo_chunk \<le> goQueueBufferSize"
  by (simp_all add: demo_chunk_def demo_build_list_def goQueueBufferSize_def)

lemma demo_work_events: "list_all work_event (ct_work demo_trace)"
  by code_simp



end
