(* ===== verification/Pool_Deadlock.thy ===== *)
theory Pool_Deadlock
  imports Pool_Properties
begin

text \<open>
  A pool without a store can block itself: the workers are the only receivers of the channel and
  they send the children of their jobs to it. With a store the children are persisted instead
  (\<^verbatim>\<open>persistChildForDispatch\<close>).
\<close>

definition all_sending :: "pool \<Rightarrow> bool" where
  "all_sending p \<longleftrightarrow> pl_workers p \<noteq> [] \<and> pl_started p \<and> pl_senders p = [] \<and> pl_poller p = PNone \<and> \<not> pl_done p \<and>
     list_all (\<lambda>w. case w of WSendChild _ _ _ _ \<Rightarrow> True | _ \<Rightarrow> False) (pl_workers p) \<and>
     q_cap (pl_queue p) \<le> length (q_ch (pl_queue p)) \<and> \<not> q_closed (pl_queue p)"

lemma all_sending_worker:
  assumes "all_sending p" "i < length (pl_workers p)"
  obtains parent c x rest where "pl_workers p ! i = WSendChild parent c x rest"
proof -
  have "case pl_workers p ! i of WSendChild _ _ _ _ \<Rightarrow> True | _ \<Rightarrow> False"
    using assms by (simp add: all_sending_def list_all_length)
  then show ?thesis using that by (cases "pl_workers p ! i") simp_all
qed

lemma all_sending_step:
  assumes a: "all_sending p" and "no_submit e"
  shows "pool_step ext e p \<in> {p, p\<lparr>pl_stopping := True\<rparr>}"
proof (cases e)
  case (WorkerStep i we)
  show ?thesis
  proof (cases "i < length (pl_workers p)")
    case True
    from all_sending_worker [OF a True] obtain parent c x rest where w: "pl_workers p ! i = WSendChild parent c x rest" .
    then have "worker_step ext i we p = p"
      using a by (cases we) (simp_all add: channel_send_def all_sending_def)
    with WorkerStep show ?thesis by simp
  next
    case False
    then have "worker_step ext i we p = p" by (cases we) simp_all
    with WorkerStep show ?thesis by simp
  qed
next
  case (PollerStep pe)
  then show ?thesis using a by (cases pe) (simp_all add: all_sending_def pollLoop_def dispatchReady_def)
next
  case ShutdownClose
  obtain w ws where ws: "pl_workers p = w # ws" using a by (cases "pl_workers p") (auto simp: all_sending_def)
  have "0 < length (pl_workers p)" using ws by simp
  from all_sending_worker [OF a this] obtain parent c x rest where "pl_workers p ! 0 = WSendChild parent c x rest" .
  then have "w = WSendChild parent c x rest" using ws by simp
  then show ?thesis using ShutdownClose ws by (simp add: Shutdown_close_def)
qed (use assms in \<open>simp_all add: no_submit_def all_sending_def sender_step_def Start_def Shutdown_begin_def\<close>)

lemma all_sending_stopping: "all_sending p \<Longrightarrow> all_sending (p\<lparr>pl_stopping := True\<rparr>)"
  by (simp add: all_sending_def)

text \<open>Without a store the pool blocks for good once every worker sends a child to the full channel: no event,
  a shutdown included, moves a worker, closes \<^verbatim>\<open>Done\<close> or closes the queue.\<close>

theorem sending_workers_block:
  assumes "all_sending p" and "list_all no_submit es"
  shows "pl_workers (pool_run ext es p) = pl_workers p \<and> \<not> pl_done (pool_run ext es p) \<and> \<not> q_closed (pl_queue (pool_run ext es p))"
  using assms
proof (induction es arbitrary: p)
  case (Cons e es)
  let ?p = "pool_step ext e p"
  have p: "?p \<in> {p, p\<lparr>pl_stopping := True\<rparr>}" using all_sending_step Cons.prems by simp
  then have "all_sending ?p" "pl_workers ?p = pl_workers p" using Cons.prems(1) all_sending_stopping by auto
  with Cons.IH [of ?p] Cons.prems(2) show ?case by (simp add: pool_run_def)
qed (simp add: pool_run_def all_sending_def)

text \<open>One worker, room for one job, and a job with two children.\<close>

definition two_children_run :: "pool_event list" where
  "two_children_run =
     [SenderStep 0, WorkerStep 0 (Dequeue 1 (\<lambda>_. False)), WorkerStep 0 (Handled 2 0 (Inr [child_b, child_b\<lparr>ID := ''c''\<rparr>])),
      WorkerStep 0 (Proceed 3), WorkerStep 0 (Proceed 3), WorkerStep 0 (Proceed 3)]"

definition blocked_pool :: pool where
  "blocked_pool = pool_run pool_ext two_children_run (memory_pool pool_ext 0 1 1 True [seed_a])"

lemma blocked_pool_sending: "all_sending blocked_pool"
  by code_simp

theorem sending_workers_block_witness:
  "\<not> pl_done (pool_run pool_ext [WorkerStep 0 (Proceed 4), ShutdownBegin, ShutdownClose, WorkerStep 0 (Proceed 5)] blocked_pool) \<and>
   pl_workers (pool_run pool_ext [WorkerStep 0 (Proceed 4), ShutdownBegin, ShutdownClose, WorkerStep 0 (Proceed 5)] blocked_pool) \<noteq> []"
proof -
  let ?es = "[WorkerStep 0 (Proceed 4), ShutdownBegin, ShutdownClose, WorkerStep 0 (Proceed 5)]"
  have "list_all no_submit ?es" by (simp add: no_submit_def)
  from sending_workers_block [OF blocked_pool_sending this, of pool_ext] blocked_pool_sending
  show ?thesis by (simp add: all_sending_def)
qed

end
