(* ===== verification/Store_Interface.thy ===== *)
theory Store_Interface
  imports Legacy_Queue
begin

text \<open>
  The interface between the process-local queue and its store (\<^verbatim>\<open>src/internal/store/store.go\<close>): the
  methods as a record, the contract the queue relies on as a locale over a view of the status of
  each job, and the PostgreSQL store as its provider. The contract gives exclusive delivery: a job
  that was acquired is not acquired again before a retry or a reclaim.
\<close>

section \<open>The interface\<close>

record 's job_store =
  op_CreateJob :: "gotime \<Rightarrow> job \<Rightarrow> 's \<Rightarrow> legacy_error + 's"
  op_AcquireJob :: "gotime \<Rightarrow> (string \<Rightarrow> bool) \<Rightarrow> 's \<Rightarrow> job option \<times> 's"
  op_CompleteJob :: "string \<Rightarrow> 's \<Rightarrow> legacy_error + 's"
  op_RetryJob :: "job \<Rightarrow> 's \<Rightarrow> legacy_error + 's"
  op_DeadLetterJob :: "gotime \<Rightarrow> job \<Rightarrow> string \<Rightarrow> 's \<Rightarrow> legacy_error + 's"
  op_ReclaimStuckJobs :: "'s \<Rightarrow> nat \<times> 's"
  op_DLQEntries :: "'s \<Rightarrow> dlq_entry list"

definition postgres_store :: "externals \<Rightarrow> db job_store" where
  "postgres_store ext =
     \<lparr>op_CreateJob = CreateJob ext, op_AcquireJob = AcquireJob, op_CompleteJob = CompleteJob, op_RetryJob = RetryJob,
      op_DeadLetterJob = DeadLetterJob ext, op_ReclaimStuckJobs = ReclaimStuckJobs, op_DLQEntries = DLQEntries\<rparr>"

text \<open>A call of the interface; a call that fails leaves the store as it is.\<close>

datatype store_call =
    CallCreate gotime job
  | CallAcquire gotime "string \<Rightarrow> bool"
  | CallComplete string
  | CallRetry job
  | CallDeadLetter gotime job string
  | CallReclaim

fun after_call :: "'s job_store \<Rightarrow> store_call \<Rightarrow> 's \<Rightarrow> 's" where
  "after_call st (CallCreate now j) s = (case op_CreateJob st now j s of Inl _ \<Rightarrow> s | Inr s' \<Rightarrow> s')"
| "after_call st (CallAcquire now locked) s = snd (op_AcquireJob st now locked s)"
| "after_call st (CallComplete i) s = (case op_CompleteJob st i s of Inl _ \<Rightarrow> s | Inr s' \<Rightarrow> s')"
| "after_call st (CallRetry j) s = (case op_RetryJob st j s of Inl _ \<Rightarrow> s | Inr s' \<Rightarrow> s')"
| "after_call st (CallDeadLetter now j err) s = (case op_DeadLetterJob st now j err s of Inl _ \<Rightarrow> s | Inr s' \<Rightarrow> s')"
| "after_call st CallReclaim s = snd (op_ReclaimStuckJobs st s)"

text \<open>The jobs that a sequence of calls hands out, and the calls that make a job eligible again.\<close>

fun handed_out :: "'s job_store \<Rightarrow> store_call list \<Rightarrow> 's \<Rightarrow> string list" where
  "handed_out st [] s = []"
| "handed_out st (c # cs) s =
     (case c of
        CallAcquire now locked \<Rightarrow> (case fst (op_AcquireJob st now locked s) of Some j \<Rightarrow> [ID j] | None \<Rightarrow> [])
      | _ \<Rightarrow> []) @ handed_out st cs (after_call st c s)"

fun releases :: "string \<Rightarrow> store_call \<Rightarrow> bool" where
  "releases i (CallRetry j) = (ID j = i)"
| "releases i CallReclaim = True"
| "releases i _ = False"

section \<open>The contract\<close>

locale job_store_contract =
  fixes st :: "'s job_store" and inv :: "'s \<Rightarrow> bool" and view :: "'s \<Rightarrow> string \<Rightarrow> status option"
  assumes create: "inv s \<Longrightarrow> op_CreateJob st now j s = Inr s' \<Longrightarrow>
      inv s' \<and> view s (ID j) = None \<and> view s' = (view s)(ID j \<mapsto> StatusPending)"
    and acquire: "inv s \<Longrightarrow> op_AcquireJob st now locked s = (Some j, s') \<Longrightarrow>
      inv s' \<and> view s (ID j) = Some StatusPending \<and> \<not> locked (ID j) \<and> view s' = (view s)(ID j \<mapsto> StatusRunning)"
    and acquire_none: "op_AcquireJob st now locked s = (None, s') \<Longrightarrow> s' = s"
    and complete: "inv s \<Longrightarrow> op_CompleteJob st i s = Inr s' \<Longrightarrow>
      inv s' \<and> view s i \<noteq> None \<and> view s' = (view s)(i \<mapsto> StatusCompleted)"
    and retry: "inv s \<Longrightarrow> op_RetryJob st j s = Inr s' \<Longrightarrow>
      inv s' \<and> view s (ID j) \<noteq> None \<and> view s' = (view s)(ID j \<mapsto> StatusPending)"
    and dead_letter: "inv s \<Longrightarrow> op_DeadLetterJob st now j err s = Inr s' \<Longrightarrow>
      inv s' \<and> view s (ID j) \<noteq> None \<and> view s' = (view s)(ID j \<mapsto> StatusDeadLettered)"
    and reclaim: "inv s \<Longrightarrow> op_ReclaimStuckJobs st s = (n, s') \<Longrightarrow>
      inv s' \<and> view s' = (\<lambda>i. map_option (\<lambda>x. if x = StatusRunning then StatusPending else x) (view s i))"
begin

lemma acquire_call:
  assumes "inv s"
  shows "inv (snd (op_AcquireJob st now locked s))"
    and "view (snd (op_AcquireJob st now locked s)) = (case fst (op_AcquireJob st now locked s) of
      None \<Rightarrow> view s | Some j \<Rightarrow> (view s)(ID j \<mapsto> StatusRunning))"
    and "fst (op_AcquireJob st now locked s) = Some j \<Longrightarrow> view s (ID j) = Some StatusPending"
proof -
  obtain r s' where a: "op_AcquireJob st now locked s = (r, s')" by fastforce
  have "inv s' \<and> view s' = (case r of None \<Rightarrow> view s | Some j \<Rightarrow> (view s)(ID j \<mapsto> StatusRunning)) \<and>
      (r = Some j \<longrightarrow> view s (ID j) = Some StatusPending)"
  proof (cases r)
    case None
    with a acquire_none [of now locked s s'] assms show ?thesis by simp
  next
    case (Some j')
    with a acquire [OF assms, of now locked j' s'] show ?thesis by auto
  qed
  with a show "inv (snd (op_AcquireJob st now locked s))"
    "view (snd (op_AcquireJob st now locked s)) = (case fst (op_AcquireJob st now locked s) of
      None \<Rightarrow> view s | Some j \<Rightarrow> (view s)(ID j \<mapsto> StatusRunning))"
    "fst (op_AcquireJob st now locked s) = Some j \<Longrightarrow> view s (ID j) = Some StatusPending" by simp_all
qed

lemma reclaim_call:
  assumes "inv s"
  shows "inv (snd (op_ReclaimStuckJobs st s))"
  using reclaim [OF assms, of "fst (op_ReclaimStuckJobs st s)" "snd (op_ReclaimStuckJobs st s)"] by simp

lemma call_inv: "inv s \<Longrightarrow> inv (after_call st c s)"
proof (cases c)
  case (CallCreate now j)
  then show "inv s \<Longrightarrow> ?thesis" using create [of s now j] by (simp split: sum.split)
next
  case (CallComplete k)
  then show "inv s \<Longrightarrow> ?thesis" using complete [of s k] by (simp split: sum.split)
next
  case (CallRetry j)
  then show "inv s \<Longrightarrow> ?thesis" using retry [of s j] by (simp split: sum.split)
next
  case (CallDeadLetter now j err)
  then show "inv s \<Longrightarrow> ?thesis" using dead_letter [of s now j err] by (simp split: sum.split)
qed (simp_all add: acquire_call(1) reclaim_call)

text \<open>A job that is not pending stays so until something releases it, and is not handed out.\<close>

lemma idle_call:
  assumes "inv s" "view s i \<notin> {None, Some StatusPending}" "\<not> releases i c"
  shows "view (after_call st c s) i \<notin> {None, Some StatusPending}"
proof (cases c)
  case (CallCreate now j)
  then show ?thesis using assms(2) create [OF assms(1), of now j] by (auto split: sum.split)
next
  case (CallAcquire now locked)
  then show ?thesis using assms(2) acquire_call(2) [OF assms(1), of now locked] by (simp split: option.split)
next
  case (CallComplete k)
  then show ?thesis using assms(2) complete [OF assms(1), of k] by (simp split: sum.split)
next
  case (CallRetry j)
  then show ?thesis using assms(2,3) retry [OF assms(1), of j] by (simp split: sum.split)
next
  case (CallDeadLetter now j err)
  then show ?thesis using assms(2) dead_letter [OF assms(1), of now j err] by (simp split: sum.split)
qed (use assms(3) in simp)

lemma not_handed_out:
  "inv s \<Longrightarrow> view s i \<notin> {None, Some StatusPending} \<Longrightarrow> \<forall>c\<in>set cs. \<not> releases i c \<Longrightarrow> i \<notin> set (handed_out st cs s)"
proof (induction cs arbitrary: s)
  case (Cons c cs)
  have rest: "i \<notin> set (handed_out st cs (after_call st c s))"
    using Cons.IH [OF call_inv idle_call] Cons.prems by simp
  show ?case
  proof (cases c)
    case (CallAcquire now locked)
    have "ID j \<noteq> i" if "fst (op_AcquireJob st now locked s) = Some j" for j
      using acquire_call(3) [OF Cons.prems(1) that] Cons.prems(2) by auto
    then show ?thesis using CallAcquire rest by (cases "fst (op_AcquireJob st now locked s)") auto
  qed (use rest in simp_all)
qed simp

lemma exclusive_delivery:
  assumes "inv s" "op_AcquireJob st now locked s = (Some j, s')" "\<forall>c\<in>set cs. \<not> releases (ID j) c"
  shows "ID j \<notin> set (handed_out st cs s')"
proof -
  from acquire [OF assms(1,2)] have "inv s'" "view s' (ID j) \<notin> {None, Some StatusPending}" by simp_all
  then show ?thesis by (rule not_handed_out [OF _ _ assms(3)])
qed

lemma handed_out_distinct:
  "inv s \<Longrightarrow> \<forall>c\<in>set cs. \<forall>i. \<not> releases i c \<Longrightarrow> distinct (handed_out st cs s)"
proof (induction cs arbitrary: s)
  case (Cons c cs)
  then have d: "distinct (handed_out st cs (after_call st c s))" by (simp add: call_inv)
  show ?case
  proof (cases c)
    case (CallAcquire now locked)
    have "ID j \<notin> set (handed_out st cs (after_call st c s))" if "fst (op_AcquireJob st now locked s) = Some j" for j
    proof -
      have "op_AcquireJob st now locked s = (Some j, after_call st c s)" using that CallAcquire by (simp add: prod_eq_iff)
      from exclusive_delivery [OF Cons.prems(1) this] Cons.prems(2) show ?thesis by simp
    qed
    then show ?thesis using CallAcquire d by (cases "fst (op_AcquireJob st now locked s)") auto
  qed (use d in simp_all)
qed simp

end

section \<open>The PostgreSQL store keeps the contract\<close>

definition unique_ids :: "db \<Rightarrow> bool" where
  "unique_ids d \<longleftrightarrow> distinct (map r_id (t_jobs d))"

definition status_of :: "job_row list \<Rightarrow> string \<Rightarrow> status option" where
  "status_of rows = map_of (map (\<lambda>r. (r_id r, r_status r)) rows)"

lemma status_of_None: "status_of rows i = None \<longleftrightarrow> i \<notin> r_id ` set rows"
  by (induction rows) (auto simp: status_of_def)

lemma status_of_row: "distinct (map r_id rows) \<Longrightarrow> r \<in> set rows \<Longrightarrow> status_of rows (r_id r) = Some (r_status r)"
  unfolding status_of_def by (rule map_of_is_SomeI) (simp_all add: comp_def)

lemma status_of_append: "i \<notin> r_id ` set rows \<Longrightarrow> r_id r = i \<Longrightarrow> status_of (rows @ [r]) = (status_of rows)(i \<mapsto> r_status r)"
proof (induction rows)
  case (Cons x xs)
  then show ?case by (auto simp: status_of_def fun_upd_twist)
qed (simp add: status_of_def)

lemma status_of_update:
  assumes "\<And>r. r_id (f r) = r_id r" "\<And>r. r_status (f r) = x" "i \<in> r_id ` set rows"
  shows "status_of (update_where (\<lambda>r. r_id r = i) f rows) = (status_of rows)(i \<mapsto> x)"
proof (rule ext)
  fix k
  have "status_of (update_where (\<lambda>r. r_id r = i) f rs) k =
      (if k = i then (if i \<in> r_id ` set rs then Some x else None) else status_of rs k)" for rs
    using assms(1,2) by (induction rs) (auto simp: status_of_def update_where_def)
  then show "status_of (update_where (\<lambda>r. r_id r = i) f rows) k = ((status_of rows)(i \<mapsto> x)) k" using assms(3) by simp
qed

lemma status_of_reclaim:
  "status_of (update_where (\<lambda>r. r_status r = StatusRunning) (\<lambda>r. r\<lparr>r_status := StatusPending\<rparr>) rows) =
   (\<lambda>i. map_option (\<lambda>x. if x = StatusRunning then StatusPending else x) (status_of rows i))"
proof (rule ext)
  fix i
  show "status_of (update_where (\<lambda>r. r_status r = StatusRunning) (\<lambda>r. r\<lparr>r_status := StatusPending\<rparr>) rows) i =
      map_option (\<lambda>x. if x = StatusRunning then StatusPending else x) (status_of rows i)"
    by (induction rows) (auto simp: status_of_def update_where_def)
qed

lemma has_job_ids: "has_job d i \<longleftrightarrow> i \<in> r_id ` set (t_jobs d)"
  by (auto simp: has_job_def list_ex_iff)

interpretation postgres: job_store_contract "postgres_store ext" unique_ids "\<lambda>d. status_of (t_jobs d)" for ext
proof unfold_locales
  fix s s' :: db and now j
  assume u: "unique_ids s" and c: "op_CreateJob (postgres_store ext) now j s = Inr s'"
  then obtain row where "t_jobs s' = t_jobs s @ [row]" "r_id row = ID j" "r_status row = StatusPending" "\<not> has_job s (ID j)"
    by (auto simp: postgres_store_def CreateJob_def new_row_def Let_def split: sum.splits if_splits)
  then show "unique_ids s' \<and> status_of (t_jobs s) (ID j) = None \<and>
      status_of (t_jobs s') = (status_of (t_jobs s))(ID j \<mapsto> StatusPending)"
    using u status_of_append [of "ID j" "t_jobs s" row] by (auto simp: unique_ids_def has_job_ids status_of_None)
next
  fix s s' :: db and now locked j
  assume u: "unique_ids s" and "op_AcquireJob (postgres_store ext) now locked s = (Some j, s')"
  then have "AcquireJob now locked s = (Some j, s')" by (simp add: postgres_store_def)
  then obtain row where row: "row \<in> set (t_jobs s)" "acquirable now locked row" "j = scanJob (row\<lparr>r_status := StatusRunning\<rparr>)"
    "t_jobs s' = update_where (\<lambda>r. r_id r = r_id row) (\<lambda>r. r\<lparr>r_status := StatusRunning\<rparr>) (t_jobs s)" by (rule AcquireJob_Some)
  then have "ID j = r_id row" by (simp add: scanJob_def NewJob_def)
  moreover have "status_of (t_jobs s) (r_id row) = Some StatusPending"
    using status_of_row [of "t_jobs s" row] row(1,2) u by (simp add: unique_ids_def acquirable_def)
  ultimately show "unique_ids s' \<and> status_of (t_jobs s) (ID j) = Some StatusPending \<and> \<not> locked (ID j) \<and>
      status_of (t_jobs s') = (status_of (t_jobs s))(ID j \<mapsto> StatusRunning)"
    using row u status_of_update [of "\<lambda>r. r\<lparr>r_status := StatusRunning\<rparr>" StatusRunning "r_id row" "t_jobs s"]
    by (simp add: unique_ids_def map_update_where acquirable_def)
next
  fix s s' :: db and now locked
  assume "op_AcquireJob (postgres_store ext) now locked s = (None, s')"
  then show "s' = s" by (auto simp: postgres_store_def dest: AcquireJob_None)
next
  fix s s' :: db and i
  assume "unique_ids s" "op_CompleteJob (postgres_store ext) i s = Inr s'"
  then show "unique_ids s' \<and> status_of (t_jobs s) i \<noteq> None \<and> status_of (t_jobs s') = (status_of (t_jobs s))(i \<mapsto> StatusCompleted)"
    by (auto simp: postgres_store_def CompleteJob_def updateStatus_def has_job_ids status_of_None unique_ids_def map_update_where
        status_of_update split: if_splits)
next
  fix s s' :: db and j
  assume "unique_ids s" "op_RetryJob (postgres_store ext) j s = Inr s'"
  then show "unique_ids s' \<and> status_of (t_jobs s) (ID j) \<noteq> None \<and> status_of (t_jobs s') = (status_of (t_jobs s))(ID j \<mapsto> StatusPending)"
    by (auto simp: postgres_store_def RetryJob_def has_job_ids status_of_None unique_ids_def map_update_where
        status_of_update split: if_splits)
next
  fix s s' :: db and now j err
  assume "unique_ids s" "op_DeadLetterJob (postgres_store ext) now j err s = Inr s'"
  then show "unique_ids s' \<and> status_of (t_jobs s) (ID j) \<noteq> None \<and>
      status_of (t_jobs s') = (status_of (t_jobs s))(ID j \<mapsto> StatusDeadLettered)"
    by (auto simp: postgres_store_def DeadLetterJob_def has_job_ids status_of_None unique_ids_def map_update_where
        status_of_update split: if_splits sum.splits)
next
  fix s s' :: db and n
  assume "unique_ids s" "op_ReclaimStuckJobs (postgres_store ext) s = (n, s')"
  then show "unique_ids s' \<and> status_of (t_jobs s') =
      (\<lambda>i. map_option (\<lambda>x. if x = StatusRunning then StatusPending else x) (status_of (t_jobs s) i))"
    by (auto simp: postgres_store_def ReclaimStuckJobs_def unique_ids_def map_update_where status_of_reclaim)
qed

section \<open>The properties\<close>

text \<open>Delivery is exclusive. A job that \<^verbatim>\<open>AcquireJob\<close> returned is returned by no later call, whatever other
  processes do with the store, until \<^verbatim>\<open>RetryJob\<close> names it or \<^verbatim>\<open>ReclaimStuckJobs\<close> runs.\<close>

theorem AcquireJob_exclusive:
  assumes "distinct (map r_id (t_jobs d))" and "AcquireJob now locked d = (Some j, d')"
    and "list_all (\<lambda>c. \<not> releases (ID j) c) cs"
  shows "ID j \<notin> set (handed_out (postgres_store ext) cs d')"
proof (rule postgres.exclusive_delivery)
  show "unique_ids d" using assms(1) by (simp add: unique_ids_def)
  show "op_AcquireJob (postgres_store ext) now locked d = (Some j, d')" using assms(2) by (simp add: postgres_store_def)
qed (use assms(3) in \<open>simp add: list_all_iff\<close>)

text \<open>The reload loop is a sequence of acquisitions.\<close>

lemma handed_out_exhausted:
  "AcquireJob now (\<lambda>_. False) d = (None, d) \<Longrightarrow> handed_out (postgres_store ext) (replicate n (CallAcquire now (\<lambda>_. False))) d = []"
  by (induction n) (simp_all add: postgres_store_def)

lemma reload_handed_out:
  "reload n now d = (js, d') \<Longrightarrow> handed_out (postgres_store ext) (replicate n (CallAcquire now (\<lambda>_. False))) d = map ID js"
proof (induction n arbitrary: d js)
  case (Suc n)
  obtain r d1 where a: "AcquireJob now (\<lambda>_. False) d = (r, d1)" by fastforce
  show ?case
  proof (cases r)
    case None
    then have "d1 = d" using a AcquireJob_None by simp
    then show ?thesis using Suc.prems a None handed_out_exhausted [of now d ext "Suc n"] by simp
  next
    case (Some j)
    obtain js1 d2 where r: "reload n now d1 = (js1, d2)" by fastforce
    with Suc.prems a Some have js: "js = j # js1" "reload n now d1 = (js1, d')" by simp_all
    then show ?thesis using a Some Suc.IH [OF js(2)] by (simp add: postgres_store_def)
  qed
qed simp

definition due_ids :: "gotime \<Rightarrow> job_row list \<Rightarrow> string set" where
  "due_ids now rows = r_id ` {r \<in> set rows. acquirable now (\<lambda>_. False) r}"

lemma reload_takes:
  assumes "reload n now d = (js, d')" "distinct (map r_id (t_jobs d))"
  shows "due_ids now (t_jobs d) = set (map ID js) \<union> due_ids now (t_jobs d')"
  using assms
proof (induction n arbitrary: d js)
  case (Suc n)
  obtain r d1 where a: "AcquireJob now (\<lambda>_. False) d = (r, d1)" by fastforce
  show ?case
  proof (cases r)
    case None
    then show ?thesis using Suc.prems a AcquireJob_None [of now "\<lambda>_. False" d d1] by simp
  next
    case (Some j)
    obtain js1 d2 where r: "reload n now d1 = (js1, d2)" by fastforce
    with Suc.prems a Some have js: "js = j # js1" "reload n now d1 = (js1, d')" by simp_all
    obtain row where row: "row \<in> set (t_jobs d)" "acquirable now (\<lambda>_. False) row" "ID j = r_id row"
      "t_jobs d1 = update_where (\<lambda>r. r_id r = r_id row) (\<lambda>r. r\<lparr>r_status := StatusRunning\<rparr>) (t_jobs d)"
      by (rule AcquireJob_Some [OF a [unfolded Some]]) (simp add: scanJob_def NewJob_def)
    have "distinct (map r_id (t_jobs d1))" using Suc.prems(2) by (simp add: row(4) map_update_where)
    from Suc.IH [OF js(2) this] have "due_ids now (t_jobs d1) = set (map ID js1) \<union> due_ids now (t_jobs d')" .
    moreover have "due_ids now (t_jobs d) = insert (r_id row) (due_ids now (t_jobs d1))"
      using row(1,2) unfolding row(4) due_ids_def set_update_where by (auto simp: acquirable_def image_iff)
    ultimately show ?thesis using js(1) row(3) by simp
  qed
qed simp

lemma due_ids_reclaim:
  "due_ids now (update_where (\<lambda>r. r_status r = StatusRunning) (\<lambda>r. r\<lparr>r_status := StatusPending\<rparr>) rows) =
   r_id ` {r \<in> set rows. r_status r \<in> {StatusPending, StatusRunning} \<and> r_scheduled_at r \<le> now}"
proof (induction rows)
  case (Cons x xs)
  have split: "due_ids now (y # ys) = (if acquirable now (\<lambda>_. False) y then {r_id y} else {}) \<union> due_ids now ys" for y ys
    by (auto simp: due_ids_def)
  show ?case using Cons by (auto simp: update_where_def split acquirable_def)
qed (simp add: due_ids_def)


section \<open>A store with rows of an earlier process\<close>

definition old_rows :: db where
  "old_rows = empty_db\<lparr>t_jobs :=
     [new_row 10 ''a'' ''t'' None 3 ''a'', (new_row 20 ''b'' ''t'' None 3 ''b'')\<lparr>r_status := StatusRunning\<rparr>,
      new_row 900 ''c'' ''t'' None 3 ''c'', (new_row 5 ''e'' ''t'' None 3 ''e'')\<lparr>r_status := StatusCompleted\<rparr>]\<rparr>"

lemma old_rows_distinct: "distinct (map r_id (t_jobs old_rows))"
  by code_simp


definition old_ext :: externals where
  "old_ext = \<lparr>sha256_hex = (\<lambda>s. s), jsonb_in = Some, decode_audit_row = (\<lambda>_. None), decode_child_payload = (\<lambda>_. None)\<rparr>"

theorem AcquireJob_exclusive_witness:
  "\<exists>j d'. AcquireJob 100 (\<lambda>_. False) old_rows = (Some j, d') \<and>
    ID j \<notin> set (handed_out (postgres_store old_ext) [CallAcquire 200 (\<lambda>_. False), CallComplete ''b'', CallAcquire 999 (\<lambda>_. False)] d')"
proof -
  have "fst (AcquireJob 100 (\<lambda>_. False) old_rows) \<noteq> None" by code_simp
  then obtain j where j: "AcquireJob 100 (\<lambda>_. False) old_rows = (Some j, snd (AcquireJob 100 (\<lambda>_. False) old_rows))"
    by (auto simp: prod_eq_iff)
  have "list_all (\<lambda>c. \<not> releases (ID j) c) [CallAcquire 200 (\<lambda>_. False), CallComplete ''b'', CallAcquire 999 (\<lambda>_. False)]" by simp
  from AcquireJob_exclusive [OF old_rows_distinct j this, of old_ext] j show ?thesis by blast
qed

end
