(* ===== verification/Store_Kinds.thy ===== *)
theory Store_Kinds
  imports Store_System
begin

text \<open>
  Job types and attempt limits in the store: whatever the set of job types and the limit are, the
  operations of the store keep every job and every dead letter within them as long as submissions,
  children, retries and replays are. The locale \<open>job_kinds\<close> is the interface that the deployed
  system uses.
\<close>

definition row_known :: "(string \<Rightarrow> bool) \<Rightarrow> int \<Rightarrow> job_row \<Rightarrow> bool" where
  "row_known types limit r \<longleftrightarrow> types (r_type r) \<and> 1 \<le> r_max_attempts r \<and> r_max_attempts r \<le> limit"

definition db_known :: "(string \<Rightarrow> bool) \<Rightarrow> int \<Rightarrow> db \<Rightarrow> bool" where
  "db_known types limit d \<longleftrightarrow>
     (\<forall>r\<in>set (t_jobs d). row_known types limit r) \<and> (\<forall>e\<in>set (t_dlq d). types (dl_job_type e))"

definition job_known :: "(string \<Rightarrow> bool) \<Rightarrow> int \<Rightarrow> job \<Rightarrow> bool" where
  "job_known types limit v \<longleftrightarrow> types (Type v) \<and> 1 \<le> Attempts v \<and> Attempts v \<le> MaxAttempts v \<and> MaxAttempts v \<le> limit"

definition sub_known :: "(string \<Rightarrow> bool) \<Rightarrow> int \<Rightarrow> submission \<Rightarrow> bool" where
  "sub_known types limit c \<longleftrightarrow> types (SubType c) \<and> 0 \<le> SubMaxAttempts c \<and> SubMaxAttempts c \<le> limit"

locale job_kinds =
  fixes types :: "string \<Rightarrow> bool" and limit :: int
  assumes default_limit: "DefaultMaxAttempts \<le> limit"
begin

lemma known_same: "t_jobs d' = t_jobs d \<Longrightarrow> t_dlq d' = t_dlq d \<Longrightarrow> db_known types limit d' = db_known types limit d"
  by (simp add: db_known_def)

lemma event_known:
  assumes "insert_event now i ty att wk det d = Inr d'" "db_known types limit d"
  shows "db_known types limit d'"
  using insert_event_frame [OF assms(1)] assms(2) by (simp add: db_known_def)

lemma known_update:
  assumes "db_known types limit d" "t_jobs d' = update_where p f (t_jobs d)" "t_dlq d' = t_dlq d"
    and "\<And>r. r_type (f r) = r_type r \<and> r_max_attempts (f r) = r_max_attempts r"
  shows "db_known types limit d'"
  using assms by (auto simp: db_known_def row_known_def set_update_where)

lemma known_insert:
  assumes "db_known types limit d" "insert_job r d = Inr d'" "row_known types limit r"
  shows "db_known types limit d'"
  using insert_job_frame [OF assms(2)] assms(1,3) by (auto simp: db_known_def)

lemma known_dlq:
  "db_known types limit d \<Longrightarrow> types ty \<Longrightarrow> db_known types limit (insert_dlq now i ty payload att err kind root parent d)"
  by (auto simp: db_known_def insert_dlq_def)

lemma default_known:
  "sub_known types limit c \<Longrightarrow> 1 \<le> SubMaxAttempts (default_attempts c) \<and> SubMaxAttempts (default_attempts c) \<le> limit \<and>
     SubType (default_attempts c) = SubType c"
  using default_limit by (auto simp: sub_known_def default_attempts_def DefaultMaxAttempts_def)

lemma finalizeRoot_known:
  assumes "finalizeRoot ext now root d = Inr d'" "db_known types limit d"
  shows "db_known types limit d'"
proof (cases "active_descendants root d = 0 \<and> count_where (\<lambda>r. r_id r = root \<and> r_status r = StatusWaiting) (t_jobs d) \<noteq> 0")
  case True
  let ?st = "root_outcome root d"
  let ?d1 = "d\<lparr>t_jobs := update_where (\<lambda>r. r_id r = root \<and> r_status r = StatusWaiting) (finalize_row now ?st) (t_jobs d)\<rparr>"
  from True assms(1) obtain d2 where
    2: "(if ?st = StatusCompleted then insert_result ext root (root_summary root d) ?d1 else Inr ?d1) = Inr d2"
    and 3: "insert_event now root (status_text ?st) None None NoDetails
      (if ?st = StatusDeadLettered then dlq_from_root now root d2 else d2) = Inr d'"
    by (auto simp: finalizeRoot_def Let_def bindE_eq_Inr split del: if_split)
  have d1: "db_known types limit ?d1" by (rule known_update [OF assms(2), where f = "finalize_row now ?st"]) (simp_all add: finalize_row_def)
  have "t_jobs d2 = t_jobs ?d1" "t_dlq d2 = t_dlq ?d1"
    using 2 insert_result_frame [of ext root "root_summary root d" ?d1 d2] by (auto split: if_splits)
  with d1 have d2: "db_known types limit d2" using known_same [of d2 ?d1] by blast
  have "db_known types limit (dlq_from_root now root d2)"
  proof (cases "job_by_id d2 root")
    case None
    with d2 show ?thesis by (simp add: dlq_from_root_def)
  next
    case (Some r)
    then have "types (r_type r)" using d2 by (auto dest!: job_by_id_SomeD simp: db_known_def row_known_def)
    with Some d2 show ?thesis by (simp add: dlq_from_root_def known_dlq)
  qed
  with d2 have "db_known types limit (if ?st = StatusDeadLettered then dlq_from_root now root d2 else d2)" by simp
  then show ?thesis by (rule event_known [OF 3])
next
  case False
  from False assms(1) have "t_jobs d' = update_where (\<lambda>r. r_id r = root \<and> r_status r = StatusWaiting) (finalize_row now (root_outcome root d)) (t_jobs d)
      \<or> t_jobs d' = t_jobs d" "t_dlq d' = t_dlq d"
    by (auto simp: finalizeRoot_def Let_def split: if_splits)
  then show ?thesis
    using known_update [OF assms(2)] known_same [of d' d] assms(2) by (fastforce simp: finalize_row_def)
qed

lemma Submit_known:
  assumes "Submit ext now newID sub d = Inr (j, created, d')" "db_known types limit d" "sub_known types limit sub"
  shows "db_known types limit d'"
proof (cases "find (\<lambda>r. SubIdempotencyKey sub \<noteq> [] \<and> r_idempotency_key r = Some (SubIdempotencyKey sub)) (t_jobs d)")
  case (Some row)
  with assms(1) have "d' = d" by (auto simp: Submit_def Let_def bindE_simps split: if_splits)
  with assms(2) show ?thesis by simp
next
  case None
  with assms(1) obtain payload d1 where
    1: "insert_job (submission_row ext now newID payload (default_attempts sub)) d = Inr d1"
    and 2: "insert_event now newID ''submitted'' None None NoDetails d1 = Inr d'"
    by (auto simp: Submit_def Let_def bindE_simps)
  have "row_known types limit (submission_row ext now newID payload (default_attempts sub))"
    using default_known [OF assms(3)] assms(3) by (simp add: row_known_def submission_row_def new_row_def sub_known_def)
  with known_insert [OF assms(2) 1] show ?thesis using event_known [OF 2] by blast
qed

lemma Retry_known:
  assumes "Retry ext now newID i maxAttempts d = Inr (j, d')" "db_known types limit d" "0 \<le> maxAttempts" "maxAttempts \<le> limit"
  shows "db_known types limit d'"
proof -
  from assms(1) obtain r created where r: "r \<in> set (t_jobs d)"
    and sub: "Submit ext now newID (empty_submission\<lparr>SubType := r_type r, SubPayload := coalesce (r_payload r) [],
       SubMaxAttempts := (if maxAttempts = 0 then r_max_attempts r else maxAttempts), SubRetriedFromJobID := r_id r\<rparr>) d =
       Inr (j, created, d')"
    by (auto simp: Retry_def Let_def bindE_simps scanServiceJob_def split: option.splits if_splits dest!: job_by_id_SomeD)
  show ?thesis
    by (rule Submit_known [OF sub assms(2)])
      (use r assms(2-4) in \<open>auto simp: sub_known_def empty_submission_def db_known_def row_known_def\<close>)
qed

lemma ReplayDLQ_known:
  assumes "ReplayDLQ ext now newID entryID maxAttempts d = Inr (j, d')" "db_known types limit d"
    and "0 \<le> maxAttempts" "maxAttempts \<le> limit"
  shows "db_known types limit d'"
proof -
  let ?find = "find (\<lambda>e. dl_id e = entryID \<and> list_ex (\<lambda>j. r_id j = dl_job_id e \<and> \<not> r_internal j) (t_jobs d)) (t_dlq d)"
  let ?m = "if maxAttempts = 0 then DefaultMaxAttempts else maxAttempts"
  from assms(1) obtain e where e: "?find = Some e" by (cases ?find) (auto simp: ReplayDLQ_def)
  with assms(1) obtain payload d1 d3 where
    1: "insert_job ((new_row now newID (dl_job_type e) payload ?m newID)\<lparr>r_replayed_from := Some (dl_job_id e)\<rparr>) d = Inr d1"
    and 2: "insert_event now newID ''submitted'' None None NoDetails (d1\<lparr>t_dlq := update_where (\<lambda>e. dl_id e = entryID)
        (\<lambda>e. e\<lparr>dl_replayed_at := Some now, dl_replayed_as := Some newID\<rparr>) (t_dlq d1)\<rparr>) = Inr d3"
    and 3: "insert_event now newID ''replayed'' None None (SourceJob (dl_job_id e)) d3 = Inr d'"
    by (auto simp: ReplayDLQ_def Let_def bindE_eq_Inr split: if_splits)
  have "types (dl_job_type e)" using find_Some_in [OF e] assms(2) by (simp add: db_known_def)
  then have "db_known types limit d1"
    using default_limit assms(3,4) by (intro known_insert [OF assms(2) 1]) (auto simp: row_known_def new_row_def DefaultMaxAttempts_def)
  then show ?thesis
    using insert_event_frame [OF 2] insert_event_frame [OF 3] by (auto simp: db_known_def set_update_where)
qed

lemma Claim_known:
  assumes "Claim now locked w lease token d = Inr (res, d')" "db_known types limit d"
  shows "db_known types limit d'"
  using assms(1)
proof (cases rule: Claim_cases)
  case (claimed row)
  show ?thesis by (rule known_update [OF assms(2) claimed(3,4)]) (simp add: claim_row_def)
qed (use assms(2) in simp)

lemma Claim_job_known:
  assumes "Claim now locked w lease token d = Inr (Some v, d')" "db_known types limit d" "tables_ok d"
  shows "job_known types limit v"
  using assms(1)
proof (cases rule: Claim_cases)
  case (claimed row)
  have row: "row \<in> set (t_jobs d)" "claimable now row" using next_claim_SomeD [OF claimed(1)] by auto
  then have "row_ok row" "row_known types limit row" using assms(2,3) by (simp_all add: tables_ok_def db_known_def)
  then show ?thesis using claimed(2) row(2)
    by (auto simp: job_known_def scanServiceJob_def claim_row_def row_known_def row_ok_def claimable_def)
qed simp

lemma Heartbeat_known:
  assumes "Heartbeat now v lease d = (owned, d')" "db_known types limit d"
  shows "db_known types limit d'"
  by (rule known_update [OF assms(2) Heartbeat_effect(1,4) [OF assms(1)]]) simp

text \<open>The part of \<^verbatim>\<open>Fail\<close> and \<^verbatim>\<open>ReclaimExpired\<close> after the row is updated: a dead letter and the root.\<close>

lemma settled_known:
  assumes "(if dead then bindE (jsonValue ext body) (\<lambda>payload. Inr (insert_dlq now i ty payload att err kind root parent d3))
      else Inr d3) = Inr d4"
    and "(if settle then finalizeRoot ext now root' d4 else Inr d4) = Inr d'"
    and "db_known types limit d3" "types ty"
  shows "db_known types limit d'"
proof -
  have "db_known types limit d4" using assms(1,3,4) known_dlq by (auto simp: bindE_eq_Inr split: if_splits)
  with assms(2) finalizeRoot_known show ?thesis by (auto split: if_splits)
qed

lemma Fail_known:
  assumes "Fail ext now v kind msg retryAt d = Inr d'" "db_known types limit d" "types (Type v)"
  shows "db_known types limit d'"
proof -
  let ?st = "fail_status v kind" and ?m = "boundedError msg"
  let ?d2 = "d\<lparr>t_jobs := update_where (lease_held v) (fail_row now ?st retryAt kind ?m) (t_jobs d),
     t_attempts := update_where
            (\<lambda>a. at_job_id a = ID v \<and> at_attempt a = Attempts v \<and> at_lease_token a = LeaseToken v)
            (\<lambda>a. a\<lparr>at_status := status_text ?st, at_finished_at := Some now,
                  at_error_kind := Some kind, at_error := Some ?m\<rparr>) (t_attempts d)\<rparr>"
  from assms(1) obtain d3 d4 where
    3: "insert_event now (ID v) (status_text ?st) (Some (Attempts v)) (Some (LockedBy v)) (ErrorDetails kind ?m) ?d2 = Inr d3"
    and 4: "(if ?st = StatusDeadLettered
             then bindE (jsonValue ext (Payload v)) (\<lambda>payload.
                    Inr (insert_dlq now (ID v) (Type v) payload (Attempts v) ?m kind
                           (RootJobID v) (nullif_empty (ParentJobID v)) d3))
             else Inr d3) = Inr d4"
    and 5: "(if ?st \<noteq> StatusRetryScheduled \<and> ID v \<noteq> RootJobID v
             then finalizeRoot ext now (RootJobID v) d4 else Inr d4) = Inr d'"
    by (cases "count_where (lease_held v) (t_jobs d) = 1") (auto simp: Fail_def Let_def bindE_eq_Inr split del: if_split)
  have "db_known types limit ?d2"
    by (rule known_update [OF assms(2), where f = "fail_row now ?st retryAt kind ?m"]) (simp_all add: fail_row_def clear_lease_def)
  then have "db_known types limit d3" by (rule event_known [OF 3])
  then show ?thesis by (rule settled_known [OF 4 5 _ assms(3)])
qed

lemma reclaim_one_known:
  assumes "reclaim_one ext now v d = Inr d'" "db_known types limit d" "types (Type v)"
  shows "db_known types limit d'"
proof -
  let ?st = "reclaim_status v"
  let ?d2 = "d\<lparr>t_jobs := update_where (\<lambda>r. r_id r = ID v) (reclaim_row now ?st) (t_jobs d),
     t_attempts := update_where (\<lambda>a. at_job_id a = ID v \<and> at_attempt a = Attempts v)
            (\<lambda>a. a\<lparr>at_status := ''abandoned'', at_finished_at := Some now,
                  at_error_kind := Some ErrorTransient,
                  at_error := Some ''worker lease expired''\<rparr>) (t_attempts d)\<rparr>"
  from assms(1) obtain d3 d4 where
    3: "insert_event now (ID v) ''lease_expired'' (Some (Attempts v)) (Some (LockedBy v)) NoDetails ?d2 = Inr d3"
    and 4: "(if ?st = StatusDeadLettered
             then bindE (jsonValue ext (Payload v)) (\<lambda>payload.
                    Inr (insert_dlq now (ID v) (Type v) payload (Attempts v)
                           ''worker lease expired'' ErrorTransient (RootJobID v)
                           (nullif_empty (ParentJobID v)) d3))
             else Inr d3) = Inr d4"
    and 5: "(if terminal ?st \<and> ID v \<noteq> RootJobID v
             then finalizeRoot ext now (RootJobID v) d4 else Inr d4) = Inr d'"
    by (auto simp: reclaim_one_def Let_def bindE_eq_Inr split del: if_split)
  have "db_known types limit ?d2"
    by (rule known_update [OF assms(2), where f = "reclaim_row now ?st"]) (simp_all add: reclaim_row_def clear_lease_def)
  then have "db_known types limit d3" by (rule event_known [OF 3])
  then show ?thesis by (rule settled_known [OF 4 5 _ assms(3)])
qed

lemma ReclaimExpired_known:
  assumes "ReclaimExpired ext now locked d = Inr (n, d')" "db_known types limit d"
  shows "db_known types limit d'"
proof -
  let ?found = "map scanServiceJob (filter (\<lambda>r. expired now r \<and> \<not> locked (r_id r)) (t_jobs d))"
  from assms(1) have run: "foldE (reclaim_one ext now) ?found d = Inr d'"
    by (auto simp: ReclaimExpired_def Let_def bindE_simps)
  have found: "types (Type v)" if "v \<in> set ?found" for v
    using that assms(2) by (auto simp: db_known_def row_known_def scanServiceJob_def)
  show ?thesis
    by (rule foldE_invariant [OF run, where I = "db_known types limit"]) (use assms(2) found reclaim_one_known in blast)+
qed

lemma Cancel_known:
  assumes "Cancel now i d = Inr (j, d')" "db_known types limit d"
  shows "db_known types limit d'"
  using assms(1)
proof (cases rule: Cancel_effect)
  case (updated v)
  have kind: "r_type (cancel_row now r) = r_type r \<and> r_max_attempts (cancel_row now r) = r_max_attempts r"
    "r_type (request_cancel now r) = r_type r \<and> r_max_attempts (request_cancel now r) = r_max_attempts r" for r
    by (simp_all add: cancel_row_def request_cancel_def)
  have "row_known types limit (cancel_row now r) = row_known types limit r"
    "row_known types limit (request_cancel now r) = row_known types limit r" for r
    by (simp_all add: row_known_def kind)
  then have "row_known types limit r" if "r \<in> set (t_jobs d')" for r
    using that updated(3) [symmetric] assms(2)
    by (cases "r_status v") (auto simp: cancel_updates_def set_update_where db_known_def)
  then show ?thesis using assms(2) updated(6) by (simp add: db_known_def)
qed (use assms(2) in simp)

lemma insertSubmission_known:
  assumes "insertSubmission ext now newID c d = Inr d'" "db_known types limit d" "sub_known types limit c"
  shows "db_known types limit d'"
proof (cases "has_key d (SubIdempotencyKey c)")
  case True
  then show ?thesis using assms(1,2) by (auto simp: insertSubmission_def Let_def bindE_simps default_attempts_def split: if_splits)
next
  case False
  then have "\<not> has_key d (SubIdempotencyKey (default_attempts c))" by (simp add: default_attempts_def)
  with assms(1) obtain r where r: "insert_job r d = Inr d'" "r_type r = SubType (default_attempts c)"
    "r_max_attempts r = SubMaxAttempts (default_attempts c)"
    by (auto simp: insertSubmission_def Let_def bindE_eq_Inr new_row_def)
  then show ?thesis
    using default_known [OF assms(3)] assms(3) by (intro known_insert [OF assms(2) r(1)]) (simp add: row_known_def sub_known_def)
qed

lemma insert_children_known:
  assumes "insert_children ext now newID v n cs d = Inr d'" "db_known types limit d" "\<forall>c\<in>set cs. sub_known types limit c"
  shows "db_known types limit d'"
  using assms
proof (induction cs arbitrary: n d)
  case (Cons c cs)
  let ?child = "c\<lparr>SubRootJobID := RootJobID v, SubParentJobID := ID v, SubInternal := True\<rparr>"
  from Cons.prems(1) obtain d1 d2 where
    1: "insertAuditRelationship ext ?child d = Inr d1"
    and 2: "insertSubmission ext now (newID n) ?child d1 = Inr d2"
    and 3: "insert_children ext now newID v (Suc n) cs d2 = Inr d'"
    by (auto simp: bindE_simps Let_def)
  have "db_known types limit d1" using insertAuditRelationship_frame [OF 1] Cons.prems(2) by (simp add: db_known_def)
  then have "db_known types limit d2" using insertSubmission_known [OF 2] Cons.prems(3) by (simp add: sub_known_def)
  then show ?case using Cons.IH [OF 3] Cons.prems(3) by simp
qed simp

lemma Complete_known:
  assumes "Complete ext now newID v res d = Inr d'" "db_known types limit d" "\<forall>c\<in>set (Children res). sub_known types limit c"
  shows "db_known types limit d'"
proof -
  let ?st = "complete_status v res"
  let ?d2 = "d\<lparr>t_jobs := update_where (lease_held v) (complete_row now ?st) (t_jobs d),
          t_attempts := update_where
            (\<lambda>a. at_job_id a = ID v \<and> at_attempt a = Attempts v \<and> at_lease_token a = LeaseToken v)
            (\<lambda>a. a\<lparr>at_status := ''completed'', at_finished_at := Some now\<rparr>) (t_attempts d)\<rparr>"
  from assms(1) obtain d3 d4 d5 d6 where
    3: "insert_children ext now newID v 0 (Children res) ?d2 = Inr d3"
    and 4: "(if Result res \<noteq> [] \<and> Result res \<noteq> ''null'' \<and> ?st = StatusCompleted
             then insert_result ext (ID v) (Result res) d3 else Inr d3) = Inr d4"
    and 5: "insert_audit_result ext v res d4 = Inr d5"
    and 6: "insert_event now (ID v) (status_text ?st) (Some (Attempts v)) (Some (LockedBy v)) NoDetails d5 = Inr d6"
    and 7: "(if ?st = StatusCompleted \<and> ID v \<noteq> RootJobID v
             then finalizeRoot ext now (RootJobID v) d6 else Inr d6) = Inr d'"
    by (cases "count_where (lease_held v) (t_jobs d) = 1") (auto simp: Complete_def Let_def bindE_eq_Inr split del: if_split)
  have "db_known types limit ?d2"
    by (rule known_update [OF assms(2), where f = "complete_row now ?st"]) (simp_all add: complete_row_def clear_lease_def)
  then have "db_known types limit d3" by (rule insert_children_known [OF 3 _ assms(3)])
  moreover have "t_jobs d4 = t_jobs d3" "t_dlq d4 = t_dlq d3"
    using 4 insert_result_frame [of ext "ID v" "Result res" d3 d4] by (auto split: if_splits)
  ultimately have "db_known types limit d5" using insert_audit_result_frame [OF 5] by (simp add: db_known_def)
  then have "db_known types limit d6" by (rule event_known [OF 6])
  then show ?thesis using 7 finalizeRoot_known by (auto split: if_splits)
qed

end

end
