(* ===== verification/Deployment.thy ===== *)
theory Deployment
  imports Audit_Seed Store_Kinds Http_Properties
begin

text \<open>
  The deployed system: the configuration and handler table of \<^verbatim>\<open>src/cmd/worker/main.go\<close>, and the API
  server, any number of workers with that table, and the store run together. Handlers are the
  modelled ones, over registries that may answer anything at any time. What the store's theorems
  ask of its clients (attempt limits, job types) is shown here of these clients.
\<close>

section \<open>Configuration of a worker\<close>

record process_env =
  getenv :: "string \<Rightarrow> string"
  parse_duration :: "string \<Rightarrow> duration option"
  host_name :: string
  new_uuid :: string

text \<open>\<open>Inl\<close> is the message of \<^verbatim>\<open>log.Fatal\<close>.\<close>

definition durationEnv :: "process_env \<Rightarrow> string \<Rightarrow> duration \<Rightarrow> string + duration" where
  "durationEnv env name fallback =
     (if getenv env name = [] then Inr fallback
      else case parse_duration env (getenv env name) of
        None \<Rightarrow> Inl (name @ '' must be a positive duration'')
      | Some d \<Rightarrow> if d \<le> 0 then Inl (name @ '' must be a positive duration'') else Inr d)"

definition worker_id :: "process_env \<Rightarrow> string" where
  "worker_id env =
     (if getenv env ''WORKER_ID'' = [] then host_name env @ ''-'' @ take 8 (new_uuid env) else getenv env ''WORKER_ID'')"

definition worker_concurrency :: "process_env \<Rightarrow> int" where
  "worker_concurrency env =
     (if getenv env ''WORKER_CONCURRENCY'' = [] then 10
      else case atoi (getenv env ''WORKER_CONCURRENCY'') of Some n \<Rightarrow> if 0 < n then n else 10 | None \<Rightarrow> 10)"

definition worker_options :: "process_env \<Rightarrow> string + service_options" where
  "worker_options env =
     bindE (durationEnv env ''WORKER_LEASE_DURATION'' (30 * second)) (\<lambda>lease.
     bindE (durationEnv env ''WORKER_HEARTBEAT_INTERVAL'' (10 * second)) (\<lambda>heartbeat.
     bindE (durationEnv env ''WORKER_RECOVERY_INTERVAL'' (5 * second)) (\<lambda>recovery.
     bindE (durationEnv env ''WORKER_POLL_INTERVAL'' (250 * millisecond)) (\<lambda>poll.
     bindE (durationEnv env ''SHUTDOWN_TIMEOUT'' (25 * second)) (\<lambda>shutdown.
       Inr \<lparr>Concurrency = worker_concurrency env, PollInterval = poll, LeaseDuration = lease,
            HeartbeatEvery = heartbeat, RecoveryInterval = recovery, ShutdownTimeout = shutdown\<rparr>)))))"

definition worker_start :: "process_env \<Rightarrow> gotime \<Rightarrow> db \<Rightarrow> string + service_options \<times> db" where
  "worker_start env now d =
     (if getenv env ''DATABASE_URL'' = [] then Inl ''DATABASE_URL is required''
      else bindE (worker_options env) (\<lambda>o'.
        bindE (Run_start now (worker_id env) (NewService o') d) (\<lambda>d'. Inr (NewService o', d'))))"

definition mustPythonTarget :: "target option" where
  "mustPythonTarget = (case NewTarget ''3.12'' ''linux'' of Inr t \<Rightarrow> Some t | Inl _ \<Rightarrow> None)"

section \<open>The handler table\<close>

text \<open>The decoders and encoders of each handler and the registries behind them; \<open>we_npm\<close> is the npm
  client of theory Registries, whose version library brings its own types.\<close>

record worker_env =
  we_demo :: "string \<Rightarrow> go_error + demo_payload"
  we_done :: bool
  we_seed :: seed_env
  we_service :: service_env
  we_npm :: "string \<Rightarrow> string \<Rightarrow> go_error + package_metadata"
  we_pypi :: pypi_env
  we_go :: go_service_env

definition worker_handlers :: "worker_env \<Rightarrow> (string \<times> (job \<Rightarrow> go_error + handler_result)) list" where
  "worker_handlers we =
     [(''demo'', demo_handle (we_demo we) (we_done we)),
      (''dependency_audit'', DependencyAudit_Handle (we_seed we)),
      (''audit_npm_package'', AuditPackageService_Handle ((we_service we)
         \<lparr>sv_fetch := we_npm we, sv_job_type := ''audit_npm_package'', sv_ecosystem := ''npm''\<rparr>)),
      (''audit_pypi_package'', AuditPackageService_Handle ((we_service we)
         \<lparr>sv_fetch := PyPI_FetchPackage ((we_pypi we)\<lparr>py_Target := the mustPythonTarget\<rparr>),
          sv_job_type := ''audit_pypi_package'', sv_ecosystem := ''pypi''\<rparr>)),
      (''audit_go_module'', GoModuleService_Handle (we_go we))]"

definition job_types :: "string list" where
  "job_types = [''demo'', ''dependency_audit'', ''audit_npm_package'', ''audit_pypi_package'', ''audit_go_module'']"

definition supports :: "worker_env \<Rightarrow> string \<Rightarrow> bool" where
  "supports we ty \<longleftrightarrow> map_of (worker_handlers we) ty \<noteq> None"

lemma supports_iff: "supports we ty \<longleftrightarrow> ty \<in> set job_types"
  by (simp add: supports_def worker_handlers_def job_types_def)

section \<open>The system\<close>

text \<open>What \<^verbatim>\<open>process\<close> receives from the handler of a job is what the handler in the table returned.\<close>

definition handled :: "worker_env \<Rightarrow> job \<Rightarrow> proc_event \<Rightarrow> bool" where
  "handled we v e \<longleftrightarrow> (case e of
     Response now newIDs outcome \<Rightarrow> (\<exists>h. map_of (worker_handlers we) (Type v) = Some h \<and> outcome = h v)
   | _ \<Rightarrow> True)"

inductive deployed :: "externals \<Rightarrow> sys \<Rightarrow> bool" for ext where
  start: "deployed ext init_sys"
| request: "deployed ext s \<Longrightarrow> deployed ext (s\<lparr>s_db := snd (serve ext env now newID req (s_db s))\<rparr>)"
| worker: "deployed ext s \<Longrightarrow> worker_start env now (s_db s) = Inr (o', d') \<Longrightarrow> deployed ext (s\<lparr>s_db := d'\<rparr>)"
| claim: "deployed ext s \<Longrightarrow> token \<notin> LeaseToken ` set (s_leases s) \<Longrightarrow>
    Claim now locked w lease token (s_db s) = Inr (Some v, d') \<Longrightarrow>
    deployed ext (s\<lparr>s_db := p_db (process_start ext (supports we) now v d'), s_leases := v # s_leases s\<rparr>)"
| process: "deployed ext s \<Longrightarrow> v \<in> set (s_leases s) \<Longrightarrow> handled we v e \<Longrightarrow>
    deployed ext (s\<lparr>s_db := p_db (process_step ext rnd cvt o' v e
      \<lparr>p_db = s_db s, p_shutdown = stopping, p_phase = Looping\<rparr>)\<rparr>)"
| maintenance: "deployed ext s \<Longrightarrow> deployed ext (maintenanceLoop ext w m s)"

section \<open>Lemmas\<close>

lemma durationEnv_pos: "durationEnv env name fallback = Inr d \<Longrightarrow> 0 < fallback \<Longrightarrow> 0 < d"
  by (auto simp: durationEnv_def split: if_splits option.splits)

text \<open>The options of the process are taken as they are: the defaults of \<^verbatim>\<open>NewService\<close> never apply.\<close>

lemma worker_options_kept:
  assumes "worker_options env = Inr o'"
  shows "NewService o' = o'"
proof -
  have "0 < Concurrency o'" "0 < PollInterval o'" "0 < LeaseDuration o'" "0 < HeartbeatEvery o'"
    "0 < RecoveryInterval o'" "0 < ShutdownTimeout o'"
    using assms by (auto simp: worker_options_def bindE_simps worker_concurrency_def second_def millisecond_def
        dest!: durationEnv_pos split: option.split)
  then show ?thesis by (simp add: NewService_def)
qed

lemma mustPythonTarget_exists: "mustPythonTarget \<noteq> None"
  by code_simp

text \<open>The children a handler asks for: one of the audit types, with the attempts of the job.\<close>

definition good_child :: "job \<Rightarrow> submission \<Rightarrow> bool" where
  "good_child v c \<longleftrightarrow> SubType c \<in> set job_types \<and> SubMaxAttempts c = MaxAttempts v"

lemma auditChild_good:
  "ty \<in> set job_types \<Longrightarrow> good_child v (auditChild sha rootID parent body ty eco name version (MaxAttempts v))"
  by (simp add: good_child_def auditChild_def)

lemma service_children_good:
  assumes "service_children env v metadata deps = Inr cs" "sv_job_type env \<in> set job_types"
  shows "\<forall>c\<in>set cs. good_child v c"
  using assms
proof (induction deps arbitrary: cs)
  case (Cons d deps)
  then show ?case by (cases d) (auto simp: bindE_simps auditChild_good split: sum.splits)
qed simp

lemma seed_children_good:
  assumes "seed_children env v spec parent ds = Inr cs" "sp_jobType spec \<in> set job_types"
  shows "\<forall>c\<in>set cs. good_child v c"
  using assms
proof (induction ds arbitrary: cs)
  case (Cons d ds)
  then show ?case by (auto simp: bindE_simps auditChild_good split: sum.splits)
qed simp

lemma seed_manifests_good:
  assumes "seed_manifests env v r ref sps = Inr (roots, cs)" "\<forall>spec\<in>set sps. sp_jobType spec \<in> set job_types"
  shows "\<forall>c\<in>set cs. good_child v c"
  using assms
proof (induction sps arbitrary: roots cs)
  case (Cons spec sps)
  show ?case
  proof (cases "se_fetch env r (sp_path spec) ref")
    case (Inl err)
    with Cons show ?thesis by (auto split: if_splits)
  next
    case (Inr data)
    with Cons.prems(1) obtain m :: manifest and children roots' others where
      "seed_children env v spec (mn_Name m) (mn_Dependencies m) = Inr children"
      and rest: "seed_manifests env v r ref sps = Inr (roots', others)" and cs: "cs = children @ others"
      by (auto simp: bindE_simps split: sum.splits)
    then have "\<forall>c\<in>set children. good_child v c" using seed_children_good Cons.prems(2) by simp
    moreover have "\<forall>c\<in>set others. good_child v c" using Cons.IH [OF rest] Cons.prems(2) by simp
    ultimately show ?thesis using cs by auto
  qed
qed simp

lemma specs_known: "\<forall>spec\<in>set (specs env r). sp_jobType spec \<in> set job_types"
  by (simp add: specs_def job_types_def)

lemma handler_children_good:
  assumes "map_of (worker_handlers we) ty = Some h" "h v = Inr res"
  shows "\<forall>c\<in>set (Children res). good_child v c"
proof -
  have demo: "Children res = []" if "demo_handle decode b v = Inr res" for decode b
    using that by (auto simp: demo_handle_def split: sum.splits if_splits)
  have seed: ?thesis if "DependencyAudit_Handle env v = Inr res" for env
    using that seed_manifests_good specs_known
    by (auto simp: DependencyAudit_Handle_def bindE_simps split: sum.splits if_splits)
  have package: ?thesis if "AuditPackageService_Handle env v = Inr res" "sv_job_type env \<in> set job_types" for env
    using that service_children_good by (auto simp: AuditPackageService_Handle_def bindE_simps split: sum.splits)
  have go: ?thesis if "GoModuleService_Handle env v = Inr res" for env
    using that by (auto simp: GoModuleService_Handle_def job_types_def intro!: auditChild_good split: sum.splits)
  show ?thesis
    using assms demo seed package go by (auto simp: worker_handlers_def job_types_def split: if_splits)
qed

interpretation kinds: job_kinds "\<lambda>ty. ty \<in> set job_types" 20
  by unfold_locales (simp add: DefaultMaxAttempts_def)

abbreviation known_db :: "db \<Rightarrow> bool" where
  "known_db \<equiv> db_known (\<lambda>ty. ty \<in> set job_types) 20"

abbreviation known_job :: "job \<Rightarrow> bool" where
  "known_job \<equiv> job_known (\<lambda>ty. ty \<in> set job_types) 20"

lemma good_child_known: "known_job v \<Longrightarrow> good_child v c \<Longrightarrow> sub_known (\<lambda>ty. ty \<in> set job_types) 20 c"
  by (auto simp: job_known_def good_child_def sub_known_def)

lemma fail_ignored_known: "known_db d \<Longrightarrow> known_job v \<Longrightarrow> known_db (fail_ignored ext now v kind msg retryAt d)"
  using kinds.Fail_known by (auto simp: fail_ignored_def job_known_def split: sum.split)

lemma handled_event_ok: "handled we v e \<Longrightarrow> known_job v \<Longrightarrow> event_ok e"
  using handler_children_good
  by (fastforce simp: handled_def event_ok_def good_child_def job_known_def split: proc_event.splits sum.splits)

lemma process_step_known:
  assumes "known_db (p_db p)" "known_job v" "handled we v e"
  shows "known_db (p_db (process_step ext rnd cvt o' v e p))"
proof (cases "p_phase p = Looping")
  case loop: True
  show ?thesis
  proof (cases e)
    case (Response now newIDs outcome)
    then obtain h where h: "map_of (worker_handlers we) (Type v) = Some h" "outcome = h v" using assms(3) by (auto simp: handled_def)
    have "known_db d'" if "h v = Inr res" "Complete ext now newIDs v res (p_db p) = Inr d'" for res d'
      using kinds.Complete_known [OF that(2) assms(1)] handler_children_good [OF h(1) that(1)] good_child_known [OF assms(2)] by blast
    then show ?thesis
      using Response loop h(2) assms(1,2) fail_ignored_known
      by (auto simp: process_step_def process_response_def Let_def split: sum.split option.split)
  next
    case (HeartbeatTick now dbErr)
    obtain owned d' where hb: "heartbeat_tick now dbErr v (LeaseDuration o') (p_db p) = (owned, d')" by fastforce
    then have "known_db d'" using assms(1) kinds.Heartbeat_known by (auto simp: heartbeat_tick_def split: if_splits)
    then show ?thesis using HeartbeatTick loop hb assms(2) fail_ignored_known by (simp add: process_step_def)
  qed (use loop assms(1,2) fail_ignored_known in \<open>simp_all add: process_step_def\<close>)
qed (use assms(1) in \<open>simp add: process_step_done\<close>)

lemma api_submit_known: "known_db d \<Longrightarrow> known_db (snd (api_submit ext env now newID body header d))"
proof (cases "decodeBody (decode_submit env) body")
  case (Some input0)
  assume d: "known_db d"
  define input where "input = (if rq_MaxAttempts input0 = 0 then input0\<lparr>rq_MaxAttempts := DefaultMaxAttempts\<rparr> else input0)"
  define sub where "sub = api_submission env input (trim_space header)"
  show ?thesis
  proof (cases "validateSubmission env input")
    case None
    have "sub_known (\<lambda>ty. ty \<in> set job_types) 20 sub"
      using validateSubmission_attempts [OF None] validateSubmission_type [OF None]
      by (auto simp: sub_known_def sub_def api_submission_def job_types_def split: if_splits)
    then have "known_db d'" if "Submit ext now newID sub d = Inr (j, created, d')" for j created d'
      using kinds.Submit_known [OF that d] by blast
    then show ?thesis
      using Some None d by (auto simp: api_submit_def Let_def input_def [symmetric] sub_def [symmetric] split: sum.split store_error.split)
  qed (use Some d in \<open>simp add: api_submit_def Let_def input_def [symmetric]\<close>)
qed (simp add: api_submit_def)

lemma serve_known: "known_db d \<Longrightarrow> known_db (snd (serve ext env now newID req d))"
  using api_submit_known kinds.Cancel_known kinds.Retry_known kinds.ReplayDLQ_known decode_attempts_range
  by (cases req) (auto simp: api_cancel_def api_retry_def api_replayDLQ_def split: sum.split option.split)

lemma maintenance_known: "known_db (s_db s) \<Longrightarrow> known_db (s_db (maintenanceLoop ext w m s))"
  using kinds.ReclaimExpired_known
  by (cases m) (auto simp: WorkerHeartbeat_def db_known_def split: sum.split)

section \<open>The invariant of the deployed system\<close>

lemma claimed_starts:
  assumes "known_job v"
  shows "process_start ext (supports we) now v d = \<lparr>p_db = d, p_shutdown = False, p_phase = Looping\<rparr>"
  using assms by (simp add: process_start_def supports_iff job_known_def)

lemma worker_start_db: "worker_start env now d = Inr (o', d') \<Longrightarrow> d' = RegisterWorker now (worker_id env) d"
  by (auto simp: worker_start_def Run_start_def bindE_simps split: if_splits)

lemma deployed_ok:
  assumes "deployed ext s"
  shows "reachable ext s \<and> known_db (s_db s) \<and> (\<forall>v\<in>set (s_leases s). known_job v)"
  using assms
proof induction
  case start
  show ?case using reachable.start [of ext] by (simp add: init_sys_def empty_db_def db_known_def)
next
  case (request s env now newID req)
  have "reachable ext (s\<lparr>s_db := snd (serve ext env now newID req (s_db s))\<rparr>)"
    using serve_step [of ext s env now newID req] request.IH reachable.step by (auto simp: request_step_def)
  with request.IH serve_known show ?case by simp
next
  case (worker s env now o' d')
  have d': "d' = RegisterWorker now (worker_id env) (s_db s)" by (rule worker_start_db [OF worker.hyps(2)])
  have "reachable ext (s\<lparr>s_db := d'\<rparr>)" unfolding d' using worker.IH reachable.step sys_step.register by blast
  moreover have "known_db d'" using worker.IH by (simp add: d' RegisterWorker_def db_known_def)
  ultimately show ?case using worker.IH by simp
next
  case (claim s token now locked w lease v d' we)
  have tok: "tables_ok (s_db s)" using claim.IH reachable_tables by blast
  have v: "known_job v" and d': "known_db d'"
    using kinds.Claim_job_known [OF claim.hyps(3) _ tok] kinds.Claim_known [OF claim.hyps(3)] claim.IH by blast+
  have "reachable ext (s\<lparr>s_db := d', s_leases := v # s_leases s\<rparr>)"
    using claim.IH reachable.step sys_step.claim [OF claim.hyps(2,3)] by blast
  then show ?case using v d' claim.IH claimed_starts [OF v] by simp
next
  case (process s v we e rnd cvt o' stopping)
  let ?p = "\<lparr>p_db = s_db s, p_shutdown = stopping, p_phase = Looping\<rparr>"
  have v: "known_job v" using process.IH process.hyps(2) by blast
  have "refines ext s (p_db (process_step ext rnd cvt o' v e ?p))"
    by (rule process_step_refines [OF process.hyps(2) _ handled_event_ok [OF process.hyps(3) v]]) simp
  then have "reachable ext (s\<lparr>s_db := p_db (process_step ext rnd cvt o' v e ?p)\<rparr>)"
    using refines_reachable process.IH by blast
  moreover have "known_db (p_db (process_step ext rnd cvt o' v e ?p))"
    by (rule process_step_known [OF _ v process.hyps(3)]) (use process.IH in simp)
  ultimately show ?case using process.IH by simp
next
  case (maintenance s w m)
  have "reachable ext (maintenanceLoop ext w m s)" using reachable_steps [OF maintenanceLoop_steps] maintenance.IH by blast
  moreover have "s_leases (maintenanceLoop ext w m s) = s_leases s" by (rule maintenanceLoop_leases)
  ultimately show ?case using maintenance.IH maintenance_known by simp
qed

text \<open>A run: a client submits a demo job and a worker claims it.\<close>

definition submitted_sys :: sys where
  "submitted_sys = init_sys\<lparr>s_db := snd (serve demo_ext demo_api_env 10 ''job-1'' demo_request (s_db init_sys))\<rparr>"

definition claimed_job :: job where
  "claimed_job = fst (demo_claim 20 ''worker-1'' ''token-1'' (s_db submitted_sys))"

definition claimed_sys :: sys where
  "claimed_sys = submitted_sys\<lparr>s_db := snd (demo_claim 20 ''worker-1'' ''token-1'' (s_db submitted_sys)),
     s_leases := [claimed_job]\<rparr>"

lemma claimed_sys_claim:
  "Claim 20 (\<lambda>_. False) ''worker-1'' 30 ''token-1'' (s_db submitted_sys) = Inr (Some claimed_job, s_db claimed_sys)"
  by code_simp

lemma submitted_deployed: "deployed demo_ext submitted_sys"
  unfolding submitted_sys_def by (rule deployed.request [OF deployed.start])

lemma claimed_deployed: "deployed demo_ext claimed_sys"
proof -
  have "s_leases submitted_sys = []" by (simp add: submitted_sys_def init_sys_def)
  moreover have "known_job claimed_job" by code_simp
  ultimately show ?thesis
    using deployed.claim [OF submitted_deployed _ claimed_sys_claim] claimed_starts by (simp add: claimed_sys_def)
qed

section \<open>The properties\<close>



text \<open>C16: in the deployed system every job, internal or submitted, has a type with a registered handler and
  between 1 and 20 attempts, so no claimed job is failed as unsupported, and no event of a claimed job
  makes the worker panic on the range of its retry delay.\<close>

theorem deployed_jobs_supported:
  assumes "deployed ext s" "r \<in> set (t_jobs (s_db s))" "v \<in> set (s_leases s)"
  shows "supports we (r_type r) \<and> 1 \<le> r_max_attempts r \<and> r_max_attempts r \<le> 20 \<and>
    p_phase (process_start ext (supports we) now v d) = Looping \<and>
    p_phase (process_step ext rnd cvt o' v e \<lparr>p_db = d, p_shutdown = b, p_phase = Looping\<rparr>) \<noteq> Panicked"
proof -
  have v: "known_job v" and r: "row_known (\<lambda>ty. ty \<in> set job_types) 20 r"
    using deployed_ok [OF assms(1)] assms(2,3) by (auto simp: db_known_def)
  then obtain delay where "Backoff rnd cvt (Attempts v) = Some delay"
    using Backoff_small [of "Attempts v" rnd cvt] by (auto simp: job_known_def)
  then have "p_phase (process_step ext rnd cvt o' v e \<lparr>p_db = d, p_shutdown = b, p_phase = Looping\<rparr>) \<noteq> Panicked"
    by (auto simp: process_step_def process_response_def Let_def split: proc_event.split sum.split prod.split)
  with r claimed_starts [OF v] show ?thesis by (simp add: row_known_def supports_iff)
qed

theorem deployed_jobs_supported_witness:
  "\<forall>we now d. supports we (r_type (hd (t_jobs (s_db claimed_sys)))) \<and>
     p_phase (process_start demo_ext (supports we) now claimed_job d) = Looping"
proof -
  have "t_jobs (s_db claimed_sys) \<noteq> []" by code_simp
  then have "hd (t_jobs (s_db claimed_sys)) \<in> set (t_jobs (s_db claimed_sys))" by simp
  moreover have "claimed_job \<in> set (s_leases claimed_sys)" by (simp add: claimed_sys_def)
  ultimately show ?thesis using deployed_jobs_supported [OF claimed_deployed] by blast
qed

end
