(* ===== verification/Api_Process.thy ===== *)
theory Api_Process
  imports Deployment
begin

text \<open>
  The process of the API server (\<^verbatim>\<open>src/cmd/api/main.go\<close>): its configuration, and how it ends. Opening
  the database, serving and draining are I/O, and their results are arguments.
\<close>

record http_server =
  hs_Addr :: string
  hs_ReadHeaderTimeout :: duration
  hs_ReadTimeout :: duration
  hs_WriteTimeout :: duration
  hs_IdleTimeout :: duration

definition api_server :: "process_env \<Rightarrow> http_server" where
  "api_server env =
     \<lparr>hs_Addr = (if getenv env ''API_ADDR'' = [] then ''0.0.0.0:8080'' else getenv env ''API_ADDR''),
      hs_ReadHeaderTimeout = 5 * second, hs_ReadTimeout = 10 * second,
      hs_WriteTimeout = 30 * second, hs_IdleTimeout = 60 * second\<rparr>"

definition api_shutdown_timeout :: "process_env \<Rightarrow> string + duration" where
  "api_shutdown_timeout env =
     (let raw = getenv env ''SHUTDOWN_TIMEOUT''
      in if raw = [] then Inr (10 * second)
         else case parse_duration env raw of
           None \<Rightarrow> Inl ''SHUTDOWN_TIMEOUT must be a positive duration''
         | Some parsed \<Rightarrow> if parsed \<le> 0 then Inl ''SHUTDOWN_TIMEOUT must be a positive duration'' else Inr parsed)"

text \<open>What ends the \<^verbatim>\<open>select\<close>: the error of \<^verbatim>\<open>ListenAndServe\<close> (\<open>None\<close> for \<^verbatim>\<open>ErrServerClosed\<close>) or a signal. How the
  process ends: \<^verbatim>\<open>log.Fatal\<close>, a return, or a drain within a timeout, with the error it logs.\<close>

datatype wake = ServeEnded "string option" | Signalled

datatype process_end = Fatal string | Returned | Drained duration "string option"

definition api_main ::
    "process_env \<Rightarrow> (string \<Rightarrow> string option) \<Rightarrow> (http_server \<Rightarrow> wake) \<Rightarrow> (duration \<Rightarrow> string option) \<Rightarrow> process_end" where
  "api_main env open_pool serving shutdown =
     (let databaseURL = getenv env ''DATABASE_URL''
      in if databaseURL = [] then Fatal ''DATABASE_URL is required''
         else case open_pool databaseURL of
           Some err \<Rightarrow> Fatal err
         | None \<Rightarrow>
             (case serving (api_server env) of
                ServeEnded (Some err) \<Rightarrow> Fatal err
              | ServeEnded None \<Rightarrow> Returned
              | Signalled \<Rightarrow>
                  (case api_shutdown_timeout env of
                     Inl msg \<Rightarrow> Fatal msg
                   | Inr timeout \<Rightarrow> Drained timeout (shutdown timeout))))"

section \<open>Lemmas\<close>

text \<open>The two processes read \<^verbatim>\<open>SHUTDOWN_TIMEOUT\<close> alike, with different defaults.\<close>

lemma api_shutdown_timeout_durationEnv: "api_shutdown_timeout env = durationEnv env ''SHUTDOWN_TIMEOUT'' (10 * second)"
  by (simp add: api_shutdown_timeout_def durationEnv_def Let_def split: option.split)

lemma api_shutdown_timeout_pos: "api_shutdown_timeout env = Inr d \<Longrightarrow> 0 < d"
  unfolding api_shutdown_timeout_durationEnv by (erule durationEnv_pos) (simp add: second_def)

text \<open>The process drains exactly when it was configured, serving and signalled, within a positive timeout.\<close>

theorem api_main_drains:
  "api_main env open_pool serving shutdown = Drained d err \<longleftrightarrow>
    getenv env ''DATABASE_URL'' \<noteq> [] \<and> open_pool (getenv env ''DATABASE_URL'') = None \<and>
    serving (api_server env) = Signalled \<and> api_shutdown_timeout env = Inr d \<and> 0 < d \<and> err = shutdown d"
  using api_shutdown_timeout_pos [of env]
  by (auto simp: api_main_def Let_def split: option.splits wake.splits sum.splits)

text \<open>A bad \<^verbatim>\<open>SHUTDOWN_TIMEOUT\<close> stops a worker when it starts. The API server starts with it, serves, and
  aborts at the signal instead of draining its requests.\<close>

theorem bad_timeout_found_late:
  assumes "durationEnv env ''SHUTDOWN_TIMEOUT'' (10 * second) = Inl msg"
    and "getenv env ''DATABASE_URL'' \<noteq> []" and "open_pool (getenv env ''DATABASE_URL'') = None"
    and "serving (api_server env) = Signalled"
  shows "api_main env open_pool serving shutdown = Fatal msg \<and> isl (worker_start env now d)"
proof
  show "api_main env open_pool serving shutdown = Fatal msg"
    using assms by (simp add: api_main_def Let_def api_shutdown_timeout_durationEnv)
  have "durationEnv env ''SHUTDOWN_TIMEOUT'' (25 * second) = Inl msg"
    using assms(1) by (simp add: durationEnv_def split: if_splits option.splits)
  then have "\<exists>e. worker_options env = Inl e"
    by (cases "worker_options env") (auto simp: worker_options_def bindE_simps)
  then show "isl (worker_start env now d)" using assms(2) by (auto simp: worker_start_def)
qed

theorem bad_timeout_found_late_witness:
  "let env = \<lparr>getenv = (\<lambda>n. if n = ''SHUTDOWN_TIMEOUT'' then ''soon'' else if n = ''DATABASE_URL'' then ''postgres://db'' else []),
         parse_duration = (\<lambda>_. None), host_name = ''h'', new_uuid = ''u''\<rparr>
   in api_main env (\<lambda>_. None) (\<lambda>_. Signalled) (\<lambda>_. None) = Fatal ''SHUTDOWN_TIMEOUT must be a positive duration''"
  unfolding Let_def
  by (rule bad_timeout_found_late [THEN conjunct1]) (simp_all add: durationEnv_def)

end
