(* ===== verification/Spec2Isabelle.thy ===== *)
theory Spec2Isabelle
  imports Store_Properties Store_Queries Worker_Properties Audit_Properties Audit_Service Http_Properties Gomod_Client
    Pool_Properties Pypi_Properties Marker_Roundtrip Manifest_Properties Registry_Properties Audit_Seed
    Markdown_Properties Store_Metrics Round_Progress
    Pool_Deadlock Store_Interface Api_Process
begin

text \<open>
  Verification of the distributed job service and dependency auditor.

  \<^bold>\<open>The program.\<close> An HTTP API (\<^verbatim>\<open>src/internal/httpapi\<close>) accepts jobs into a PostgreSQL store
  (\<^verbatim>\<open>src/internal/store/postgres/service.go\<close>). Worker processes (\<^verbatim>\<open>src/internal/worker/service.go\<close>) claim
  jobs under leases, run handlers (\<^verbatim>\<open>src/internal/handlers\<close>, \<^verbatim>\<open>src/internal/auditor\<close>), and commit
  completions, retries, dead letters and child jobs. A dependency audit is a root job whose children
  traverse a package graph; its report is assembled from the stored rows. Go modules are resolved by
  minimal version selection (\<^verbatim>\<open>src/internal/gomod\<close>) over an in-process worker pool
  (\<^verbatim>\<open>src/internal/worker/pool.go\<close>, \<^verbatim>\<open>src/internal/queue\<close>, \<^verbatim>\<open>src/internal/dlq\<close>).

  \<^bold>\<open>Theories.\<close>
  \<^item> \<^verbatim>\<open>Prelude\<close>, \<^verbatim>\<open>Go_Strings\<close>, \<^verbatim>\<open>Go_Sort\<close>: lists with a primary key and SQL-style row updates, the Go
    string functions the sources use, and the stable sort behind \<^verbatim>\<open>sort.Slice\<close> and \<^verbatim>\<open>ORDER BY\<close>.
  \<^item> \<^verbatim>\<open>Job\<close>: \<^verbatim>\<open>src/internal/job\<close> (states, job and submission structs, error classification).
  \<^item> \<^verbatim>\<open>Job_Store\<close>: the tables as records of rows and each writing method of the store as one
    transaction. \<^verbatim>\<open>Store_Rows\<close>, \<^verbatim>\<open>Store_Effects\<close>, \<^verbatim>\<open>Store_Invariants\<close>, \<^verbatim>\<open>Store_Tables\<close>: what each
    transaction does to a row and to the tables. \<^verbatim>\<open>Store_System\<close>: the step relation of the store and
    its reachable states; \<^verbatim>\<open>Store_Properties\<close>: fencing of stale workers, one running attempt per job,
    exact dead letters, child and root accounting, claim order, retries, replays. \<^verbatim>\<open>Store_Queries\<close>:
    the read-only queries; pages of a listing visit every job once. \<^verbatim>\<open>Store_Metrics\<close>: the aggregates
    behind \<^verbatim>\<open>GET /metrics\<close> and that they agree with the tables.
  \<^item> \<^verbatim>\<open>Worker_Service\<close>, \<^verbatim>\<open>Worker_Properties\<close>: the claim loops, the event loop of one job (heartbeat,
    cancellation, outcome), maintenance, and that every interleaving of them is a run of the store.
  \<^item> \<^verbatim>\<open>Auditor\<close>, \<^verbatim>\<open>Audit_Report\<close>, \<^verbatim>\<open>Audit_Properties\<close>: policy, visited and edge stores, the traversal
    step and the report. \<^verbatim>\<open>Audit_Service\<close>: the service handlers over the durable rows.
    \<^verbatim>\<open>Audit_Markdown\<close>, \<^verbatim>\<open>Markdown_Properties\<close>: \<^verbatim>\<open>src/internal/auditor/markdown.go\<close>; the text is a function
    of the data, rows keep their columns and arrows join the right boxes.
  \<^item> \<^verbatim>\<open>Http_API\<close>, \<^verbatim>\<open>Http_Properties\<close>: routes, validation, error mapping, and that each request is a step
    of the store.
  \<^item> \<^verbatim>\<open>Store_Kinds\<close>, \<^verbatim>\<open>Deployment\<close>: the configuration and handler table of \<^verbatim>\<open>src/cmd/worker\<close>, and API,
    workers, handlers and store as one system: its states are reachable states of the store, every job has
    a handler, and no worker panics. \<^verbatim>\<open>Api_Process\<close>: \<^verbatim>\<open>src/cmd/api\<close>, its configuration and how it ends.
  \<^item> \<^verbatim>\<open>Gomod_Selection\<close>, \<^verbatim>\<open>Gomod_Properties\<close>, \<^verbatim>\<open>Gomod_Client\<close>: selection with graph pruning and its
    equivalence with the declarative definition, its termination, the proxy client and fetch rounds.
    \<^verbatim>\<open>Gomod_Rounds\<close>, \<^verbatim>\<open>Round_Properties\<close>: one chunk of a round on the worker pool; every coordinate is
    found or dead-lettered when it returns, and the collector is that of a schedule of the handler.
    \<^verbatim>\<open>Progress\<close>, \<^verbatim>\<open>Round_Progress\<close>: the locale \<open>progress_system\<close> (every event stutters or decreases a rank, and
    some event has an effect before the goal), and its two interpretations on the working and the draining
    pool: the work on a chunk ends and the call can always return.
  \<^item> \<^verbatim>\<open>Go_Regexp\<close>, \<^verbatim>\<open>Go_Compare\<close>: leftmost-first regular expressions with groups, and three-way
    comparisons with the locale \<open>three_way\<close> that is closed under lexicographic composition.
  \<^item> \<^verbatim>\<open>Pypi_Version\<close>, \<^verbatim>\<open>Pypi_Properties\<close>: \<^verbatim>\<open>src/internal/pypi/version.go\<close>; the comparison is a total
    preorder and resolution picks the highest version that may be chosen. \<^verbatim>\<open>Pypi_Requirement\<close>,
    \<^verbatim>\<open>Marker_Properties\<close>, \<^verbatim>\<open>Marker_Roundtrip\<close>: \<^verbatim>\<open>requirement.go\<close>; marker evaluation always returns, and
    gives back the meaning of a printed expression.
  \<^item> \<^verbatim>\<open>Manifests\<close>, \<^verbatim>\<open>Manifest_Properties\<close>: \<^verbatim>\<open>src/internal/depfile\<close>. \<^verbatim>\<open>Registries\<close>,
    \<^verbatim>\<open>Registry_Properties\<close>: the PyPI and npm clients with \<^verbatim>\<open>src/internal/semver\<close>. \<^verbatim>\<open>Audit_Seed\<close>: the
    GitHub client and the root handler of an audit.
  \<^item> \<^verbatim>\<open>Legacy_Queue\<close>, \<^verbatim>\<open>Worker_Pool\<close>, \<^verbatim>\<open>Pool_Properties\<close>: the process-local queue with its durable store
    and the pool as a state machine of its goroutines; when its \<^verbatim>\<open>Done\<close> channel closes.
    \<^verbatim>\<open>Pool_Deadlock\<close>: without a store the workers can block each other. \<^verbatim>\<open>Store_Interface\<close>:
    \<^verbatim>\<open>src/internal/store\<close> as a record with its contract as the locale \<open>job_store_contract\<close>, which the
    PostgreSQL store interprets; delivery is exclusive and a restart reloads every due job once.

  \<^bold>\<open>How code becomes definitions.\<close> A struct is a record, a row of a table a record, a method a function
  from the state before to the state after, and an error a value of a sum. A SQL transaction is atomic.
  Row locks that \<^verbatim>\<open>SKIP LOCKED\<close> avoids are a predicate \<open>locked\<close> on identifiers that the caller
  chooses. The clock is an argument in nanoseconds, identifiers drawn at random are arguments. Text
  columns compare byte by byte, as under the C collation. JSON, SHA-256, \<^verbatim>\<open>golang.org/x/mod\<close>, the
  proxies and registries are record arguments (\<^verbatim>\<open>externals\<close>, \<^verbatim>\<open>api_env\<close>, \<^verbatim>\<open>module_env\<close>, \<^verbatim>\<open>proxy_env\<close>),
  and what a theorem assumes of them is in its statement.

  \<^bold>\<open>Loops and fuel.\<close> \<open>select_rounds\<close> has fuel: \<open>Select_terminates\<close> shows that as many rounds as there are
  reachable coordinates suffice. \<open>marker_parser\<close> has fuel for the depth of calls, three for each token
  and three more; \<open>marker_parser_parsed\<close> shows that it is never used up. \<open>reload\<close> runs as many turns as the table has rows and
  \<open>reload_exhausts\<close> shows that nothing eligible is left. Loops of goroutines that never end are step
  functions, and the theorems hold for every sequence of steps. The rank of a pool that works on a chunk of
  \<open>n\<close> modules starts at \<open>30 n + 12\<close>: six for each of the five attempts of a job, one for each of the ten
  workers, and one each for stopping and for closing the queue.

  \<^bold>\<open>Not modelled.\<close> Connections, signals and the HTTP round trips themselves are I/O; letter case and \<^verbatim>\<open>(?i)\<close> are those of ASCII.
  Averages in the metrics are rational numbers, before they are rounded to \<^verbatim>\<open>float64\<close>. Network and database failures appear where
  the code distinguishes them; a failure that leaves a transaction rolled back is the absence of a
  step.
\<close>

end
